(* ===== verification/Prelude.thy ===== *)
theory Prelude
  imports Main "HOL-Library.Multiset"
begin

text \<open>
  Shared vocabulary of the development: Go's machine integers as HOL integers with the
  wrap-around written out, the collections of rewrite rules the component theories fill and
  use, and generic facts on lists that stand for database tables (selecting, updating and
  deleting rows by a key).
\<close>

section \<open>Rule collections\<close>

named_theorems sql_defs \<open>definitions of the SQL statements\<close>
named_theorems op_defs \<open>definitions of the operations of the program\<close>
named_theorems tab_simps \<open>rewrite rules on tables, used by the component proofs\<close>

section \<open>Go integers\<close>

text \<open>
  Go's \<open>int\<close>, \<open>int64\<close> and \<open>time.Duration\<close> are 64-bit two's complement; PostgreSQL's \<open>INT\<close> is
  32-bit and reports an error instead of wrapping.
\<close>

abbreviation int64_min :: int where "int64_min \<equiv> - 9223372036854775808"
abbreviation int64_max :: int where "int64_max \<equiv> 9223372036854775807"
abbreviation int32_max :: int where "int32_max \<equiv> 2147483647"
abbreviation int32_min :: int where "int32_min \<equiv> - 2147483648"

definition wrap64 :: "int \<Rightarrow> int" where
  "wrap64 x = (x + 9223372036854775808) mod 18446744073709551616 - 9223372036854775808"

definition in_int64 :: "int \<Rightarrow> bool" where
  "in_int64 x \<longleftrightarrow> int64_min \<le> x \<and> x \<le> int64_max"

definition in_int32 :: "int \<Rightarrow> bool" where
  "in_int32 x \<longleftrightarrow> int32_min \<le> x \<and> x \<le> int32_max"

text \<open>Go's integer division truncates towards zero.\<close>

definition trunc_div :: "int \<Rightarrow> int \<Rightarrow> int" where
  "trunc_div a b = (if (0 \<le> a) = (0 \<le> b) then \<bar>a\<bar> div \<bar>b\<bar> else - (\<bar>a\<bar> div \<bar>b\<bar>))"

lemma wrap64_id [simp]: "in_int64 x \<Longrightarrow> wrap64 x = x"
  by (simp add: wrap64_def in_int64_def)

lemma in_int64_wrap64 [simp]: "in_int64 (wrap64 x)"
proof -
  have "0 \<le> (x + 9223372036854775808) mod 18446744073709551616"
    and "(x + 9223372036854775808) mod 18446744073709551616 < 18446744073709551616"
    by simp_all
  then show ?thesis by (simp add: wrap64_def in_int64_def)
qed

lemma trunc_div_nonneg: "0 \<le> a \<Longrightarrow> 0 < b \<Longrightarrow> trunc_div a b = a div b"
  by (simp add: trunc_div_def)

section \<open>Durations\<close>

text \<open>\<open>time.Duration\<close> counts nanoseconds.\<close>

abbreviation Microsecond :: int where "Microsecond \<equiv> 1000"
abbreviation Millisecond :: int where "Millisecond \<equiv> 1000000"
abbreviation Second :: int where "Second \<equiv> 1000000000"
abbreviation Minute :: int where "Minute \<equiv> 60000000000"
abbreviation Hour :: int where "Hour \<equiv> 3600000000000"

text \<open>\<open>Duration.Milliseconds()\<close>: the whole milliseconds, truncated towards zero.\<close>

definition milliseconds :: "int \<Rightarrow> int" where
  "milliseconds d = trunc_div d Millisecond"

lemma milliseconds_bounds:
  assumes "0 \<le> d"
  shows "milliseconds d * Millisecond \<le> d" and "d < milliseconds d * Millisecond + Millisecond"
  using assms by (simp_all add: milliseconds_def trunc_div_nonneg)

end
