(* ===== verification/Support.thy ===== *)
theory Support
  imports Prelude "HOL-Library.Char_ord"
begin

text \<open>
  The small shared pieces of the program: the error values (\<^verbatim>\<open>errors.go\<close> and the errors that
  \<open>fmt.Errorf\<close> builds), error truncation (\<^verbatim>\<open>utils.go\<close>), validation of the instance name and
  the table names derived from it (\<^verbatim>\<open>db.go\<close>), and \<open>nullString\<close> of \<^verbatim>\<open>store.go\<close>.
  Go strings and byte slices are lists of bytes (\<open>string\<close>).
\<close>

section \<open>Errors\<close>

text \<open>
  The three sentinel errors; \<open>Errorf t\<close> is an error created with a rendered text, \<open>Wrap p e\<close> is
  \<open>fmt.Errorf\<close> with the format \<open>p: %w\<close>, and \<open>External t\<close> is an error value made by code
  outside the repository (driver, server, handler, user-supplied cipher) with text \<open>t\<close>.
\<close>

datatype err = ErrDuplicate | ErrNotFound | ErrNoCipher
  | Errorf string | Wrap string err | External string

fun error_text :: "err \<Rightarrow> string" where
  "error_text ErrDuplicate = ''message: duplicate''"
| "error_text ErrNotFound = ''message: not found''"
| "error_text ErrNoCipher = ''message: no cipher configured''"
| "error_text (Errorf t) = t"
| "error_text (Wrap p e) = p @ '': '' @ error_text e"
| "error_text (External t) = t"

text \<open>\<open>errors.Is\<close> along the chain of wrapped errors.\<close>

fun errors_is :: "err \<Rightarrow> err \<Rightarrow> bool" where
  "errors_is (Wrap p e) t = (Wrap p e = t \<or> errors_is e t)"
| "errors_is e t = (e = t)"

section \<open>Numbers in error texts\<close>

text \<open>The verb \<open>%d\<close>.\<close>

fun show_nat :: "nat \<Rightarrow> string" where
  "show_nat n = (if n < 10 then [char_of (48 + n)] else show_nat (n div 10) @ [char_of (48 + n mod 10)])"

declare show_nat.simps [simp del]

definition show_int :: "int \<Rightarrow> string" where
  "show_int i = (if i < 0 then CHR ''-'' # show_nat (nat (- i)) else show_nat (nat i))"

section \<open>Bounded error texts\<close>

definition maxErrorLen :: nat where
  "maxErrorLen = 1000"

definition truncateError :: "string \<Rightarrow> string" where
  "truncateError s = (if length s \<le> maxErrorLen then s else take maxErrorLen s)"

definition toErrorMessage :: "err option \<Rightarrow> string" where
  "toErrorMessage e = (case e of None \<Rightarrow> '''' | Some e \<Rightarrow> truncateError (error_text e))"

lemma truncateError_take: "truncateError s = take 1000 s"
  by (simp add: truncateError_def maxErrorLen_def)

lemma length_truncateError: "length (truncateError s) \<le> maxErrorLen"
  by (simp add: truncateError_def)

lemma truncateError_idem [simp]: "truncateError (truncateError s) = truncateError s"
  by (simp add: truncateError_def maxErrorLen_def)

section \<open>NULL for the empty string\<close>

definition nullString :: "string \<Rightarrow> string option" where
  "nullString s = (if s = '''' then None else Some s)"

text \<open>\<open>sql.NullString.String\<close>: the zero value when the column is NULL.\<close>

definition null_string_value :: "string option \<Rightarrow> string" where
  "null_string_value v = (case v of None \<Rightarrow> '''' | Some s \<Rightarrow> s)"

lemma null_string_roundtrip [simp]: "null_string_value (nullString s) = s"
  by (simp add: null_string_value_def nullString_def)

section \<open>Instance names and table names\<close>

definition maxNameLen :: nat where
  "maxNameLen = 47"

definition is_digit :: "char \<Rightarrow> bool" where
  "is_digit c \<longleftrightarrow> CHR ''0'' \<le> c \<and> c \<le> CHR ''9''"

definition is_letter :: "char \<Rightarrow> bool" where
  "is_letter c \<longleftrightarrow> (CHR ''a'' \<le> c \<and> c \<le> CHR ''z'') \<or> (CHR ''A'' \<le> c \<and> c \<le> CHR ''Z'')"

text \<open>The regular expression \<^verbatim>\<open>^[a-zA-Z0-9_]+$\<close>; \<open>$\<close> is the end of the text in Go.\<close>

definition nameRegex_match :: "string \<Rightarrow> bool" where
  "nameRegex_match s \<longleftrightarrow>
     s \<noteq> [] \<and> list_all (\<lambda>c. is_letter c \<or> is_digit c \<or> c = CHR ''_'') s"

definition nameRegex_text :: string where
  "nameRegex_text = ''^[a-zA-Z0-9_]+$''"

text \<open>
  The argument \<open>quote\<close> is \<open>strconv.Quote\<close>, what the verb \<open>%q\<close> prints; it only shapes the text of
  the error.
\<close>

definition assertValidName :: "(string \<Rightarrow> string) \<Rightarrow> string \<Rightarrow> err option" where
  "assertValidName quote name =
     (if name = '''' then None
      else if \<not> nameRegex_match name
        then Some (Errorf (''message: invalid name '' @ quote name @ '': must match '' @ nameRegex_text))
      else if maxNameLen < length name
        then Some (Errorf (''message: invalid name '' @ quote name @ '': exceeds 47 chars''))
      else None)"

definition tableName :: "string \<Rightarrow> string \<Rightarrow> string" where
  "tableName name suffix =
     (if name = '''' then ''message_'' @ suffix
      else ''message_'' @ name @ ''_'' @ suffix)"

lemma assertValidName_None_iff:
  "assertValidName q name = None \<longleftrightarrow>
     name = '''' \<or> (nameRegex_match name \<and> length name \<le> maxNameLen)"
  by (auto simp: assertValidName_def)

lemma length_tableName:
  "length (tableName name suffix) =
     (if name = '''' then 8 + length suffix else 9 + length name + length suffix)"
  by (simp add: tableName_def)

lemma tableName_suffix_inj:
  "tableName name s1 = tableName name s2 \<longleftrightarrow> s1 = s2"
  by (simp add: tableName_def)

text \<open>The characters of a table name are identifier characters: nothing to quote or escape.\<close>

lemma tableName_identifier:
  assumes "assertValidName q name = None" and "nameRegex_match suffix"
  shows "nameRegex_match (tableName name suffix)"
  using assms
  by (auto simp: assertValidName_None_iff tableName_def nameRegex_match_def is_letter_def)

end
