(* ===== verification/Backoff.thy ===== *)
theory Backoff
  imports Support
begin

text \<open>
  \<^verbatim>\<open>backoff.go\<close>: the delay before the next retry. Durations are 64-bit, so \<open>LinearBackoff\<close> wraps;
  \<open>ExponentialBackoff\<close> goes through \<open>float64\<close>, whose rounding, overflow to infinity and
  conversion back to an integer are written out.
\<close>

section \<open>The part of float64 the code uses\<close>

text \<open>
  Every finite value that occurs is an integer: the conversion of a duration, a power of two, or
  their product.
\<close>

datatype f64 = Fin int | PInf | NInf | NaN

text \<open>How many low bits of a magnitude do not fit the 53-bit significand.\<close>

fun sig_shift :: "nat \<Rightarrow> nat" where
  "sig_shift n = (if n < 9007199254740992 then 0 else Suc (sig_shift (n div 2)))"

declare sig_shift.simps [simp del]

text \<open>Round a magnitude to 53 significant bits, to nearest, ties to even.\<close>

definition round53 :: "nat \<Rightarrow> nat" where
  "round53 n =
     (let e = sig_shift n; q = n div 2 ^ e; r = n mod 2 ^ e in
      if e = 0 then n
      else if 2 * r < 2 ^ e \<or> (2 * r = 2 ^ e \<and> even q) then q * 2 ^ e
      else (q + 1) * 2 ^ e)"

definition f64_of_int :: "int \<Rightarrow> f64" where
  "f64_of_int x = Fin (if x < 0 then - int (round53 (nat (- x))) else int (round53 (nat x)))"

text \<open>\<open>math.Pow(2, float64(k))\<close> for a non-negative integer \<open>k\<close>.\<close>

definition pow2_f64 :: "int \<Rightarrow> f64" where
  "pow2_f64 k = (if k < 1024 then Fin (2 ^ nat k) else PInf)"

fun f64_mult :: "f64 \<Rightarrow> f64 \<Rightarrow> f64" where
  "f64_mult (Fin a) (Fin b) =
     (if a * b \<ge> 2 ^ 1024 then PInf else if a * b \<le> - (2 ^ 1024) then NInf else Fin (a * b))"
| "f64_mult (Fin a) PInf = (if a > 0 then PInf else if a < 0 then NInf else NaN)"
| "f64_mult _ _ = NaN"

text \<open>
  Conversion to \<open>int64\<close> truncates, and is implementation-dependent when the value does not fit:
  \<open>conv\<close> is what the platform then yields.
\<close>

definition int64_of_f64 :: "(f64 \<Rightarrow> int) \<Rightarrow> f64 \<Rightarrow> int" where
  "int64_of_f64 conv f =
     (case f of Fin i \<Rightarrow> if in_int64 i then i else conv f | _ \<Rightarrow> conv f)"

section \<open>Strategies\<close>

text \<open>The interface is open: \<open>CustomBackoff\<close> is a strategy supplied by the caller.\<close>

datatype backoff = FixedBackoff int | LinearBackoff int | ExponentialBackoff int int
  | CustomBackoff "int \<Rightarrow> int"

definition clamp_count :: "int \<Rightarrow> int" where
  "clamp_count retryCount = (if retryCount < 1 then 1 else retryCount)"

fun Next :: "(f64 \<Rightarrow> int) \<Rightarrow> backoff \<Rightarrow> int \<Rightarrow> int" where
  "Next conv (FixedBackoff Interval) retryCount = Interval"
| "Next conv (LinearBackoff BaseDelay) retryCount = wrap64 (BaseDelay * clamp_count retryCount)"
| "Next conv (ExponentialBackoff BaseDelay MaxDelay) retryCount =
     (let delay = int64_of_f64 conv
            (f64_mult (f64_of_int BaseDelay) (pow2_f64 (clamp_count retryCount - 1)))
      in if MaxDelay > 0 \<and> delay > MaxDelay then MaxDelay else delay)"
| "Next conv (CustomBackoff f) retryCount = f retryCount"

section \<open>Facts about the arithmetic\<close>

lemma round53_small: "n < 9007199254740992 \<Longrightarrow> round53 n = n"
  by (simp add: round53_def sig_shift.simps)

lemma f64_of_int_exact: "\<bar>x\<bar> < 9007199254740992 \<Longrightarrow> f64_of_int x = Fin x"
  by (simp add: f64_of_int_def round53_small nat_less_iff)

text \<open>The unbounded formula of the documentation, \<open>BaseDelay * 2^(retryCount-1)\<close>.\<close>

definition exp_delay :: "int \<Rightarrow> int \<Rightarrow> int" where
  "exp_delay BaseDelay retryCount = BaseDelay * 2 ^ nat (clamp_count retryCount - 1)"

definition exp_spec :: "int \<Rightarrow> int \<Rightarrow> int \<Rightarrow> int" where
  "exp_spec BaseDelay MaxDelay retryCount =
     (if MaxDelay > 0 then min MaxDelay (exp_delay BaseDelay retryCount)
      else exp_delay BaseDelay retryCount)"

lemma clamp_count_ge1: "1 \<le> clamp_count n"
  by (simp add: clamp_count_def)

text \<open>A finite 64-bit product has an exponent below 64, so \<open>Pow\<close> is finite too.\<close>

lemma exp_delay_exponent:
  assumes "0 < b" and "exp_delay b n \<le> int64_max"
  shows "clamp_count n - 1 < 63"
proof (rule ccontr)
  assume "\<not> clamp_count n - 1 < 63"
  then have "63 \<le> nat (clamp_count n - 1)" by simp
  then have "(2::int) ^ 63 \<le> 2 ^ nat (clamp_count n - 1)"
    by (rule power_increasing) simp
  also have "\<dots> \<le> b * 2 ^ nat (clamp_count n - 1)"
    using assms(1) by simp
  finally show False using assms(2) by (simp add: exp_delay_def)
qed

lemma f64_mult_int64: "in_int64 (a * b) \<Longrightarrow> f64_mult (Fin a) (Fin b) = Fin (a * b)"
  by (auto simp: in_int64_def)

lemma exp_product_fits:
  assumes "0 < b" "b < 9007199254740992" "exp_delay b n \<le> int64_max"
  shows "int64_of_f64 conv (f64_mult (f64_of_int b) (pow2_f64 (clamp_count n - 1))) = exp_delay b n"
proof -
  have "0 \<le> exp_delay b n" using assms(1) by (simp add: exp_delay_def)
  then have fits: "in_int64 (exp_delay b n)" using assms(3) by (simp add: in_int64_def)
  have "clamp_count n - 1 < 1024" using exp_delay_exponent [OF assms(1,3)] by simp
  then have "f64_mult (f64_of_int b) (pow2_f64 (clamp_count n - 1)) = Fin (exp_delay b n)"
    using assms fits
    by (simp add: f64_of_int_exact pow2_f64_def f64_mult_int64 exp_delay_def del: f64_mult.simps)
  with fits show ?thesis by (simp add: int64_of_f64_def)
qed

lemma Next_exponential_exact:
  assumes "0 < b" "b < 9007199254740992" "exp_delay b n \<le> int64_max"
  shows "Next conv (ExponentialBackoff b m) n = exp_spec b m n"
  using exp_product_fits [of b n conv] assms by (auto simp: exp_spec_def Let_def)

lemma exp_delay_overflow:
  assumes "0 < b" "b < 9007199254740992" "int64_max < exp_delay b n"
  shows "int64_of_f64 conv (f64_mult (f64_of_int b) (pow2_f64 (clamp_count n - 1)))
    = conv (f64_mult (f64_of_int b) (pow2_f64 (clamp_count n - 1)))"
  using assms
  by (auto simp: f64_of_int_exact pow2_f64_def int64_of_f64_def in_int64_def exp_delay_def
      split: f64.split if_splits)

section \<open>What the retry path needs of a strategy\<close>

text \<open>
  The retry path adds the delay to the current time, so it wants delays that are never negative
  and never shrink as the count grows, for the counts up to \<open>bound\<close> that can occur.
\<close>

locale growing_backoff =
  fixes nxt :: "int \<Rightarrow> int" and bound :: int
  assumes nxt_one: "0 \<le> nxt 1"
    and nxt_step: "1 \<le> n \<Longrightarrow> n < bound \<Longrightarrow> nxt n \<le> nxt (n + 1)"
begin

lemma nxt_mono:
  assumes "1 \<le> n" "n \<le> m" "m \<le> bound"
  shows "nxt n \<le> nxt m"
proof -
  have "n + int k \<le> bound \<Longrightarrow> nxt n \<le> nxt (n + int k)" for k
  proof (induction k)
    case 0
    then show ?case by simp
  next
    case (Suc k)
    then have "nxt n \<le> nxt (n + int k)" by simp
    also have "\<dots> \<le> nxt (n + int k + 1)" using Suc.prems assms(1) by (intro nxt_step) auto
    finally show ?case by (simp add: algebra_simps)
  qed
  from this [of "nat (m - n)"] assms show ?thesis by simp
qed

lemma nxt_nonneg: "1 \<le> n \<Longrightarrow> n \<le> bound \<Longrightarrow> 0 \<le> nxt n"
  using nxt_one nxt_mono [of 1 n] by simp

end

text \<open>
  The default strategy \<open>LinearBackoff{BaseDelay: time.Second}\<close> grows without wrapping for every
  count an \<open>INT\<close> column can hold.
\<close>

lemma Next_default_linear:
  assumes "1 \<le> n" "n \<le> int32_max"
  shows "Next conv (LinearBackoff Second) n = Second * n"
  using assms by (simp add: clamp_count_def in_int64_def)

interpretation default_linear: growing_backoff "Next conv (LinearBackoff Second)" int32_max for conv
proof unfold_locales
  show "0 \<le> Next conv (LinearBackoff Second) 1"
    by (simp only: Next_default_linear)
next
  fix n :: int
  assume "1 \<le> n" "n < int32_max"
  then show "Next conv (LinearBackoff Second) n \<le> Next conv (LinearBackoff Second) (n + 1)"
    by (simp only: Next_default_linear) simp
qed

text \<open>
  The exponential strategy of the README, one second doubling up to five minutes, grows up to
  count 34; the next product no longer fits 64 bits.
\<close>

lemma exp_delay_readme:
  assumes "1 \<le> n" "n \<le> 34"
  shows "exp_delay Second n \<le> int64_max"
proof -
  have "nat (n - 1) \<le> 33" using assms by simp
  then have "(2::int) ^ nat (n - 1) \<le> 2 ^ 33" by (rule power_increasing) simp
  then show ?thesis using assms by (simp add: exp_delay_def clamp_count_def)
qed

interpretation readme_exponential:
  growing_backoff "Next conv (ExponentialBackoff Second (5 * Minute))" 34 for conv
proof unfold_locales
  show "0 \<le> Next conv (ExponentialBackoff Second (5 * Minute)) 1"
    using exp_delay_readme [of 1]
    by (subst Next_exponential_exact) (auto simp: exp_spec_def exp_delay_def)
next
  fix n :: int
  assume n: "1 \<le> n" "n < 34"
  have "nat n = Suc (nat (n - 1))" using n by simp
  then have "exp_delay Second (n + 1) = 2 * exp_delay Second n"
    using n by (simp add: exp_delay_def clamp_count_def)
  moreover have "0 \<le> exp_delay Second n" by (simp add: exp_delay_def)
  ultimately show "Next conv (ExponentialBackoff Second (5 * Minute)) n
      \<le> Next conv (ExponentialBackoff Second (5 * Minute)) (n + 1)"
    using n exp_delay_readme [of n] exp_delay_readme [of "n + 1"]
    by (simp only: Next_exponential_exact) (simp add: exp_spec_def)
qed


section \<open>Properties\<close>

text \<open>
  (C39) \<open>ExponentialBackoff\<close> in range: for a base delay below \<open>2^53\<close> ns and a product that fits 64 bits, the
  detour through floating point is exact. The delay is \<open>BaseDelay * 2^(retryCount - 1)\<close>, counts below
  one counting as one, and never more than \<open>MaxDelay\<close> when that is set.
\<close>

theorem exponential_exact:
  assumes "0 < b" and "b < 9007199254740992" and "b * 2 ^ nat (max 1 n - 1) \<le> int64_max"
  shows "Next conv (ExponentialBackoff b m) n
     = (if m > 0 then min m (b * 2 ^ nat (max 1 n - 1)) else b * 2 ^ nat (max 1 n - 1))"
proof -
  have "clamp_count n = max 1 n" by (simp add: clamp_count_def)
  then show ?thesis using assms Next_exponential_exact [of b n conv m] by (simp add: exp_spec_def exp_delay_def)
qed

theorem exponential_exact_witness:
  "Next (\<lambda>_. 0) (ExponentialBackoff Second (5 * Minute)) 4 = 8 * Second"
  using exponential_exact [of Second 4 "\<lambda>_. 0" "5 * Minute"] by simp

text \<open>
  (C40) Out of range: from retry 35 on, with the base of one second and the limit of five minutes of the
  documentation, the product does not fit 64 bits. On a platform whose conversion then yields the
  smallest integer (amd64), the delay is negative, not \<open>MaxDelay\<close>: the message is retried at once.
\<close>

theorem exponential_overflow_negative:
  assumes "35 \<le> n"
  shows "Next (\<lambda>_. int64_min) (ExponentialBackoff Second (5 * Minute)) n = int64_min
     \<and> Next (\<lambda>_. int64_min) (ExponentialBackoff Second (5 * Minute)) n < 0"
proof -
  have "34 \<le> nat (clamp_count n - 1)" using assms by (simp add: clamp_count_def)
  then have "(2::int) ^ 34 \<le> 2 ^ nat (clamp_count n - 1)" by (rule power_increasing) simp
  then have "int64_max < exp_delay Second n" by (simp add: exp_delay_def)
  then have "int64_of_f64 (\<lambda>_. int64_min) (f64_mult (f64_of_int Second) (pow2_f64 (clamp_count n - 1))) = int64_min"
    by (subst exp_delay_overflow) simp_all
  then show ?thesis by (simp del: f64_mult.simps)
qed

theorem exponential_overflow_negative_witness:
  "Next (\<lambda>_. int64_min) (ExponentialBackoff Second (5 * Minute)) 35 < 0"
  using exponential_overflow_negative [of 35] by simp

text \<open>
  The default strategy never wraps: for every retry count that an \<open>INT\<close> column can hold the delay is
  that many seconds, so it is positive and grows with the count.
\<close>

theorem default_backoff_grows:
  assumes "1 \<le> n" and "n \<le> k" and "k \<le> int32_max"
  shows "Next conv (LinearBackoff Second) n = n * Second
     \<and> 0 \<le> Next conv (LinearBackoff Second) n
     \<and> Next conv (LinearBackoff Second) n \<le> Next conv (LinearBackoff Second) k"
proof -
  have n: "n \<le> int32_max" using assms by simp
  then show ?thesis
    using Next_default_linear [OF assms(1) n] default_linear.nxt_nonneg [OF assms(1) n] default_linear.nxt_mono [OF assms]
    by (simp only: mult.commute)
qed

theorem default_backoff_grows_witness:
  "Next (\<lambda>_. 0) (LinearBackoff Second) 3 = 3 * Second
     \<and> Next (\<lambda>_. 0) (LinearBackoff Second) 3 \<le> Next (\<lambda>_. 0) (LinearBackoff Second) 2000000000"
  using default_backoff_grows [of 3 2000000000 "\<lambda>_. 0"] by simp

end
