(* ===== verification/Codec.thy ===== *)
theory Codec
  imports Support
begin

text \<open>
  The interface every encoder/decoder pair of the program offers (a locale with its round-trip
  law, and the composition of two codecs), UTF-8 as \<open>unicode/utf8\<close> reads it, and the standard
  base64 encoding that \<^verbatim>\<open>crypto.go\<close> uses to stamp ciphertext.
\<close>

section \<open>Codecs\<close>

locale codec =
  fixes ok :: "'a \<Rightarrow> bool" and enc :: "'a \<Rightarrow> 'b" and dec :: "'b \<Rightarrow> 'a option"
  assumes roundtrip: "ok x \<Longrightarrow> dec (enc x) = Some x"
begin

lemma enc_inj: "ok x \<Longrightarrow> ok y \<Longrightarrow> enc x = enc y \<longleftrightarrow> x = y"
  by (metis option.inject roundtrip)

lemma dec_not_None: "ok x \<Longrightarrow> dec (enc x) \<noteq> None"
  by (simp add: roundtrip)

end

text \<open>An inner codec whose output is always acceptable to an outer one gives a codec again.\<close>

locale codec_stack =
  inner: codec ok1 enc1 dec1 + outer: codec ok2 enc2 dec2
  for ok1 :: "'a \<Rightarrow> bool" and enc1 :: "'a \<Rightarrow> 'b" and dec1 :: "'b \<Rightarrow> 'a option"
    and ok2 :: "'b \<Rightarrow> bool" and enc2 :: "'b \<Rightarrow> 'c" and dec2 :: "'c \<Rightarrow> 'b option" +
  assumes fits: "ok1 x \<Longrightarrow> ok2 (enc1 x)"

sublocale codec_stack \<subseteq> stacked: codec ok1 "\<lambda>x. enc2 (enc1 x)" "\<lambda>y. Option.bind (dec2 y) dec1"
  by unfold_locales (simp add: outer.roundtrip inner.roundtrip fits)

section \<open>Bytes\<close>

abbreviation byte :: "char \<Rightarrow> nat" where "byte \<equiv> of_char"

lemma byte_bound [simp]: "byte c < 256"
  using of_char_of [of "byte c"] by (metis char_of_char mod_less_divisor of_char_of zero_less_numeral)

section \<open>UTF-8\<close>

definition cont_byte :: "char \<Rightarrow> bool" where
  "cont_byte c \<longleftrightarrow> 128 \<le> byte c \<and> byte c \<le> 191"

text \<open>
  The length of the well-formed sequence at the head of the input, as \<open>utf8.DecodeRune\<close>
  accepts it (no overlong forms, no surrogates, at most U+10FFFF); 0 when there is none.
\<close>

definition rune_size2 :: "nat \<Rightarrow> char \<Rightarrow> nat" where
  "rune_size2 a b = (if 194 \<le> a \<and> a \<le> 223 \<and> cont_byte b then 2 else 0)"

definition rune_size3 :: "nat \<Rightarrow> char \<Rightarrow> char \<Rightarrow> nat" where
  "rune_size3 a b c =
     (if cont_byte b \<and> cont_byte c \<and> 224 \<le> a \<and> a \<le> 239
         \<and> (a = 224 \<longrightarrow> 160 \<le> byte b) \<and> (a = 237 \<longrightarrow> byte b \<le> 159) then 3 else 0)"

definition rune_size4 :: "nat \<Rightarrow> char \<Rightarrow> char \<Rightarrow> char \<Rightarrow> nat" where
  "rune_size4 a b c d =
     (if cont_byte b \<and> cont_byte c \<and> cont_byte d \<and> 240 \<le> a \<and> a \<le> 244
         \<and> (a = 240 \<longrightarrow> 144 \<le> byte b) \<and> (a = 244 \<longrightarrow> byte b \<le> 143) then 4 else 0)"

fun rune_size :: "string \<Rightarrow> nat" where
  "rune_size [] = 0"
| "rune_size (a # s) =
     (if byte a < 128 then 1
      else if byte a < 224 then (case s of b # _ \<Rightarrow> rune_size2 (byte a) b | _ \<Rightarrow> 0)
      else if byte a < 240 then (case s of b # c # _ \<Rightarrow> rune_size3 (byte a) b c | _ \<Rightarrow> 0)
      else (case s of b # c # d # _ \<Rightarrow> rune_size4 (byte a) b c d | _ \<Rightarrow> 0))"

function utf8_valid :: "string \<Rightarrow> bool" where
  "utf8_valid [] = True"
| "utf8_valid (c # cs) =
     (0 < rune_size (c # cs) \<and> utf8_valid (drop (rune_size (c # cs) - 1) cs))"
  by pat_completeness auto
termination
  by (relation "measure length") auto

declare rune_size.simps [simp del]

lemma rune_size_Nil [simp]: "rune_size [] = 0"
  by (simp add: rune_size.simps)

lemmas rune_size_defs = rune_size.simps rune_size2_def rune_size3_def rune_size4_def

lemma rune_size_le: "rune_size s \<le> length s"
  by (cases s) (auto simp: rune_size_defs split: list.split)

lemma rune_size_append:
  "0 < rune_size s \<Longrightarrow> rune_size (s @ t) = rune_size s"
  by (cases s) (auto simp: rune_size_defs split: list.splits if_splits)

lemma rune_size_take:
  assumes "0 < rune_size s"
  shows "rune_size (take (rune_size s) s @ t) = rune_size s"
  using assms
  by (cases s) (auto simp: rune_size_defs split: list.splits if_splits)

lemma rune_size_ascii [simp]: "byte c < 128 \<Longrightarrow> rune_size (c # s) = 1"
  by (simp add: rune_size.simps)

lemma utf8_valid_ascii: "list_all (\<lambda>c. byte c < 128) s \<Longrightarrow> utf8_valid s"
  by (induction s) auto

lemma utf8_valid_rune: "s \<noteq> [] \<Longrightarrow> utf8_valid s \<longleftrightarrow> 0 < rune_size s \<and> utf8_valid (drop (rune_size s) s)"
  by (cases s) (auto simp: drop_Cons split: nat.splits)

lemma utf8_valid_ascii_append:
  "list_all (\<lambda>c. byte c < 128) s \<Longrightarrow> utf8_valid (s @ t) \<longleftrightarrow> utf8_valid t"
  by (induction s) auto

text \<open>
  Truncation counts bytes, not characters. A text of 7-bit bytes stays valid, but one whose
  byte 1000 opens a longer sequence is cut inside it, and what remains is no longer UTF-8.
\<close>

lemma truncateError_ascii:
  "list_all (\<lambda>c. byte c < 128) s \<Longrightarrow> utf8_valid (truncateError s)"
  by (rule utf8_valid_ascii) (auto simp: truncateError_take list_all_iff dest: in_set_takeD)

lemma truncateError_splits_rune:
  fixes p t :: string
  assumes ascii: "list_all (\<lambda>c. byte c < 128) p" and len: "length p = 999"
    and rune: "utf8_valid (a # b # t)" "128 \<le> byte a"
  shows "utf8_valid (p @ a # b # t) \<and> \<not> utf8_valid (truncateError (p @ a # b # t))"
proof -
  have "truncateError (p @ a # b # t) = p @ [a]" by (simp add: truncateError_take len)
  moreover have "\<not> utf8_valid [a]" using rune(2) by (simp add: rune_size_defs)
  ultimately show ?thesis using rune(1) by (simp add: utf8_valid_ascii_append [OF ascii] del: utf8_valid.simps)
qed

theorem truncateError_breaks_utf8:
  "\<exists>s. utf8_valid s \<and> \<not> utf8_valid (truncateError s)"
proof -
  have "utf8_valid [char_of (195 :: nat), char_of (169 :: nat)]"
    by (simp add: rune_size_defs cont_byte_def)
  then show ?thesis
    using truncateError_splits_rune [of "replicate 999 (CHR ''x'')" "char_of (195 :: nat)" "char_of (169 :: nat)" "[]"]
    by (auto simp: list_all_iff)
qed

section \<open>Base64\<close>

text \<open>The alphabet of \<open>base64.StdEncoding\<close> and its inverse.\<close>

definition b64_char :: "nat \<Rightarrow> char" where
  "b64_char n =
     (if n < 26 then char_of (65 + n) else if n < 52 then char_of (71 + n)
      else if n < 62 then char_of (n - 4) else if n = 62 then CHR ''+'' else CHR ''/'')"

definition b64_value :: "char \<Rightarrow> nat option" where
  "b64_value c =
     (let b = byte c in
      if 65 \<le> b \<and> b \<le> 90 then Some (b - 65)
      else if 97 \<le> b \<and> b \<le> 122 then Some (b - 71)
      else if 48 \<le> b \<and> b \<le> 57 then Some (b + 4)
      else if b = 43 then Some 62 else if b = 47 then Some 63 else None)"

text \<open>\<open>EncodeToString\<close>: three bytes to four characters, the last group padded with \<open>=\<close>.\<close>

fun b64_encode :: "string \<Rightarrow> string" where
  "b64_encode [] = []"
| "b64_encode [a] =
     [b64_char (byte a div 4), b64_char (byte a mod 4 * 16), CHR ''='', CHR ''='']"
| "b64_encode [a, b] =
     [b64_char (byte a div 4), b64_char (byte a mod 4 * 16 + byte b div 16),
      b64_char (byte b mod 16 * 4), CHR ''='']"
| "b64_encode (a # b # c # r) =
     b64_char (byte a div 4) # b64_char (byte a mod 4 * 16 + byte b div 16)
     # b64_char (byte b mod 16 * 4 + byte c div 64) # b64_char (byte c mod 64) # b64_encode r"

text \<open>
  \<open>DecodeString\<close>: groups of four characters; padding only in the last group; the unused low
  bits of a padded group are ignored (the decoder is not strict).
\<close>

definition b64_byte1 :: "nat \<Rightarrow> nat \<Rightarrow> char" where
  "b64_byte1 x y = char_of (x * 4 + y div 16)"

definition b64_byte2 :: "nat \<Rightarrow> nat \<Rightarrow> char" where
  "b64_byte2 y z = char_of (y mod 16 * 16 + z div 4)"

definition b64_byte3 :: "nat \<Rightarrow> nat \<Rightarrow> char" where
  "b64_byte3 z u = char_of (z mod 4 * 64 + u)"

fun b64_groups :: "string \<Rightarrow> string option" where
  "b64_groups [] = Some []"
| "b64_groups (a # b # c # d # r) =
     (case (b64_value a, b64_value b) of
        (Some x, Some y) \<Rightarrow>
          if c = CHR ''='' then
            (if d = CHR ''='' \<and> r = [] then Some [b64_byte1 x y] else None)
          else (case b64_value c of
                  None \<Rightarrow> None
                | Some z \<Rightarrow>
                    if d = CHR ''='' then
                      (if r = [] then Some [b64_byte1 x y, b64_byte2 y z] else None)
                    else (case b64_value d of
                            None \<Rightarrow> None
                          | Some u \<Rightarrow> map_option
                              (\<lambda>t. b64_byte1 x y # b64_byte2 y z # b64_byte3 z u # t) (b64_groups r)))
      | _ \<Rightarrow> None)"
| "b64_groups _ = None"

text \<open>Line breaks anywhere in the input are skipped.\<close>

definition b64_decode :: "string \<Rightarrow> string option" where
  "b64_decode s = b64_groups (filter (\<lambda>c. byte c \<noteq> 10 \<and> byte c \<noteq> 13) s)"

lemma b64_value_char [simp]: "n < 64 \<Longrightarrow> b64_value (b64_char n) = Some n"
  by (auto simp: b64_value_def b64_char_def Let_def)

lemma b64_char_byte:
  "n < 64 \<Longrightarrow> byte (b64_char n) \<in> {43, 47} \<union> {48..57} \<union> {65..90} \<union> {97..122}"
  by (auto simp: b64_char_def)

lemma b64_char_neq_pad [simp]: "n < 64 \<Longrightarrow> b64_char n \<noteq> CHR ''=''"
  using b64_char_byte [of n] by auto

text \<open>Every character of an encoding is printable ASCII without quotes or backslashes.\<close>

definition b64_plain :: "char \<Rightarrow> bool" where
  "b64_plain c \<longleftrightarrow> byte c \<in> {43, 47, 61} \<union> {48..57} \<union> {65..90} \<union> {97..122}"

lemma b64_plain_char: "n < 64 \<Longrightarrow> b64_plain (b64_char n)"
  using b64_char_byte [of n] by (auto simp: b64_plain_def)

lemma b64_six_bits [simp]:
  "byte a div 4 < 64" "byte a mod 4 * 16 < 64" "byte a mod 4 * 16 + byte b div 16 < 64"
  "byte b mod 16 * 4 < 64" "byte b mod 16 * 4 + byte c div 64 < 64" "byte c mod 64 < 64"
  using byte_bound [of a] byte_bound [of b] byte_bound [of c] by linarith+

lemma b64_encode_plain: "list_all b64_plain (b64_encode s)"
  by (induction s rule: b64_encode.induct) (auto intro: b64_plain_char simp: b64_plain_def [of "CHR ''=''"])

lemma b64_bytes [simp]:
  "b64_byte1 (byte a div 4) (byte a mod 4 * 16) = a"
  "b64_byte1 (byte a div 4) (byte a mod 4 * 16 + byte b div 16) = a"
  "b64_byte2 (byte a mod 4 * 16 + byte b div 16) (byte b mod 16 * 4) = b"
  "b64_byte2 (byte a mod 4 * 16 + byte b div 16) (byte b mod 16 * 4 + byte c div 64) = b"
  "b64_byte3 (byte b mod 16 * 4 + byte c div 64) (byte c mod 64) = c"
proof -
  have "byte a div 4 * 4 + byte a mod 4 = byte a" by simp
  moreover have "byte b div 16 < 16" "byte c div 64 < 4"
    using byte_bound [of b] byte_bound [of c] by linarith+
  ultimately have
    "byte a div 4 * 4 + byte a mod 4 * 16 div 16 = byte a"
    "byte a div 4 * 4 + (byte a mod 4 * 16 + byte b div 16) div 16 = byte a"
    "(byte a mod 4 * 16 + byte b div 16) mod 16 * 16 + byte b mod 16 * 4 div 4 = byte b"
    "(byte a mod 4 * 16 + byte b div 16) mod 16 * 16 + (byte b mod 16 * 4 + byte c div 64) div 4 = byte b"
    "(byte b mod 16 * 4 + byte c div 64) mod 4 * 64 + byte c mod 64 = byte c"
    by (simp_all add: div_add1_eq mod_add_eq)
  then show
    "b64_byte1 (byte a div 4) (byte a mod 4 * 16) = a"
    "b64_byte1 (byte a div 4) (byte a mod 4 * 16 + byte b div 16) = a"
    "b64_byte2 (byte a mod 4 * 16 + byte b div 16) (byte b mod 16 * 4) = b"
    "b64_byte2 (byte a mod 4 * 16 + byte b div 16) (byte b mod 16 * 4 + byte c div 64) = b"
    "b64_byte3 (byte b mod 16 * 4 + byte c div 64) (byte c mod 64) = c"
    by (simp_all add: b64_byte1_def b64_byte2_def b64_byte3_def)
qed

lemma b64_groups_encode: "b64_groups (b64_encode s) = Some s"
  by (induction s rule: b64_encode.induct) simp_all

lemma b64_decode_encode: "b64_decode (b64_encode s) = Some s"
proof -
  have "filter (\<lambda>c. byte c \<noteq> 10 \<and> byte c \<noteq> 13) (b64_encode s) = b64_encode s"
    using b64_encode_plain [of s] by (auto simp: filter_id_conv list_all_iff b64_plain_def)
  then show ?thesis by (simp add: b64_decode_def b64_groups_encode)
qed

interpretation base64: codec "\<lambda>_. True" b64_encode b64_decode
  by unfold_locales (rule b64_decode_encode)

end
