(* ===== verification/Json.thy ===== *)
theory Json
  imports Codec "HOL-Library.List_Lexorder" "HOL-Library.AList"
begin

text \<open>
  The part of \<open>encoding/json\<close> the program calls: \<open>Marshal\<close> of a string and of a
  \<open>map[string]string\<close>, and \<open>Unmarshal\<close> into a string and into a \<open>map[string]string\<close>. The decoder
  reads any JSON text, so the parser covers the whole grammar.
\<close>

section \<open>Characters\<close>

abbreviation dquote :: char where "dquote \<equiv> CHR 0x22"
abbreviation bslash :: char where "bslash \<equiv> CHR 0x5C"

definition hex_digit :: "nat \<Rightarrow> char" where
  "hex_digit n = (if n < 10 then char_of (48 + n) else char_of (87 + n))"

definition hex_value :: "char \<Rightarrow> nat option" where
  "hex_value c =
     (let b = byte c in
      if 48 \<le> b \<and> b \<le> 57 then Some (b - 48)
      else if 97 \<le> b \<and> b \<le> 102 then Some (b - 87)
      else if 65 \<le> b \<and> b \<le> 70 then Some (b - 55) else None)"

lemma hex_value_digit [simp]: "n < 16 \<Longrightarrow> hex_value (hex_digit n) = Some n"
  by (auto simp: hex_value_def hex_digit_def Let_def)

section \<open>Encoding strings\<close>

text \<open>ASCII bytes the encoder copies: printable, and not special to JSON or HTML.\<close>

definition json_safe :: "char \<Rightarrow> bool" where
  "json_safe c \<longleftrightarrow> 32 \<le> byte c \<and> byte c < 128 \<and> byte c \<notin> {34, 38, 60, 62, 92}"

definition esc_ascii :: "char \<Rightarrow> string" where
  "esc_ascii c =
     (let b = byte c in
      if b = 34 \<or> b = 92 then [bslash, c]
      else if b = 8 then [bslash, CHR ''b''] else if b = 12 then [bslash, CHR ''f'']
      else if b = 10 then [bslash, CHR ''n''] else if b = 13 then [bslash, CHR ''r'']
      else if b = 9 then [bslash, CHR ''t'']
      else [bslash, CHR ''u'', CHR ''0'', CHR ''0'', hex_digit (b div 16), hex_digit (b mod 16)])"

definition line_sep :: string where
  "line_sep = [CHR 0xE2, CHR 0x80, CHR 0xA8]"

definition par_sep :: string where
  "par_sep = [CHR 0xE2, CHR 0x80, CHR 0xA9]"

text \<open>One step of the encoder: the text it appends and how many input bytes it consumes.\<close>

definition enc_step :: "string \<Rightarrow> string \<times> nat" where
  "enc_step s =
     (let c = hd s; n = rune_size s in
      if byte c < 128 then (if json_safe c then [c] else esc_ascii c, 1)
      else if n = 0 then (bslash # ''ufffd'', 1)
      else if take 3 s = line_sep then (bslash # ''u2028'', 3)
      else if take 3 s = par_sep then (bslash # ''u2029'', 3)
      else (take n s, n))"

function json_escape :: "string \<Rightarrow> string" where
  "json_escape [] = []"
| "json_escape (c # cs) =
     (let (out, n) = enc_step (c # cs) in out @ json_escape (drop (n - 1) cs))"
  by pat_completeness auto
termination
  by (relation "measure length") auto

definition json_marshal_string :: "string \<Rightarrow> string" where
  "json_marshal_string s = dquote # json_escape s @ [dquote]"

section \<open>Decoding strings\<close>

text \<open>UTF-8 encoding of a code point, as \<open>utf8.EncodeRune\<close> writes it.\<close>

definition utf8_enc :: "nat \<Rightarrow> string" where
  "utf8_enc r =
     (if r < 128 then [char_of r]
      else if r < 2048 then [char_of (192 + r div 64), char_of (128 + r mod 64)]
      else if r < 65536 then
        [char_of (224 + r div 4096), char_of (128 + r div 64 mod 64), char_of (128 + r mod 64)]
      else
        [char_of (240 + r div 262144), char_of (128 + r div 4096 mod 64),
         char_of (128 + r div 64 mod 64), char_of (128 + r mod 64)])"

abbreviation replacement :: string where
  "replacement \<equiv> [CHR 0xEF, CHR 0xBF, CHR 0xBD]"

text \<open>\<open>getu4\<close>: the value of a \<^verbatim>\<open>\u\<close> escape at the head of the input.\<close>

fun getu4 :: "string \<Rightarrow> nat option" where
  "getu4 (a # u # h1 # h2 # h3 # h4 # r) =
     (if a = bslash \<and> u = CHR ''u'' then
        (case (hex_value h1, hex_value h2, hex_value h3, hex_value h4) of
           (Some x, Some y, Some z, Some w) \<Rightarrow> Some (((x * 16 + y) * 16 + z) * 16 + w)
         | _ \<Rightarrow> None)
      else None)"
| "getu4 _ = None"

definition u_escape :: "string \<Rightarrow> (string \<times> nat) option" where
  "u_escape s =
     (case getu4 s of
        None \<Rightarrow> None
      | Some r \<Rightarrow>
          if r < 55296 \<or> 57344 \<le> r then Some (utf8_enc r, 6)
          else (case getu4 (drop 6 s) of
                  None \<Rightarrow> Some (replacement, 6)
                | Some r1 \<Rightarrow>
                    if r < 56320 \<and> 56320 \<le> r1 \<and> r1 < 57344
                    then Some (utf8_enc ((r - 55296) * 1024 + (r1 - 56320) + 65536), 12)
                    else Some (replacement, 6)))"

definition esc_step :: "string \<Rightarrow> (string \<times> nat) option" where
  "esc_step s =
     (case s of
        a # e # _ \<Rightarrow>
          (if byte e = 34 \<or> byte e = 92 \<or> byte e = 47 then Some ([e], 2)
           else if e = CHR ''b'' then Some ([char_of (8::nat)], 2)
           else if e = CHR ''f'' then Some ([char_of (12::nat)], 2)
           else if e = CHR ''n'' then Some ([char_of (10::nat)], 2)
           else if e = CHR ''r'' then Some ([char_of (13::nat)], 2)
           else if e = CHR ''t'' then Some ([char_of (9::nat)], 2)
           else if e = CHR ''u'' then u_escape s
           else None)
      | _ \<Rightarrow> None)"

text \<open>
  One step of the decoder inside a string literal: the bytes it appends and how many input bytes
  it consumes; \<open>None\<close> is a syntax error.
\<close>

definition str_step :: "string \<Rightarrow> (string \<times> nat) option" where
  "str_step s =
     (let c = hd s; n = rune_size s in
      if byte c < 32 then None
      else if c = bslash then esc_step s
      else if byte c < 128 then Some ([c], 1)
      else if n = 0 then Some (replacement, 1)
      else Some (take n s, n))"

text \<open>The rest of a string literal after its opening quote.\<close>

function scan_str :: "string \<Rightarrow> (string \<times> string) option" where
  "scan_str [] = None"
| "scan_str (c # cs) =
     (if c = dquote then Some ([], cs)
      else (case str_step (c # cs) of
              None \<Rightarrow> None
            | Some (out, n) \<Rightarrow>
                map_option (\<lambda>(t, r). (out @ t, r)) (scan_str (drop (n - 1) cs))))"
  by pat_completeness auto
termination
  by (relation "measure length") auto

section \<open>The parser\<close>

datatype json = JNull | JBool bool | JNum | JStr string | JArr "json list"
  | JObj "(string \<times> json) list"

definition is_ws :: "char \<Rightarrow> bool" where
  "is_ws c \<longleftrightarrow> byte c \<in> {32, 9, 10, 13}"

definition skip_ws :: "string \<Rightarrow> string" where
  "skip_ws s = dropWhile is_ws s"

text \<open>Numbers are only checked: no target of the program takes one.\<close>

definition skip_int :: "string \<Rightarrow> string option" where
  "skip_int s =
     (case s of [] \<Rightarrow> None
      | c # r \<Rightarrow> if c = CHR ''0'' then Some r
               else if is_digit c then Some (dropWhile is_digit r) else None)"

definition skip_digits1 :: "string \<Rightarrow> string option" where
  "skip_digits1 s =
     (case s of c # r \<Rightarrow> if is_digit c then Some (dropWhile is_digit r) else None | [] \<Rightarrow> None)"

definition skip_frac :: "string \<Rightarrow> string option" where
  "skip_frac s =
     (case s of c # r \<Rightarrow> if c = CHR ''.'' then skip_digits1 r else Some s | [] \<Rightarrow> Some s)"

definition skip_exp :: "string \<Rightarrow> string option" where
  "skip_exp s =
     (case s of
        c # r \<Rightarrow>
          if c = CHR ''e'' \<or> c = CHR ''E'' then
            (case r of
               d # q \<Rightarrow> if d = CHR ''+'' \<or> d = CHR ''-'' then skip_digits1 q else skip_digits1 r
             | [] \<Rightarrow> None)
          else Some s
      | [] \<Rightarrow> Some s)"

definition skip_number :: "string \<Rightarrow> string option" where
  "skip_number s =
     (let s1 = (case s of c # r \<Rightarrow> if c = CHR ''-'' then r else s | [] \<Rightarrow> s) in
      Option.bind (Option.bind (skip_int s1) skip_frac) skip_exp)"

definition literal_or_number :: "string \<Rightarrow> (json \<times> string) option" where
  "literal_or_number s =
     (if take 4 s = ''null'' then Some (JNull, drop 4 s)
      else if take 4 s = ''true'' then Some (JBool True, drop 4 s)
      else if take 5 s = ''false'' then Some (JBool False, drop 5 s)
      else map_option (Pair JNum) (skip_number s))"

text \<open>
  \<open>parse_value f d\<close>: \<open>f\<close> is fuel (one unit per nested call, twice the input length is enough, see
  \<open>json_parse_fuel\<close>), \<open>d\<close> is how many more levels of nesting the decoder accepts.
\<close>

fun parse_value :: "nat \<Rightarrow> nat \<Rightarrow> string \<Rightarrow> (json \<times> string) option"
  and parse_elems :: "nat \<Rightarrow> nat \<Rightarrow> string \<Rightarrow> (json list \<times> string) option"
  and parse_members :: "nat \<Rightarrow> nat \<Rightarrow> string \<Rightarrow> ((string \<times> json) list \<times> string) option" where
  "parse_value 0 d s = None"
| "parse_value (Suc f) d s =
     (case skip_ws s of
        [] \<Rightarrow> None
      | c # r \<Rightarrow>
          if c = dquote then map_option (\<lambda>(t, q). (JStr t, q)) (scan_str r)
          else if c = CHR ''{'' then
            (if d = 0 then None
             else (case skip_ws r of
                     [] \<Rightarrow> None
                   | e # q \<Rightarrow>
                       if e = CHR ''}'' then Some (JObj [], q)
                       else map_option (\<lambda>(ms, q). (JObj ms, q)) (parse_members f (d - 1) r)))
          else if c = CHR ''['' then
            (if d = 0 then None
             else (case skip_ws r of
                     [] \<Rightarrow> None
                   | e # q \<Rightarrow>
                       if e = CHR '']'' then Some (JArr [], q)
                       else map_option (\<lambda>(vs, q). (JArr vs, q)) (parse_elems f (d - 1) r)))
          else literal_or_number (c # r))"
| "parse_elems 0 d s = None"
| "parse_elems (Suc f) d s =
     (case parse_value f d s of
        None \<Rightarrow> None
      | Some (v, r) \<Rightarrow>
          (case skip_ws r of
             [] \<Rightarrow> None
           | c # q \<Rightarrow>
               if c = CHR '','' then map_option (\<lambda>(vs, q). (v # vs, q)) (parse_elems f d q)
               else if c = CHR '']'' then Some ([v], q) else None))"
| "parse_members 0 d s = None"
| "parse_members (Suc f) d s =
     (case skip_ws s of
        [] \<Rightarrow> None
      | a # r \<Rightarrow>
          if a \<noteq> dquote then None
          else (case scan_str r of
                  None \<Rightarrow> None
                | Some (k, r1) \<Rightarrow>
                    (case skip_ws r1 of
                       [] \<Rightarrow> None
                     | b # r2 \<Rightarrow>
                         if b \<noteq> CHR '':'' then None
                         else (case parse_value f d r2 of
                                 None \<Rightarrow> None
                               | Some (v, r3) \<Rightarrow>
                                   (case skip_ws r3 of
                                      [] \<Rightarrow> None
                                    | c # q \<Rightarrow>
                                        if c = CHR '','' then
                                          map_option (\<lambda>(ms, q). ((k, v) # ms, q)) (parse_members f d q)
                                        else if c = CHR ''}'' then Some ([(k, v)], q) else None)))))"

text \<open>A whole document: one value and nothing but white space after it, nested at most 10000 deep.\<close>

definition json_parse :: "string \<Rightarrow> json option" where
  "json_parse s =
     (case parse_value (Suc (2 * length s)) 10000 s of
        None \<Rightarrow> None
      | Some (v, r) \<Rightarrow> if skip_ws r = [] then Some v else None)"

section \<open>Unmarshal and Marshal\<close>

text \<open>Into a string variable that holds the empty string; \<open>null\<close> leaves it.\<close>

definition json_unmarshal_string :: "string \<Rightarrow> string option" where
  "json_unmarshal_string s =
     (case json_parse s of Some (JStr t) \<Rightarrow> Some t | Some JNull \<Rightarrow> Some [] | _ \<Rightarrow> None)"

text \<open>A \<open>map[string]string\<close>: \<open>None\<close> is the nil map, the list has one entry per key.\<close>

type_synonym headers = "(string \<times> string) list option"

text \<open>
  Into a map variable: the new value and whether the call succeeded. A value that is not a string
  is recorded as an error, its key is still set to the empty string, and decoding goes on.
\<close>

fun unmarshal_entry :: "string \<times> json \<Rightarrow> (string \<times> string) list \<times> bool \<Rightarrow> (string \<times> string) list \<times> bool" where
  "unmarshal_entry (k, JStr t) (m, good) = (AList.update k t m, good)"
| "unmarshal_entry (k, JNull) (m, good) = (AList.update k [] m, good)"
| "unmarshal_entry (k, _) (m, good) = (AList.update k [] m, False)"

definition json_unmarshal_headers :: "string \<Rightarrow> headers \<Rightarrow> headers \<times> bool" where
  "json_unmarshal_headers s cur =
     (case json_parse s of
        None \<Rightarrow> (cur, False)
      | Some JNull \<Rightarrow> (None, True)
      | Some (JObj ms) \<Rightarrow>
          (let (m, good) = fold unmarshal_entry ms (case cur of None \<Rightarrow> [] | Some m \<Rightarrow> m, True)
           in (Some m, good))
      | Some _ \<Rightarrow> (cur, False))"

definition json_member :: "string \<times> string \<Rightarrow> string" where
  "json_member p = json_marshal_string (fst p) @ CHR '':'' # json_marshal_string (snd p)"

fun json_members :: "(string \<times> string) list \<Rightarrow> string" where
  "json_members [] = []"
| "json_members [p] = json_member p"
| "json_members (p # q # ps) = json_member p @ CHR '','' # json_members (q # ps)"

text \<open>The encoder writes the entries in the order of their keys.\<close>

definition json_marshal_headers :: "headers \<Rightarrow> string" where
  "json_marshal_headers h =
     (case h of
        None \<Rightarrow> ''null''
      | Some m \<Rightarrow> CHR ''{'' # json_members (sort_key fst m) @ [CHR ''}''])"

section \<open>Decoding what the encoder wrote\<close>


lemma take_Cons_drop_pred: "0 < n \<Longrightarrow> take n (c # cs) @ drop (n - 1) cs = c # cs"
  by (cases n) auto

lemma byte_charD: "byte c = n \<Longrightarrow> char_of n = c"
  by auto

lemma json_safe_plain: "json_safe c \<Longrightarrow> c \<noteq> dquote \<and> c \<noteq> bslash"
  by (auto simp: json_safe_def)

lemma getu4_byte:
  "getu4 (bslash # CHR ''u'' # CHR ''0'' # CHR ''0'' # hex_digit (byte c div 16)
      # hex_digit (byte c mod 16) # rest) = Some (byte c)"
proof -
  have "byte c div 16 < 16" "byte c mod 16 < 16" using byte_bound [of c] by linarith+
  moreover have "hex_value CHR ''0'' = Some 0" by (simp add: hex_value_def)
  ultimately show ?thesis by simp
qed

lemma esc_ascii_head: "esc_ascii c = bslash # tl (esc_ascii c)"
  by (simp add: esc_ascii_def Let_def)

lemma str_step_esc_ascii:
  assumes "byte c < 128"
  shows "str_step (esc_ascii c @ rest) = Some ([c], length (esc_ascii c))"
proof -
  consider "byte c = 34" | "byte c = 92" | "byte c = 8" | "byte c = 12" | "byte c = 10"
    | "byte c = 13" | "byte c = 9"
    | "esc_ascii c = [bslash, CHR ''u'', CHR ''0'', CHR ''0'',
         hex_digit (byte c div 16), hex_digit (byte c mod 16)]"
    unfolding esc_ascii_def Let_def by argo
  then show ?thesis
  proof cases
    case 8
    then show ?thesis
      using assms
      by (simp add: str_step_def esc_step_def u_escape_def getu4_byte utf8_enc_def del: getu4.simps)
  qed (simp_all add: esc_ascii_def str_step_def esc_step_def byte_charD)
qed

lemma str_step_separators:
  "str_step (bslash # ''u2028'' @ rest) = Some (line_sep, 6)"
  "str_step (bslash # ''u2029'' @ rest) = Some (par_sep, 6)"
  by (simp_all add: str_step_def esc_step_def u_escape_def hex_value_def utf8_enc_def
      line_sep_def par_sep_def Let_def byte_charD)

lemma str_step_enc_step:
  assumes "0 < rune_size s" and "enc_step s = (out, n)"
  shows "str_step (out @ rest) = Some (take n s, length out)"
    and "out \<noteq> []" and "hd out \<noteq> dquote" and "n = rune_size s"
proof -
  obtain c cs where s: "s = c # cs" using assms(1) by (cases s) auto
  then have hd_s: "hd s = c" by simp
  have "str_step (out @ rest) = Some (take n s, length out) \<and> out \<noteq> [] \<and> hd out \<noteq> dquote \<and> n = rune_size s"
  proof (cases "byte c < 128")
    case True
    then have r: "rune_size s = 1" by (simp add: s)
    show ?thesis
    proof (cases "json_safe c")
      case safe: True
      with True assms(2) have "out = [c]" "n = 1" by (simp_all add: enc_step_def s)
      with safe r json_safe_plain [of c] show ?thesis by (simp add: str_step_def s json_safe_def Let_def)
    next
      case False
      with True assms(2) have "out = esc_ascii c" "n = 1" by (simp_all add: enc_step_def s)
      with True r str_step_esc_ascii [of c rest] esc_ascii_head [of c] show ?thesis
        by (cases "esc_ascii c") (auto simp: s)
    qed
  next
    case False
    have "take 3 s \<noteq> line_sep \<Longrightarrow> take 3 s \<noteq> par_sep \<Longrightarrow> enc_step s = (take (rune_size s) s, rune_size s)"
      using False assms(1) hd_s by (simp add: enc_step_def Let_def)
    then consider "take 3 s = line_sep" | "take 3 s = par_sep"
      | "out = take (rune_size s) s" "n = rune_size s"
      using assms(2) by fastforce
    then show ?thesis
    proof cases
      case 1
      then obtain t where "s = line_sep @ t" by (metis append_take_drop_id)
      then have r: "rune_size s = 3" by (simp add: line_sep_def rune_size.simps rune_size3_def cont_byte_def)
      with 1 assms False hd_s have "out = bslash # ''u2028''" "n = 3"
        by (simp_all add: enc_step_def Let_def)
      with r 1 str_step_separators(1) [of rest] show ?thesis by simp
    next
      case 2
      then obtain t where "s = par_sep @ t" by (metis append_take_drop_id)
      then have r: "rune_size s = 3" by (simp add: par_sep_def rune_size.simps rune_size3_def cont_byte_def)
      have "par_sep \<noteq> line_sep" by (simp add: par_sep_def line_sep_def)
      with r 2 assms False hd_s have "out = bslash # ''u2029''" "n = 3"
        by (simp_all add: enc_step_def Let_def)
      with r 2 str_step_separators(2) [of rest] show ?thesis by simp
    next
      case 3
      have len: "length (take (rune_size s) s) = rune_size s"
        using rune_size_le [of s] by simp
      have hd: "hd (take (rune_size s) s @ rest) = c" "out \<noteq> []" "hd out = c"
        using assms(1) 3 by (cases "rune_size s"; simp add: s)+
      have "str_step (out @ rest) = Some (take n s, length out)"
        using False assms(1) rune_size_take [OF assms(1), of rest] hd len
        by (auto simp: 3 str_step_def Let_def)
      with 3 hd False show ?thesis by auto
    qed
  qed
  then show "str_step (out @ rest) = Some (take n s, length out)"
    and "out \<noteq> []" and "hd out \<noteq> dquote" and "n = rune_size s"
    by auto
qed

lemma scan_str_escape:
  "utf8_valid s \<Longrightarrow> scan_str (json_escape s @ dquote # r) = Some (s, r)"
proof (induction s rule: json_escape.induct)
  case 1
  then show ?case by simp
next
  case (2 c cs)
  obtain out n where st: "enc_step (c # cs) = (out, n)" by fastforce
  have pos: "0 < rune_size (c # cs)" and val: "utf8_valid (drop (rune_size (c # cs) - 1) cs)"
    using "2.prems" by (auto)
  let ?rest = "json_escape (drop (n - 1) cs) @ dquote # r"
  note step = str_step_enc_step(1) [OF pos st, of ?rest] str_step_enc_step(2-4) [OF pos st]
  have IH: "scan_str ?rest = Some (drop (n - 1) cs, r)"
    using 2 st val step(4) by (simp)
  obtain a b where out: "out = a # b" using step(2) by (cases out) auto
  have "take n (c # cs) @ drop (n - 1) cs = c # cs"
    using pos step(4) by (simp only: take_Cons_drop_pred)
  with step IH st show ?case
    by (simp add: out)
qed


lemma skip_ws_id: "\<not> is_ws c \<Longrightarrow> skip_ws (c # s) = c # s"
  by (simp add: skip_ws_def)

lemma skip_ws_syntax [simp]:
  "skip_ws (dquote # s) = dquote # s" "skip_ws (CHR ''{'' # s) = CHR ''{'' # s"
  "skip_ws (CHR ''}'' # s) = CHR ''}'' # s" "skip_ws (CHR '':'' # s) = CHR '':'' # s"
  "skip_ws (CHR '','' # s) = CHR '','' # s" "skip_ws [] = []"
  by (simp_all add: skip_ws_def is_ws_def)

lemma parse_value_string:
  "utf8_valid s \<Longrightarrow> parse_value (Suc f) d (dquote # json_escape s @ dquote # r) = Some (JStr s, r)"
  by (simp add: scan_str_escape)

lemmas parse_string_simps = json_member_def json_marshal_string_def scan_str_escape parse_value_string

definition utf8_headers :: "(string \<times> string) list \<Rightarrow> bool" where
  "utf8_headers m \<longleftrightarrow> (\<forall>(k, v) \<in> set m. utf8_valid k \<and> utf8_valid v)"

lemma parse_members_marshal:
  assumes "ps \<noteq> []" "utf8_headers ps" "length ps < f"
  shows "parse_members f d (json_members ps @ CHR ''}'' # r) = Some (map (\<lambda>(k, v). (k, JStr v)) ps, r)"
  using assms
proof (induction ps arbitrary: f rule: json_members.induct)
  case 1
  then show ?case by simp
next
  case (2 p)
  then obtain g where f: "f = Suc (Suc g)" by (cases f; cases "f - 1") auto
  obtain k v where p: "p = (k, v)" by fastforce
  from 2(2) p have "utf8_valid k" "utf8_valid v" by (auto simp: utf8_headers_def)
  then show ?case
    by (simp add: f p parse_string_simps del: parse_value.simps)
next
  case (3 p q ps)
  then obtain g where f: "f = Suc (Suc g)" by (cases f; cases "f - 1") auto
  obtain k v where p: "p = (k, v)" by fastforce
  from 3(3) p have "utf8_valid k" "utf8_valid v" "utf8_headers (q # ps)" by (auto simp: utf8_headers_def)
  moreover have "parse_members (Suc g) d (json_members (q # ps) @ CHR ''}'' # r)
      = Some (map (\<lambda>(k, v). (k, JStr v)) (q # ps), r)"
    using 3(1) [of "Suc g"] 3(4) calculation(3) f by simp
  ultimately show ?case
    by (simp add: f p parse_string_simps del: parse_value.simps parse_members.simps
        add: parse_members.simps(2) [of "Suc g"])
qed

lemma length_json_members: "length ps \<le> length (json_members ps)"
  by (induction ps rule: json_members.induct) (simp_all add: json_member_def json_marshal_string_def)

lemma json_members_head: "ps \<noteq> [] \<Longrightarrow> \<exists>t. json_members ps = dquote # t"
  by (induction ps rule: json_members.induct) (simp_all add: json_member_def json_marshal_string_def)

lemma json_parse_marshal_headers:
  assumes "utf8_headers m"
  shows "json_parse (json_marshal_headers (Some m)) = Some (JObj (map (\<lambda>(k, v). (k, JStr v)) (sort_key fst m)))"
proof (cases "m = []")
  case True
  then show ?thesis by (simp add: json_parse_def json_marshal_headers_def eval_nat_numeral)
next
  case False
  let ?ps = "sort_key fst m"
  have ps: "?ps \<noteq> []" "utf8_headers ?ps" using False assms by (auto simp: utf8_headers_def simp flip: set_empty)
  obtain t where t: "json_members ?ps = dquote # t" using json_members_head [OF ps(1)] by blast
  have "parse_members (2 * length (json_marshal_headers (Some m))) 9999 (json_members ?ps @ [CHR ''}''])
     = Some (map (\<lambda>(k, v). (k, JStr v)) ?ps, [])"
    using length_json_members [of ?ps]
    by (intro parse_members_marshal ps) (simp add: json_marshal_headers_def)
  then show ?thesis
    by (simp add: json_parse_def json_marshal_headers_def t del: parse_members.simps)
qed

lemma update_new: "k \<notin> fst ` set m \<Longrightarrow> AList.update k v m = m @ [(k, v)]"
  by (induction m) auto

lemma fold_unmarshal_strings:
  assumes "distinct (map fst (acc @ ps))"
  shows "fold unmarshal_entry (map (\<lambda>(k, v). (k, JStr v)) ps) (acc, good) = (acc @ ps, good)"
  using assms
proof (induction ps arbitrary: acc)
  case Nil
  then show ?case by simp
next
  case (Cons p ps)
  obtain k v where p: "p = (k, v)" by fastforce
  from Cons.prems p have "k \<notin> fst ` set acc" by auto
  with Cons p show ?case by (simp add: update_new)
qed

lemma json_headers_roundtrip:
  assumes "utf8_headers m" "distinct (map fst m)"
  shows "json_unmarshal_headers (json_marshal_headers (Some m)) None = (Some (sort_key fst m), True)"
proof -
  have "distinct (map fst (sort_key fst m))"
    using assms(2) by (metis mset_eq_imp_distinct_iff mset_map mset_sort)
  then show ?thesis
    using fold_unmarshal_strings [of "[]" "sort_key fst m" True] assms(1)
    by (simp add: json_unmarshal_headers_def json_parse_marshal_headers)
qed

section \<open>The fuel is enough\<close>

lemma skip_ws_length: "length (skip_ws s) \<le> length s"
  by (simp add: skip_ws_def length_dropWhile_le)

lemma skip_ws_Cons_length: "skip_ws s = c # r \<Longrightarrow> length r < length s"
  using skip_ws_length [of s] by simp

lemma scan_str_length: "scan_str s = Some (t, r) \<Longrightarrow> length r < length s"
proof (induction s arbitrary: t r rule: scan_str.induct)
  case 1
  then show ?case by simp
next
  case (2 c cs)
  then show ?case
    by (fastforce split: if_splits option.splits)
qed

lemma skip_digits1_length: "skip_digits1 s = Some r \<Longrightarrow> length r < length s"
  by (auto simp: skip_digits1_def less_Suc_eq_le length_dropWhile_le split: list.splits if_splits)

lemma skip_int_length: "skip_int s = Some r \<Longrightarrow> length r < length s"
  by (auto simp: skip_int_def less_Suc_eq_le length_dropWhile_le split: list.splits if_splits)

lemma skip_frac_length: "skip_frac s = Some r \<Longrightarrow> length r \<le> length s"
  by (auto simp: skip_frac_def split: list.splits if_splits dest!: skip_digits1_length)

lemma skip_exp_length: "skip_exp s = Some r \<Longrightarrow> length r \<le> length s"
  by (auto simp: skip_exp_def split: list.splits if_splits dest!: skip_digits1_length)

lemma skip_number_length: "skip_number s = Some r \<Longrightarrow> length r < length s"
  by (fastforce simp: skip_number_def Let_def bind_eq_Some_conv split: list.splits if_splits
      dest: skip_int_length skip_frac_length skip_exp_length)

lemma literal_or_number_length: "literal_or_number s = Some (v, r) \<Longrightarrow> length r < length s"
  by (cases s) (auto simp: literal_or_number_def split: if_splits dest: skip_number_length)

lemmas parse_lengths = skip_ws_Cons_length scan_str_length literal_or_number_length

lemma parse_length:
  "parse_value f d s = Some (v, r) \<Longrightarrow> length r < length s"
  "parse_elems f d s = Some (vs, r) \<Longrightarrow> length r < length s"
  "parse_members f d s = Some (ms, r) \<Longrightarrow> length r < length s"
proof (induction f d s and f d s and f d s arbitrary: v r and vs r and ms r
    rule: parse_value_parse_elems_parse_members.induct)
  case (2 f d s)
  then show ?case
    by (auto split: list.splits if_splits option.splits dest!: parse_lengths)
      (use less_trans in fastforce)+
next
  case (4 f d s)
  then show ?case
    by (auto split: list.splits if_splits option.splits dest!: skip_ws_Cons_length)
      (use less_trans in fastforce)+
next
  case (6 f d s)
  then show ?case
    by (auto split: list.splits if_splits option.splits dest!: skip_ws_Cons_length scan_str_length)
      (use less_trans in fastforce)+
qed simp_all

lemma parse_fuel_step:
  "2 * length s < f \<Longrightarrow> parse_value (Suc f) d s = parse_value f d s"
  "2 * length s + 1 < f \<Longrightarrow> parse_elems (Suc f) d s = parse_elems f d s"
  "2 * length s < f \<Longrightarrow> parse_members (Suc f) d s = parse_members f d s"
proof (induction f arbitrary: d s)
  case (Suc f)
  note members_top = parse_members.simps(2) [of "Suc f"] parse_members.simps(2) [of f]
  note unfold_top = parse_value.simps(2) [of "Suc f"] parse_value.simps(2) [of f]
    parse_elems.simps(2) [of "Suc f"] parse_elems.simps(2) [of f]
    parse_members.simps(2) [of "Suc f"] parse_members.simps(2) [of f]
  note off = parse_value.simps parse_elems.simps parse_members.simps
  { case 1
    show ?case
    proof (cases "skip_ws s")
      case (Cons c r)
      then have "2 * length r + 1 < f" using 1 skip_ws_Cons_length [of s c r] by simp
      then have "parse_elems (Suc f) (d - 1) r = parse_elems f (d - 1) r"
        and "parse_members (Suc f) (d - 1) r = parse_members f (d - 1) r"
        by (simp_all add: Suc.IH(2,3) del: off)
      then show ?thesis by (simp only: unfold_top Cons list.case)
    qed (simp add: unfold_top del: off)
  next
    case 2
    have v: "parse_value (Suc f) d s = parse_value f d s" using 2 by (intro Suc.IH(1)) simp
    have "parse_elems (Suc f) d q = parse_elems f d q"
      if "parse_value f d s = Some (w, r)" "skip_ws r = c # q" for w r c q
      using parse_length(1) [OF that(1)] skip_ws_Cons_length [OF that(2)] 2 by (intro Suc.IH(2)) simp
    with v show ?case
      by (auto simp: unfold_top simp del: off split: option.split list.split)
  next
    case 3
    have v: "parse_value (Suc f) d r2 = parse_value f d r2"
      if "skip_ws s = a # r" "scan_str r = Some (k, r1)" "skip_ws r1 = b # r2" for a r k r1 b r2
      using skip_ws_Cons_length [OF that(1)] scan_str_length [OF that(2)] skip_ws_Cons_length [OF that(3)] 3
      by (intro Suc.IH(1)) simp
    have m: "parse_members (Suc f) d q = parse_members f d q"
      if "skip_ws s = a # r" "scan_str r = Some (k, r1)" "skip_ws r1 = b # r2"
        "parse_value f d r2 = Some (w, r3)" "skip_ws r3 = c # q" for a r k r1 b r2 w r3 c q
      using skip_ws_Cons_length [OF that(1)] scan_str_length [OF that(2)] skip_ws_Cons_length [OF that(3)]
        parse_length(1) [OF that(4)] skip_ws_Cons_length [OF that(5)] 3
      by (intro Suc.IH(3)) simp
    show ?case
    proof (cases "skip_ws s")
      case s: (Cons a r)
      show ?thesis
      proof (cases "scan_str r")
        case k: (Some p)
        obtain k r1 where p: "p = (k, r1)" by fastforce
        show ?thesis
        proof (cases "skip_ws r1")
          case r1: (Cons b r2)
          note v' = v [OF s k [unfolded p] r1]
          show ?thesis
          proof (cases "parse_value f d r2")
            case w: (Some q)
            obtain w r3 where q: "q = (w, r3)" by fastforce
            show ?thesis
              using m [OF s k [unfolded p] r1 w [unfolded q]]
              by (cases "skip_ws r3") (simp_all add: members_top s k p r1 v' w q del: off)
          qed (simp add: members_top s k p r1 v' del: off)
        qed (simp add: members_top s k p del: off)
      qed (simp add: members_top s del: off)
    qed (simp add: members_top del: off)
  }
qed simp_all

lemma json_parse_fuel:
  assumes "2 * length s < f"
  shows "parse_value f d s = parse_value (Suc (2 * length s)) d s"
proof -
  have "parse_value (Suc (2 * length s) + k) d s = parse_value (Suc (2 * length s)) d s" for k
    by (induction k) (simp_all add: parse_fuel_step(1) del: parse_value.simps)
  from this [of "f - Suc (2 * length s)"] assms show ?thesis by simp
qed

section \<open>Round trips\<close>

lemma json_string_roundtrip: "utf8_valid s \<Longrightarrow> json_unmarshal_string (json_marshal_string s) = Some s"
  by (simp add: json_unmarshal_string_def json_parse_def json_marshal_string_def scan_str_escape)

interpretation json_string: codec utf8_valid json_marshal_string json_unmarshal_string
  by unfold_locales (rule json_string_roundtrip)

text \<open>Maps as the encoder sees them: distinct keys, listed in key order, valid UTF-8 throughout.\<close>

definition canonical_headers :: "(string \<times> string) list \<Rightarrow> bool" where
  "canonical_headers m \<longleftrightarrow> utf8_headers m \<and> distinct (map fst m) \<and> sorted (map fst m)"

definition decoded_map :: "string \<Rightarrow> (string \<times> string) list option" where
  "decoded_map s = (case json_unmarshal_headers s None of (Some m, True) \<Rightarrow> Some m | _ \<Rightarrow> None)"

interpretation json_headers: codec canonical_headers "\<lambda>m. json_marshal_headers (Some m)" decoded_map
  by unfold_locales
    (simp add: canonical_headers_def decoded_map_def json_headers_roundtrip sort_key_id_if_sorted)

text \<open>A string of safe characters is written as it is.\<close>

lemma json_escape_safe: "list_all json_safe s \<Longrightarrow> json_escape s = s"
  by (induction s) (auto simp: enc_step_def json_safe_def Let_def)

lemma json_safe_utf8: "list_all json_safe s \<Longrightarrow> utf8_valid s"
  by (rule utf8_valid_ascii) (auto simp: list_all_iff json_safe_def)

end
