(* ===== verification/Crypto.thy ===== *)
theory Crypto
  imports Json
begin

text \<open>
  \<^verbatim>\<open>crypto.go\<close>: the versioned cipher registry and the default AES-256-GCM cipher. The
  \<open>MessageCipher\<close> interface is implemented by the caller, and the AEAD, SHA-256 and the random
  source belong to the cryptographic library, so they are parameters: a cipher is a record of its
  version and its two functions, where encryption takes the random bytes it draws.
\<close>

section \<open>Ciphers\<close>

text \<open>
  \<open>cEncrypt c rnd pt\<close>: \<open>rnd\<close> is what reading the random source yields for this call (\<open>None\<close> when the
  read fails).
\<close>

record message_cipher =
  cVersion :: string
  cEncrypt :: "string option \<Rightarrow> string \<Rightarrow> err + string"
  cDecrypt :: "string \<Rightarrow> err + string"

text \<open>\<open>cipher.AEAD\<close>: \<open>aSeal nonce pt\<close> is the sealed text without the nonce.\<close>

record aead =
  aNonceSize :: nat
  aSeal :: "string \<Rightarrow> string \<Rightarrow> string"
  aOpen :: "string \<Rightarrow> string \<Rightarrow> err + string"

definition aes256GCM_Encrypt :: "aead \<Rightarrow> string option \<Rightarrow> string \<Rightarrow> err + string" where
  "aes256GCM_Encrypt gcm rnd plaintext =
     (case rnd of
        None \<Rightarrow> Inl (Wrap ''message: nonce'' (External ''random source failed''))
      | Some bytes \<Rightarrow>
          if length bytes < aNonceSize gcm
          then Inl (Wrap ''message: nonce'' (External ''unexpected EOF''))
          else (let nonce = take (aNonceSize gcm) bytes in Inr (nonce @ aSeal gcm nonce plaintext)))"

definition aes256GCM_Decrypt :: "aead \<Rightarrow> string \<Rightarrow> err + string" where
  "aes256GCM_Decrypt gcm ciphertext =
     (let nonceSize = aNonceSize gcm in
      if length ciphertext < nonceSize then Inl (Errorf ''message: ciphertext too short'')
      else (case aOpen gcm (take nonceSize ciphertext) (drop nonceSize ciphertext) of
              Inl e \<Rightarrow> Inl (Wrap ''message: decrypt'' e)
            | Inr pt \<Rightarrow> Inr pt))"

text \<open>
  The constructor panics on an empty secret or when the library refuses the key: \<open>Inl\<close> is the panic
  value. \<open>sha256\<close> and \<open>mk_gcm\<close> (\<open>aes.NewCipher\<close> followed by \<open>cipher.NewGCM\<close>) are the library's.
\<close>

definition NewAES256GCMCipher ::
  "(string \<Rightarrow> string) \<Rightarrow> (string \<Rightarrow> err + aead) \<Rightarrow> string \<Rightarrow> string \<Rightarrow> string + message_cipher" where
  "NewAES256GCMCipher sha256 mk_gcm version secret =
     (if secret = '''' then Inl ''message: NewAES256GCMCipher: a non-empty secret is required''
      else (case mk_gcm (sha256 secret) of
              Inl e \<Rightarrow> Inl (''message: NewAES256GCMCipher: '' @ error_text e)
            | Inr gcm \<Rightarrow> Inr \<lparr>cVersion = version, cEncrypt = aes256GCM_Encrypt gcm,
                            cDecrypt = aes256GCM_Decrypt gcm\<rparr>))"

definition NewDefaultCipher ::
  "(string \<Rightarrow> string) \<Rightarrow> (string \<Rightarrow> err + aead) \<Rightarrow> string \<Rightarrow> string + message_cipher" where
  "NewDefaultCipher sha256 mk_gcm secret = NewAES256GCMCipher sha256 mk_gcm ''v0.0.0'' secret"

section \<open>The registry\<close>

text \<open>The regular expression \<^verbatim>\<open>^[A-Za-z0-9_.-]+$\<close>.\<close>

definition cipherVersionRegex_match :: "string \<Rightarrow> bool" where
  "cipherVersionRegex_match s \<longleftrightarrow>
     s \<noteq> [] \<and>
     list_all (\<lambda>c. is_letter c \<or> is_digit c \<or> c = CHR ''_'' \<or> c = CHR ''.'' \<or> c = CHR ''-'') s"

record cipher_registry =
  byVersion :: "string \<rightharpoonup> message_cipher"
  current :: message_cipher

text \<open>The loop over the ciphers; \<open>quote\<close> is \<open>strconv.Quote\<close> (the verb \<open>%q\<close>).\<close>

fun register_ciphers ::
  "(string \<Rightarrow> string) \<Rightarrow> message_cipher list \<Rightarrow> (string \<rightharpoonup> message_cipher) \<Rightarrow> err + (string \<rightharpoonup> message_cipher)" where
  "register_ciphers quote [] m = Inr m"
| "register_ciphers quote (c # cs) m =
     (let v = cVersion c in
      if \<not> cipherVersionRegex_match v
        then Inl (Errorf (''message: CipherRegistry: invalid version '' @ quote v))
      else if m v \<noteq> None
        then Inl (Errorf (''message: CipherRegistry: duplicate version '' @ quote v))
      else register_ciphers quote cs (m(v \<mapsto> c)))"

definition NewCipherRegistry ::
  "(string \<Rightarrow> string) \<Rightarrow> message_cipher list \<Rightarrow> string \<Rightarrow> err + cipher_registry" where
  "NewCipherRegistry quote ciphers currentVersion =
     (if ciphers = [] then Inl (Errorf ''message: CipherRegistry: at least one cipher is required'')
      else (case register_ciphers quote ciphers Map.empty of
              Inl e \<Rightarrow> Inl e
            | Inr m \<Rightarrow>
                (case m currentVersion of
                   None \<Rightarrow> Inl (Errorf (''message: CipherRegistry: currentVersion '' @ quote currentVersion
                              @ '' is not among the ciphers''))
                 | Some cur \<Rightarrow> Inr \<lparr>byVersion = m, current = cur\<rparr>)))"

definition stamp :: "string \<Rightarrow> string \<Rightarrow> string" where
  "stamp version body = version @ CHR '':'' # b64_encode body"

definition reg_Encrypt :: "cipher_registry \<Rightarrow> string option \<Rightarrow> string \<Rightarrow> err + string" where
  "reg_Encrypt r rnd plaintext =
     (case cEncrypt (current r) rnd plaintext of
        Inl e \<Rightarrow> Inl e
      | Inr ct \<Rightarrow> Inr (json_marshal_string (stamp (cVersion (current r)) ct)))"

text \<open>
  The error texts of \<open>encoding/json\<close> and \<open>encoding/base64\<close> for a malformed input, of \<open>Rows.Scan\<close> for a
  column that does not fit its destination (by its index), and \<open>strconv.Quote\<close>, only end up inside
  error messages.
\<close>

record go_texts =
  tQuote :: "string \<Rightarrow> string"
  tJson :: "string \<Rightarrow> string"
  tBase64 :: "string \<Rightarrow> string"
  tScan :: "nat \<Rightarrow> string"

text \<open>The version is what precedes the first colon; \<open>IndexByte\<close> at 0 or missing is refused.\<close>

definition reg_Decrypt :: "go_texts \<Rightarrow> cipher_registry \<Rightarrow> string \<Rightarrow> err + string" where
  "reg_Decrypt tx r stored =
     (case json_unmarshal_string stored of
        None \<Rightarrow> Inl (Wrap ''message: CipherRegistry: stored value is not a JSON string'' (External (tJson tx stored)))
      | Some stamped \<Rightarrow>
          (let version = takeWhile (\<lambda>c. c \<noteq> CHR '':'') stamped;
               rest = dropWhile (\<lambda>c. c \<noteq> CHR '':'') stamped in
           if version = [] \<or> rest = []
             then Inl (Errorf ''message: CipherRegistry: ciphertext missing version prefix'')
           else (case byVersion r version of
                   None \<Rightarrow> Inl (Errorf (''message: CipherRegistry: no cipher registered for version ''
                              @ tQuote tx version))
                 | Some c \<Rightarrow>
                     (case b64_decode (tl rest) of
                        None \<Rightarrow> Inl (Wrap ''message: CipherRegistry: invalid base64 body''
                                   (External (tBase64 tx (tl rest))))
                      | Some ct \<Rightarrow> cDecrypt c ct))))"

section \<open>Facts\<close>

text \<open>What the registry relies on: a cipher decrypts its own ciphertext.\<close>

definition cipher_ok :: "message_cipher \<Rightarrow> bool" where
  "cipher_ok c \<longleftrightarrow> (\<forall>rnd pt ct. cEncrypt c rnd pt = Inr ct \<longrightarrow> cDecrypt c ct = Inr pt)"

definition aead_ok :: "aead \<Rightarrow> bool" where
  "aead_ok g \<longleftrightarrow> (\<forall>nonce pt. length nonce = aNonceSize g \<longrightarrow> aOpen g nonce (aSeal g nonce pt) = Inr pt)"

lemma aes256GCM_roundtrip:
  assumes "aead_ok gcm" and "aes256GCM_Encrypt gcm rnd pt = Inr ct"
  shows "aes256GCM_Decrypt gcm ct = Inr pt"
  using assms
  by (auto simp: aes256GCM_Encrypt_def aes256GCM_Decrypt_def aead_ok_def Let_def
      split: option.splits if_splits)

lemma NewAES256GCMCipher_ok:
  assumes "NewAES256GCMCipher sha mk v s = Inr c" and "\<And>k g. mk k = Inr g \<Longrightarrow> aead_ok g"
  shows "cipher_ok c" and "cVersion c = v"
  using assms
  by (auto simp: NewAES256GCMCipher_def cipher_ok_def split: if_splits sum.splits)
    (blast intro: aes256GCM_roundtrip)

text \<open>What a successful loop has established.\<close>

lemma register_ciphers_lookup:
  assumes "register_ciphers q cs m = Inr m'"
  shows "m' = m ++ map_of (map (\<lambda>c. (cVersion c, c)) cs)"
    and "distinct (map cVersion cs)"
    and "\<forall>c \<in> set cs. cipherVersionRegex_match (cVersion c) \<and> m (cVersion c) = None"
proof -
  have "m' = m ++ map_of (map (\<lambda>c. (cVersion c, c)) cs) \<and> distinct (map cVersion cs)
      \<and> (\<forall>c \<in> set cs. cipherVersionRegex_match (cVersion c) \<and> m (cVersion c) = None)"
    using assms
  proof (induction cs arbitrary: m)
    case Nil
    then show ?case by simp
  next
    case (Cons c cs)
    from Cons.prems have here: "cipherVersionRegex_match (cVersion c)" "m (cVersion c) = None"
      and more: "register_ciphers q cs (m(cVersion c \<mapsto> c)) = Inr m'"
      by (auto simp: Let_def split: if_splits)
    from Cons.IH [OF more] have IH:
      "m' = m(cVersion c \<mapsto> c) ++ map_of (map (\<lambda>c. (cVersion c, c)) cs)"
      "distinct (map cVersion cs)"
      "\<forall>d \<in> set cs. cipherVersionRegex_match (cVersion d) \<and> (m(cVersion c \<mapsto> c)) (cVersion d) = None"
      by blast+
    from IH(3) have new: "cVersion c \<notin> cVersion ` set cs" and old: "\<forall>d \<in> set cs. m (cVersion d) = None"
      by (auto split: if_splits)
    have "m' = m ++ map_of (map (\<lambda>c. (cVersion c, c)) (c # cs))"
      using new by (simp add: IH(1) map_add_upd_left dom_map_of_conv_image_fst image_image)
    moreover have "distinct (map cVersion (c # cs))" using IH(2) new by simp
    moreover have "\<forall>d \<in> set (c # cs). cipherVersionRegex_match (cVersion d) \<and> m (cVersion d) = None"
      using here IH(3) old by simp
    ultimately show ?case by blast
  qed
  then show "m' = m ++ map_of (map (\<lambda>c. (cVersion c, c)) cs)" and "distinct (map cVersion cs)"
    and "\<forall>c \<in> set cs. cipherVersionRegex_match (cVersion c) \<and> m (cVersion c) = None"
    by simp_all
qed

lemma NewCipherRegistry_props:
  assumes "NewCipherRegistry q cs cur = Inr r"
  shows "\<And>c. c \<in> set cs \<Longrightarrow> byVersion r (cVersion c) = Some c"
    and "\<And>v c. byVersion r v = Some c \<Longrightarrow> c \<in> set cs \<and> cVersion c = v \<and> cipherVersionRegex_match v"
    and "byVersion r cur = Some (current r)"
proof -
  obtain m where m: "register_ciphers q cs Map.empty = Inr m" and r: "byVersion r = m" "m cur = Some (current r)"
    using assms by (auto simp: NewCipherRegistry_def split: if_splits sum.splits option.splits)
  note reg = register_ciphers_lookup [OF m]
  have "distinct (map fst (map (\<lambda>c. (cVersion c, c)) cs))" using reg(2) by (simp add: comp_def)
  then show "byVersion r (cVersion c) = Some c" if "c \<in> set cs" for c
    using that by (simp add: r reg(1) map_of_is_SomeI)
  show "c \<in> set cs \<and> cVersion c = v \<and> cipherVersionRegex_match v" if "byVersion r v = Some c" for v c
    using that reg(3) by (auto simp: r reg(1) dest!: map_of_SomeD)
  show "byVersion r cur = Some (current r)" by (simp add: r)
qed

text \<open>The stamped text is plain ASCII, so its JSON form is the text in quotes.\<close>

lemma version_char_safe:
  assumes "is_letter c \<or> is_digit c \<or> c = CHR ''_'' \<or> c = CHR ''.'' \<or> c = CHR ''-''"
  shows "json_safe c \<and> c \<noteq> CHR '':''"
proof -
  have "\<And>a b :: char. a \<le> b \<longleftrightarrow> byte a \<le> byte b" by (simp add: less_eq_char_def)
  then show ?thesis using assms by (auto simp: is_letter_def is_digit_def json_safe_def)
qed

lemma stamp_safe:
  assumes "cipherVersionRegex_match v"
  shows "list_all json_safe (stamp v body)"
proof -
  have "json_safe c" if "b64_plain c" for c
    using that by (auto simp: b64_plain_def json_safe_def)
  then have "list_all json_safe (b64_encode body)"
    using b64_encode_plain [of body] by (auto simp: list_all_iff)
  moreover have "list_all json_safe v"
    using assms version_char_safe by (auto simp: cipherVersionRegex_match_def list_all_iff)
  ultimately show ?thesis by (simp add: stamp_def json_safe_def)
qed

lemma stamp_split:
  assumes "cipherVersionRegex_match v"
  shows "takeWhile (\<lambda>c. c \<noteq> CHR '':'') (stamp v body) = v"
    and "dropWhile (\<lambda>c. c \<noteq> CHR '':'') (stamp v body) = CHR '':'' # b64_encode body"
proof -
  have "\<forall>c \<in> set v. c \<noteq> CHR '':''"
    using assms version_char_safe by (auto simp: cipherVersionRegex_match_def list_all_iff)
  then show "takeWhile (\<lambda>c. c \<noteq> CHR '':'') (stamp v body) = v"
    and "dropWhile (\<lambda>c. c \<noteq> CHR '':'') (stamp v body) = CHR '':'' # b64_encode body"
    by (simp_all add: stamp_def takeWhile_append2 dropWhile_append2)
qed

text \<open>
  Framing and unframing as a stack of codecs: the stamped text inside a JSON string.
\<close>

definition unstamp :: "string \<Rightarrow> (string \<times> string) option" where
  "unstamp s =
     (case dropWhile (\<lambda>c. c \<noteq> CHR '':'') s of
        [] \<Rightarrow> None
      | _ # body \<Rightarrow> map_option (Pair (takeWhile (\<lambda>c. c \<noteq> CHR '':'') s)) (b64_decode body))"

interpretation stamped: codec "\<lambda>(v, body). cipherVersionRegex_match v" "\<lambda>(v, body). stamp v body" unstamp
  by unfold_locales (auto simp: unstamp_def stamp_split b64_decode_encode)

interpretation envelope: codec_stack
  "\<lambda>(v, body). cipherVersionRegex_match v" "\<lambda>(v, body). stamp v body" unstamp
  utf8_valid json_marshal_string json_unmarshal_string
  by unfold_locales (auto intro: json_safe_utf8 stamp_safe)

text \<open>Decrypting an envelope hands the body to the cipher registered for its version.\<close>

lemma reg_Decrypt_envelope:
  assumes "cipherVersionRegex_match v" and "byVersion r v = Some c"
  shows "reg_Decrypt tx r (json_marshal_string (stamp v ct)) = cDecrypt c ct"
proof -
  have "json_unmarshal_string (json_marshal_string (stamp v ct)) = Some (stamp v ct)"
    by (intro json_string.roundtrip json_safe_utf8 stamp_safe assms(1))
  moreover have "v \<noteq> []" using assms(1) by (simp add: cipherVersionRegex_match_def)
  ultimately show ?thesis
    by (simp add: reg_Decrypt_def Let_def stamp_split [OF assms(1)] assms(2) b64_decode_encode)
qed

text \<open>
  Ciphertext written by one registry is readable by any other that still holds the cipher it was
  written with: round trip and key rotation in one statement.
\<close>

lemma registry_rotation:
  assumes "NewCipherRegistry q1 cs1 v1 = Inr r1" and "NewCipherRegistry q2 cs2 v2 = Inr r2"
    and "current r1 \<in> set cs2" and "cipher_ok (current r1)"
    and "reg_Encrypt r1 rnd pt = Inr stored"
  shows "reg_Decrypt tx r2 stored = Inr pt"
proof -
  obtain ct where ct: "cEncrypt (current r1) rnd pt = Inr ct"
    and st: "stored = json_marshal_string (stamp (cVersion (current r1)) ct)"
    using assms(5) by (auto simp: reg_Encrypt_def split: sum.splits)
  have "cipherVersionRegex_match (cVersion (current r1))"
    using NewCipherRegistry_props(2,3) [OF assms(1)] by blast
  moreover have "byVersion r2 (cVersion (current r1)) = Some (current r1)"
    using NewCipherRegistry_props(1) [OF assms(2)] assms(3) by blast
  ultimately show ?thesis
    using assms(4) ct by (simp add: st reg_Decrypt_envelope cipher_ok_def)
qed

lemma registry_roundtrip:
  assumes "NewCipherRegistry q cs v = Inr r" and "cipher_ok (current r)"
    and "reg_Encrypt r rnd pt = Inr stored"
  shows "reg_Decrypt tx r stored = Inr pt"
  using registry_rotation [OF assms(1) assms(1) _ assms(2,3)] NewCipherRegistry_props(2,3) [OF assms(1)]
  by blast

end
