(* ===== verification/Config.thy ===== *)
theory Config
  imports Backoff Crypto
begin

text \<open>
  The data types of \<^verbatim>\<open>message.go\<close>, \<^verbatim>\<open>logger.go\<close> and \<^verbatim>\<open>metrics.go\<close>, and \<^verbatim>\<open>config.go\<close>: the
  configuration with its defaults, the construction options and the per-call options.
\<close>

section \<open>Messages\<close>

datatype status = StatusPending | StatusProcessing | StatusRetry | StatusFailed

datatype final_status = FinalProcessed | FinalFailed

text \<open>
  \<open>Status\<close> is \<open>None\<close> for the zero value of a message the caller builds; \<open>rawHeaders\<close> and the pointer
  fields are \<open>None\<close> for nil. Instants and durations are integers in nanoseconds.
\<close>

record message =
  MessageID :: string
  PartitionKey :: string
  Topic :: string
  Payload :: string
  Headers :: headers
  Source :: string
  Encrypted :: bool
  Status :: "status option"
  RetryCount :: int
  MaxRetries :: int
  NextRetryAt :: "int option"
  ProcessingBy :: "string option"
  ProcessingAt :: "int option"
  CreatedAt :: int
  ProcessedAt :: "int option"
  LastError :: "string option"
  rawHeaders :: "string option"

record archived_message =
  ArID :: int
  ArMessageID :: string
  ArPartitionKey :: string
  ArTopic :: string
  ArPayload :: string
  ArHeaders :: headers
  ArSource :: string
  ArEncrypted :: bool
  ArFinalStatus :: final_status
  ArRetryCount :: int
  ArCreatedAt :: int
  ArProcessedAt :: "int option"
  ArArchivedAt :: int
  ArLastError :: "string option"
  ArRawHeaders :: "string option"

text \<open>The message a caller builds: only the fields it sets, every other one zero.\<close>

definition new_message :: "string \<Rightarrow> string \<Rightarrow> string \<Rightarrow> message" where
  "new_message mid tp pl =
     \<lparr>MessageID = mid, PartitionKey = '''', Topic = tp, Payload = pl, Headers = None, Source = '''',
      Encrypted = False, Status = None, RetryCount = 0, MaxRetries = 0, NextRetryAt = None,
      ProcessingBy = None, ProcessingAt = None, CreatedAt = 0, ProcessedAt = None, LastError = None,
      rawHeaders = None\<rparr>"

section \<open>Metrics and log events\<close>

datatype metric = MessageProcessed string | MessageRetry string | MessageFailed string
  | DedupHit | DedupMiss

text \<open>\<open>LogLevel\<close> is an integer type with four named values.\<close>

abbreviation (input) DEBUG :: int where "DEBUG \<equiv> 0"
abbreviation (input) INFO :: int where "INFO \<equiv> 1"
abbreviation (input) WARN :: int where "WARN \<equiv> 2"
abbreviation (input) ERROR :: int where "ERROR \<equiv> 3"

definition LogLevel_String :: "int \<Rightarrow> string" where
  "LogLevel_String l =
     (if l = DEBUG then ''DEBUG'' else if l = INFO then ''INFO'' else if l = WARN then ''WARN''
      else if l = ERROR then ''ERROR'' else ''UNKNOWN'')"

text \<open>
  What the program tells its \<open>Metrics\<close> and \<open>Logger\<close>, in order. Both are the caller's; the model
  keeps the sequence of calls.
\<close>

datatype obs = Metric metric | Log int string message

section \<open>Configuration\<close>

record config =
  Name :: string
  DefaultMaxRetries :: int
  DefaultBackoff :: "backoff option"
  WorkerID :: string
  ClaimTimeout :: int
  DedupTTL :: int
  FailedRetention :: int
  Concurrency :: int
  HandlerTimeout :: int

definition Config_withDefaults :: "config \<Rightarrow> config" where
  "Config_withDefaults c =
     c\<lparr>DefaultMaxRetries := if DefaultMaxRetries c \<le> 0 then 5 else DefaultMaxRetries c,
       DefaultBackoff := (case DefaultBackoff c of None \<Rightarrow> Some (LinearBackoff Second) | Some b \<Rightarrow> Some b),
       WorkerID := if WorkerID c = '''' then ''default'' else WorkerID c,
       ClaimTimeout := if ClaimTimeout c \<le> 0 then 5 * Minute else ClaimTimeout c,
       DedupTTL := if DedupTTL c \<le> 0 then 24 * Hour else DedupTTL c,
       FailedRetention := if FailedRetention c \<le> 0 then 7 * 24 * Hour else FailedRetention c,
       Concurrency := if Concurrency c \<le> 0 then 10 else Concurrency c\<rparr>"

text \<open>What the rest of the program relies on after the defaults are applied.\<close>

definition config_ok :: "config \<Rightarrow> bool" where
  "config_ok c \<longleftrightarrow>
     0 < DefaultMaxRetries c \<and> DefaultBackoff c \<noteq> None \<and> WorkerID c \<noteq> '''' \<and> 0 < ClaimTimeout c
     \<and> 0 < DedupTTL c \<and> 0 < FailedRetention c \<and> 0 < Concurrency c"

lemma config_ok_withDefaults [simp]: "config_ok (Config_withDefaults c)"
  by (simp add: config_ok_def Config_withDefaults_def split: option.split)

lemma withDefaults_idem:
  assumes "config_ok c"
  shows "Config_withDefaults c = c"
  using assms by (simp add: config_ok_def Config_withDefaults_def split: option.split)

section \<open>Construction options\<close>

text \<open>An implementation of \<open>Metrics\<close> or \<open>Logger\<close>: the no-op default or one of the caller's.\<close>

datatype sink = Noop | UserSink nat

record options =
  o_metrics :: sink
  o_backoff :: "backoff option"
  o_logger :: sink
  o_ciphers :: "message_cipher list"
  o_currentCipherVersion :: string

definition WithMetrics :: "sink \<Rightarrow> options \<Rightarrow> options" where
  "WithMetrics m o' = o'\<lparr>o_metrics := m\<rparr>"

definition WithBackoff :: "backoff \<Rightarrow> options \<Rightarrow> options" where
  "WithBackoff b o' = o'\<lparr>o_backoff := Some b\<rparr>"

definition WithLogger :: "sink \<Rightarrow> options \<Rightarrow> options" where
  "WithLogger l o' = o'\<lparr>o_logger := l\<rparr>"

definition WithCiphers :: "string \<Rightarrow> message_cipher list \<Rightarrow> options \<Rightarrow> options" where
  "WithCiphers currentVersion ciphers o' =
     o'\<lparr>o_ciphers := ciphers, o_currentCipherVersion := currentVersion\<rparr>"

definition applyOptions :: "(options \<Rightarrow> options) list \<Rightarrow> options" where
  "applyOptions opts =
     fold (\<lambda>opt o'. opt o') opts
       \<lparr>o_metrics = Noop, o_backoff = None, o_logger = Noop, o_ciphers = [],
        o_currentCipherVersion = ''''\<rparr>"

section \<open>Call options and the handler's context\<close>

record callOptions =
  co_handlerTimeout :: "int option"

definition WithCallTimeout :: "int \<Rightarrow> callOptions \<Rightarrow> callOptions" where
  "WithCallTimeout d o' = o'\<lparr>co_handlerTimeout := Some d\<rparr>"

definition applyCallOptions :: "(callOptions \<Rightarrow> callOptions) list \<Rightarrow> callOptions" where
  "applyCallOptions opts = fold (\<lambda>opt o'. opt o') opts \<lparr>co_handlerTimeout = None\<rparr>"

text \<open>The context a handler runs under: with a deadline, or only cancellable.\<close>

datatype hctx = CtxTimeout int | CtxCancel

definition handlerCtx :: "config \<Rightarrow> callOptions \<Rightarrow> hctx" where
  "handlerCtx cfg co =
     (let timeout = (case co_handlerTimeout co of None \<Rightarrow> HandlerTimeout cfg | Some d \<Rightarrow> d) in
      if timeout > 0 then CtxTimeout timeout else CtxCancel)"

lemma handlerCtx_override: "handlerCtx cfg (applyCallOptions (opts @ [WithCallTimeout d]))
    = (if d > 0 then CtxTimeout d else CtxCancel)"
  by (simp add: handlerCtx_def applyCallOptions_def WithCallTimeout_def)

section \<open>Runner and page options\<close>

record runnerOptions =
  BatchSize :: int
  PollInterval :: int
  IdleInterval :: int

definition RunnerOptions_withDefaults :: "runnerOptions \<Rightarrow> runnerOptions" where
  "RunnerOptions_withDefaults o' =
     o'\<lparr>BatchSize := if BatchSize o' \<le> 0 then 50 else BatchSize o',
        IdleInterval := if IdleInterval o' \<le> 0 then 200 * Millisecond else IdleInterval o'\<rparr>"

record pageOptions =
  Limit :: int
  Offset :: int

definition PageOptions_withDefaults :: "pageOptions \<Rightarrow> pageOptions" where
  "PageOptions_withDefaults p = (if Limit p \<le> 0 then p\<lparr>Limit := 100\<rparr> else p)"

end
