(* ===== verification/Database.thy ===== *)
theory Database
  imports Config
begin

text \<open>
  The database as the program sees it: the three tables of \<^verbatim>\<open>schema.go\<close> as lists of rows, the
  world a call runs in (tables, the two clocks, and a script of what the driver and the server do
  at each call), and the \<open>database/sql\<close> primitives: executing a statement on the pool or inside a
  transaction, beginning, committing and rolling back.

  The order of the rows in a list stands for the order in which the server happens to scan them;
  no theorem assumes anything about it.
\<close>

section \<open>Rows\<close>

record dedup_row =
  d_message_id :: string
  d_partition_key :: "string option"
  d_topic :: string
  d_source :: "string option"
  d_first_seen_at :: int
  d_expire_at :: "int option"

record hot_row =
  h_message_id :: string
  h_partition_key :: "string option"
  h_topic :: string
  h_payload :: string
  h_headers :: "string option"
  h_source :: "string option"
  h_encrypted :: bool
  h_status :: status
  h_retry_count :: int
  h_max_retry :: int
  h_next_retry_at :: "int option"
  h_processing_by :: "string option"
  h_processing_at :: "int option"
  h_created_at :: int
  h_processed_at :: "int option"
  h_last_error :: "string option"

record archive_row =
  a_id :: int
  a_message_id :: string
  a_partition_key :: "string option"
  a_topic :: string
  a_payload :: string
  a_headers :: "string option"
  a_source :: "string option"
  a_encrypted :: bool
  a_final_status :: final_status
  a_retry_count :: int
  a_created_at :: int
  a_processed_at :: "int option"
  a_archived_at :: int
  a_last_error :: "string option"

text \<open>\<open>arch_seq\<close> is the next value of the identity column of the archive.\<close>

record tables =
  dedup :: "dedup_row list"
  hot :: "hot_row list"
  archive :: "archive_row list"
  arch_seq :: int

section \<open>What is outside the repository\<close>

text \<open>
  Reasons for which the server (or the driver) refuses a statement before it has any effect.
\<close>

datatype pg_reject = Bad_value | Null_value | Int_range | Neg_limit | Too_many_params | In_failed_tx

text \<open>
  \<open>ts_in\<close>: what a \<open>TIMESTAMPTZ\<close> column stores for a Go instant (it has microsecond resolution).
  \<open>text_ok\<close>: the server accepts this text in the database encoding.
  \<open>varchar_in n\<close>: the value a \<open>VARCHAR(n)\<close> column stores for a text, \<open>None\<close> when it is refused.
  \<open>jsonb_in\<close>: the text a \<open>JSONB\<close> column returns for the JSON text written to it, \<open>None\<close> when it is
  not acceptable JSON. \<open>reject_text\<close>: the text of the driver's error. \<open>max_params\<close>: how many
  positional parameters a statement may have. \<open>interval_ok\<close>: the server accepts this many milliseconds
  as an interval to subtract from the current time. \<open>f64_conv\<close>: the platform's out-of-range conversion
  of a \<open>float64\<close>. \<open>gtexts\<close>: texts that the Go library puts into error messages.
\<close>

record ext =
  ts_in :: "int \<Rightarrow> int"
  text_ok :: "string \<Rightarrow> bool"
  varchar_in :: "nat \<Rightarrow> string \<Rightarrow> string option"
  jsonb_in :: "string \<Rightarrow> string option"
  reject_text :: "pg_reject \<Rightarrow> string"
  max_params :: nat
  interval_ok :: "int \<Rightarrow> bool"
  f64_conv :: "f64 \<Rightarrow> int"
  gtexts :: go_texts

section \<open>The world of a call\<close>

text \<open>
  What happens at one call to the database: how far the server's and the application's clocks have
  moved, which rows other sessions hold locked, and whether the call fails: before the server did
  anything, or after it finished, so that only the acknowledgement is lost. The rows of a query can
  also break off: \<open>ev_stream\<close> says after how many rows, with which error, and whether the statement took
  effect all the same.
\<close>

datatype fault = Fault_before string | Fault_after string

record event =
  ev_db :: int
  ev_app :: int
  ev_locked :: "string list"
  ev_fault :: "fault option"
  ev_stream :: "(nat \<times> string \<times> bool) option"

definition quiet :: event where
  "quiet = \<lparr>ev_db = 0, ev_app = 0, ev_locked = [], ev_fault = None, ev_stream = None\<rparr>"

text \<open>
  \<open>script\<close> says what happens at the next calls (nothing special once it is used up); \<open>randoms\<close> what
  the random source yields; \<open>aborted\<close> and \<open>tx_now\<close> belong to the transaction of the connection, if
  there is one; \<open>obs\<close> collects metrics and log events.
\<close>

record world =
  tabs :: tables
  db_now :: int
  app_now :: int
  tx_now :: int
  aborted :: bool
  script :: "event list"
  randoms :: "string option list"
  obs :: "obs list"

definition tick :: "world \<Rightarrow> event \<times> world" where
  "tick w =
     (case script w of
        [] \<Rightarrow> (quiet, w)
      | e # es \<Rightarrow> (e, w\<lparr>script := es, db_now := db_now w + ev_db e, app_now := app_now w + ev_app e\<rparr>))"

definition emit :: "obs \<Rightarrow> world \<Rightarrow> world" where
  "emit e w = w\<lparr>obs := obs w @ [e]\<rparr>"

section \<open>database/sql\<close>

text \<open>The two implementations of \<open>DBTX\<close>: the pool, where each statement commits, and a transaction.\<close>

datatype dbtx = DB | TX

text \<open>
  A statement: given the rows locked by others, the value of \<open>now()\<close> and the tables, it is refused
  or yields a result and the new tables.
\<close>

type_synonym 'a stmt = "string list \<Rightarrow> int \<Rightarrow> tables \<Rightarrow> pg_reject + 'a \<times> tables"

text \<open>A failed statement leaves a transaction unusable.\<close>

definition poison :: "dbtx \<Rightarrow> world \<Rightarrow> world" where
  "poison h w = (if h = TX then w\<lparr>aborted := True\<rparr> else w)"

text \<open>In a transaction \<open>now()\<close> is the time at which it began.\<close>

definition stmt_now :: "dbtx \<Rightarrow> world \<Rightarrow> int" where
  "stmt_now h w = (if h = TX then tx_now w else db_now w)"

definition exec :: "ext \<Rightarrow> dbtx \<Rightarrow> 'a stmt \<Rightarrow> world \<Rightarrow> (err + 'a) \<times> world" where
  "exec x h st w =
     (let (ev, w1) = tick w in
      if h = TX \<and> aborted w1 then (Inl (External (reject_text x In_failed_tx)), w1)
      else (case ev_fault ev of
              Some (Fault_before t) \<Rightarrow> (Inl (External t), poison h w1)
            | Some (Fault_after t) \<Rightarrow>
                (case st (ev_locked ev) (stmt_now h w1) (tabs w1) of
                   Inl rj \<Rightarrow> (Inl (External t), poison h w1)
                 | Inr (a, ts) \<Rightarrow>
                     (Inl (External t), if h = TX then poison h w1 else w1\<lparr>tabs := ts\<rparr>))
            | None \<Rightarrow>
                (case st (ev_locked ev) (stmt_now h w1) (tabs w1) of
                   Inl rj \<Rightarrow> (Inl (External (reject_text x rj)), poison h w1)
                 | Inr (a, ts) \<Rightarrow> (Inr a, w1\<lparr>tabs := ts\<rparr>))))"

text \<open>
  \<open>QueryContext\<close> and the iteration over its rows: the rows that \<open>Next\<close> yields, and what \<open>Err\<close> says after
  the last of them. A transaction in which the rows broke off is unusable.
\<close>

definition query :: "ext \<Rightarrow> dbtx \<Rightarrow> 'r list stmt \<Rightarrow> world \<Rightarrow> (err + 'r list \<times> err option) \<times> world" where
  "query x h st w =
     (case exec x h st w of
        (Inl e, w') \<Rightarrow> (Inl e, w')
      | (Inr rows, w') \<Rightarrow>
          (case ev_stream (fst (tick w)) of
             None \<Rightarrow> (Inr (rows, None), w')
           | Some (n, t, took_effect) \<Rightarrow>
               (Inr (take n rows, Some (External t)),
                if h = DB \<and> took_effect then w' else poison h (w'\<lparr>tabs := tabs w\<rparr>))))"

text \<open>\<open>BeginTx\<close>; the tables to come back to are those of the returned world.\<close>

definition begin_tx :: "world \<Rightarrow> (err + unit) \<times> world" where
  "begin_tx w =
     (let (ev, w1) = tick w in
      case ev_fault ev of
        Some (Fault_before t) \<Rightarrow> (Inl (External t), w1)
      | Some (Fault_after t) \<Rightarrow> (Inl (External t), w1)
      | None \<Rightarrow> (Inr (), w1\<lparr>aborted := False, tx_now := db_now w1\<rparr>))"

text \<open>Rolling back restores the rows; an identity sequence never goes back.\<close>

definition rollback_tx :: "tables \<Rightarrow> world \<Rightarrow> world" where
  "rollback_tx saved w = w\<lparr>tabs := saved\<lparr>arch_seq := arch_seq (tabs w)\<rparr>, aborted := False\<rparr>"

text \<open>
  \<open>Commit\<close>: a transaction with a failed statement is rolled back and reported; when only the
  acknowledgement is lost the work is committed although an error is returned.
\<close>

definition commit_tx :: "ext \<Rightarrow> tables \<Rightarrow> world \<Rightarrow> (err + unit) \<times> world" where
  "commit_tx x saved w =
     (let (ev, w1) = tick w in
      if aborted w1 then (Inl (External (reject_text x In_failed_tx)), rollback_tx saved w1)
      else (case ev_fault ev of
              Some (Fault_before t) \<Rightarrow> (Inl (External t), rollback_tx saved w1)
            | Some (Fault_after t) \<Rightarrow> (Inl (External t), w1)
            | None \<Rightarrow> (Inr (), w1)))"

text \<open>
  The shape in which the program uses a transaction: begin, then statements of which the first
  that fails is wrapped and returned after the deferred rollback, then commit. \<open>wr\<close> is how the
  caller wraps the error, \<open>k\<close> the rest of the function.
\<close>

definition begin_do ::
  "(err \<Rightarrow> err) \<Rightarrow> (tables \<Rightarrow> world \<Rightarrow> (err + 'b) \<times> world) \<Rightarrow> world \<Rightarrow> (err + 'b) \<times> world" where
  "begin_do wr k w =
     (case begin_tx w of
        (Inl e, w0) \<Rightarrow> (Inl (wr e), w0)
      | (Inr _, w0) \<Rightarrow> k (tabs w0) w0)"

definition tx_do ::
  "ext \<Rightarrow> tables \<Rightarrow> (err \<Rightarrow> err) \<Rightarrow> 'a stmt \<Rightarrow> ('a \<Rightarrow> world \<Rightarrow> (err + 'b) \<times> world) \<Rightarrow> world \<Rightarrow> (err + 'b) \<times> world" where
  "tx_do x saved wr st k w =
     (case exec x TX st w of
        (Inl e, w1) \<Rightarrow> (Inl (wr e), rollback_tx saved w1)
      | (Inr a, w1) \<Rightarrow> k a w1)"

text \<open>A query in a transaction; the rest of the function reads its rows.\<close>

definition tx_query ::
  "ext \<Rightarrow> tables \<Rightarrow> (err \<Rightarrow> err) \<Rightarrow> 'r list stmt \<Rightarrow> ('r list \<Rightarrow> err option \<Rightarrow> world \<Rightarrow> (err + 'b) \<times> world)
     \<Rightarrow> world \<Rightarrow> (err + 'b) \<times> world" where
  "tx_query x saved wr st k w =
     (case query x TX st w of
        (Inl e, w1) \<Rightarrow> (Inl (wr e), rollback_tx saved w1)
      | (Inr (rows, rowsErr), w1) \<Rightarrow> k rows rowsErr w1)"

definition commit_do :: "ext \<Rightarrow> tables \<Rightarrow> (err \<Rightarrow> err) \<Rightarrow> 'b \<Rightarrow> world \<Rightarrow> (err + 'b) \<times> world" where
  "commit_do x saved wr v w =
     (case commit_tx x saved w of
        (Inl e, w1) \<Rightarrow> (Inl (wr e), w1)
      | (Inr _, w1) \<Rightarrow> (Inr v, w1))"

text \<open>
  The internal transaction of the functions that otherwise run \<open>body\<close> in the caller's: the error of
  \<open>body\<close> and of the commit is returned as it is.
\<close>

definition own_tx :: "ext \<Rightarrow> (err \<Rightarrow> err) \<Rightarrow> (world \<Rightarrow> err option \<times> world) \<Rightarrow> world \<Rightarrow> err option \<times> world" where
  "own_tx x wr body w =
     (case begin_tx w of
        (Inl e, w0) \<Rightarrow> (Some (wr e), w0)
      | (Inr _, w0) \<Rightarrow>
          (case body w0 of
             (Some e, w1) \<Rightarrow> (Some e, rollback_tx (tabs w0) w1)
           | (None, w1) \<Rightarrow>
               (case commit_tx x (tabs w0) w1 of
                  (Inl e, w2) \<Rightarrow> (Some e, w2)
                | (Inr _, w2) \<Rightarrow> (None, w2))))"

section \<open>Facts\<close>

lemma tick_simps [simp]:
  "tick w = (ev, w1) \<Longrightarrow> tabs w1 = tabs w"
  "tick w = (ev, w1) \<Longrightarrow> aborted w1 = aborted w"
  "tick w = (ev, w1) \<Longrightarrow> tx_now w1 = tx_now w"
  "tick w = (ev, w1) \<Longrightarrow> obs w1 = obs w"
  "tick w = (ev, w1) \<Longrightarrow> randoms w1 = randoms w"
  by (auto simp: tick_def split: list.splits)

lemma emit_simps [simp]:
  "tabs (emit e w) = tabs w" "db_now (emit e w) = db_now w" "app_now (emit e w) = app_now w"
  "script (emit e w) = script w" "aborted (emit e w) = aborted w" "tx_now (emit e w) = tx_now w"
  "randoms (emit e w) = randoms w" "obs (emit e w) = obs w @ [e]"
  by (simp_all add: emit_def)

lemma poison_simps [simp]:
  "tabs (poison h w) = tabs w" "obs (poison h w) = obs w"
  "poison DB w = w" "aborted (poison TX w)"
  by (simp_all add: poison_def)

lemma rollback_tx_simps [simp]:
  "hot (tabs (rollback_tx s w)) = hot s" "dedup (tabs (rollback_tx s w)) = dedup s"
  "archive (tabs (rollback_tx s w)) = archive s" "obs (rollback_tx s w) = obs w"
  "arch_seq (tabs (rollback_tx s w)) = arch_seq (tabs w)"
  by (simp_all add: rollback_tx_def)

text \<open>
  Everything a client needs to know about \<open>exec\<close>: either the tables are as before, or they are
  what the statement makes of them; success means the latter; and inside a transaction a failure
  never changes them.
\<close>

lemma exec_Inr:
  assumes "exec x h st w = (Inr a, w')"
  shows "\<exists>locked now. st locked now (tabs w) = Inr (a, tabs w')"
    and "obs w' = obs w" and "h = TX \<Longrightarrow> \<not> aborted w \<and> \<not> aborted w' \<and> tx_now w' = tx_now w"
    and "h = TX \<Longrightarrow> \<exists>locked. st locked (tx_now w) (tabs w) = Inr (a, tabs w')"
    and "h = DB \<Longrightarrow> \<exists>locked. st locked (db_now w') (tabs w) = Inr (a, tabs w')"
  using assms
  by (cases h; auto simp: exec_def Let_def stmt_now_def split: prod.splits if_splits option.splits
      fault.splits sum.splits; blast)+

lemma exec_Inl:
  assumes "exec x h st w = (Inl e, w')"
  shows "tabs w' = tabs w \<or> h = DB \<and> (\<exists>locked a. st locked (db_now w') (tabs w) = Inr (a, tabs w'))"
    and "obs w' = obs w"
  using assms
  by (cases h; auto simp: exec_def Let_def stmt_now_def split: prod.splits if_splits option.splits
      fault.splits sum.splits; blast)+

lemma exec_TX_Inl: "exec x TX st w = (Inl e, w') \<Longrightarrow> tabs w' = tabs w"
  using exec_Inl(1) [of x TX st w e w'] by simp

lemma exec_tabs:
  assumes "exec x h st w = (res, w')"
  shows "tabs w' = tabs w \<or> (\<exists>locked now a. st locked now (tabs w) = Inr (a, tabs w'))"
proof (cases res)
  case (Inl e)
  then show ?thesis using exec_Inl(1) [of x h st w e w'] assms by auto
next
  case (Inr a)
  then show ?thesis using exec_Inr(1) [of x h st w a w'] assms by auto
qed

lemma exec_obs: "exec x h st w = (res, w') \<Longrightarrow> obs w' = obs w"
  by (cases res) (auto dest: exec_Inl(2) exec_Inr(2))

text \<open>With nothing left in the script, the outcome is the statement's.\<close>

lemma exec_quiet:
  assumes "script w = []" and "h = TX \<longrightarrow> \<not> aborted w"
  shows "exec x h st w =
     (case st [] (stmt_now h w) (tabs w) of
        Inl rj \<Rightarrow> (Inl (External (reject_text x rj)), poison h w)
      | Inr (a, ts) \<Rightarrow> (Inr a, w\<lparr>tabs := ts\<rparr>))"
  using assms by (cases h) (auto simp: exec_def tick_def quiet_def split: sum.split)

text \<open>A query is its statement, up to rows that are missing from a broken answer.\<close>

lemma query_complete: "query x h st w = (Inr (rows, None), w') \<Longrightarrow> exec x h st w = (Inr rows, w')"
  by (auto simp: query_def split: prod.splits sum.splits option.splits)

lemma query_Inl: "query x h st w = (Inl e, w') \<longleftrightarrow> exec x h st w = (Inl e, w')"
  by (auto simp: query_def split: prod.splits sum.splits option.splits)

lemma query_broken:
  assumes "query x h st w = (Inr (rows, Some e), w')"
  obtains n rs v where "exec x h st w = (Inr rs, v)" "rows = take n rs" "obs w' = obs w"
    "tabs w' = tabs w \<or> h = DB \<and> w' = v"
  using assms exec_obs [of x h st w]
  by (fastforce simp: query_def split: prod.splits sum.splits option.splits if_splits)

lemma query_tabs:
  assumes "query x h st w = (res, w')"
  shows "tabs w' = tabs w \<or> (\<exists>r. exec x h st w = (r, w'))"
  using assms by (auto simp: query_def split: prod.splits sum.splits option.splits if_splits)

lemma query_DB_tabs:
  assumes "query x DB st w = (res, w')"
  shows "tabs w' = tabs w \<and> (\<forall>rows. res \<noteq> Inr (rows, None))
     \<or> (\<exists>locked rows. st locked (db_now w') (tabs w) = Inr (rows, tabs w'))"
  using assms exec_Inl(1) [of x DB st w] exec_Inr(5) [of x DB st w]
  by (fastforce simp: query_def split: prod.splits sum.splits option.splits if_splits)

lemma query_obs: "query x h st w = (res, w') \<Longrightarrow> obs w' = obs w"
  using exec_obs [of x h st w] by (auto simp: query_def split: prod.splits sum.splits option.splits if_splits)

lemma query_quiet:
  assumes "script w = []" and "h = TX \<longrightarrow> \<not> aborted w"
  shows "query x h st w =
     (case st [] (stmt_now h w) (tabs w) of
        Inl rj \<Rightarrow> (Inl (External (reject_text x rj)), poison h w)
      | Inr (rows, ts) \<Rightarrow> (Inr (rows, None), w\<lparr>tabs := ts\<rparr>))"
  using exec_quiet [OF assms, of x st] assms(1)
  by (auto simp: query_def tick_def quiet_def split: sum.splits prod.splits)

lemma begin_tx_tabs: "begin_tx w = (res, w') \<Longrightarrow> tabs w' = tabs w \<and> obs w' = obs w"
  by (auto simp: begin_tx_def Let_def split: prod.splits option.splits fault.splits)

lemma begin_tx_Inr: "begin_tx w = (Inr u, w') \<Longrightarrow> \<not> aborted w' \<and> tx_now w' = db_now w'"
  by (auto simp: begin_tx_def Let_def split: prod.splits option.splits fault.splits)

lemma commit_tx_cases:
  assumes "commit_tx x saved w = (res, w')"
  shows "tabs w' = tabs w \<or> (\<exists>e. res = Inl e) \<and> tabs w' = saved\<lparr>arch_seq := arch_seq (tabs w)\<rparr>"
    and "obs w' = obs w"
  using assms
  by (auto simp: commit_tx_def rollback_tx_def Let_def split: prod.splits if_splits option.splits fault.splits)

lemma commit_tx_Inr: "commit_tx x saved w = (Inr u, w') \<Longrightarrow> tabs w' = tabs w"
  using commit_tx_cases(1) [of x saved w "Inr u" w'] by auto

text \<open>The ways through a transaction, one call at a time.\<close>

lemma begin_do_cases:
  assumes "begin_do wr k w = (res, w')"
  obtains (failed) e where "res = Inl (wr e)" "tabs w' = tabs w" "obs w' = obs w"
  | (go) w0 where "k (tabs w) w0 = (res, w')" "tabs w0 = tabs w" "obs w0 = obs w" "\<not> aborted w0"
  using assms begin_tx_tabs [of w] begin_tx_Inr [of w]
  by (fastforce simp: begin_do_def split: prod.splits sum.splits)

lemma tx_do_cases:
  assumes "tx_do x saved wr st k w = (res, w')"
  obtains (failed) e v where "res = Inl (wr e)" "w' = rollback_tx saved v" "tabs v = tabs w" "obs v = obs w"
  | (go) a v locked where "k a v = (res, w')" "st locked (tx_now w) (tabs w) = Inr (a, tabs v)"
      "obs v = obs w" "tx_now v = tx_now w"
proof (cases "exec x TX st w")
  case (Pair r v)
  show thesis
  proof (cases r)
    case (Inl e)
    then show ?thesis
      using failed [of e v] Pair assms exec_TX_Inl [of x st w e v] exec_obs [OF Pair]
      by (simp add: tx_do_def)
  next
    case (Inr a)
    then show ?thesis
      using go [of a v] Pair assms exec_Inr [of x TX st w a v] by (auto simp: tx_do_def)
  qed
qed

lemma tx_query_cases:
  assumes "tx_query x saved wr st k w = (res, w')"
  obtains (failed) e v where "res = Inl (wr e)" "w' = rollback_tx saved v" "tabs v = tabs w" "obs v = obs w"
  | (broken) rows n v locked now e t where "k (take n rows) (Some e) v = (res, w')" "tabs v = tabs w" "obs v = obs w"
      "st locked now (tabs w) = Inr (rows, t)"
  | (go) rows v locked where "k rows None v = (res, w')" "st locked (tx_now w) (tabs w) = Inr (rows, tabs v)"
      "obs v = obs w" "tx_now v = tx_now w"
proof (cases "query x TX st w")
  case (Pair r v)
  consider e where "r = Inl e" | rows e where "r = Inr (rows, Some e)" | rows where "r = Inr (rows, None)"
    by (cases r) (auto, metis option.exhaust surj_pair)
  then show thesis
  proof cases
    case 1
    then have "exec x TX st w = (Inl e, v)" using Pair by (simp add: query_Inl)
    from exec_TX_Inl [OF this] show ?thesis
      using failed [of e v] Pair 1 assms query_obs [OF Pair] by (simp add: tx_query_def)
  next
    case 2
    with Pair obtain n rs u where ex: "exec x TX st w = (Inr rs, u)" and rows: "rows = take n rs" and "tabs v = tabs w"
      by (auto elim: query_broken)
    then show ?thesis
      using broken [of n rs e v] exec_Inr(1) [OF ex] Pair 2 assms query_obs [OF Pair] by (auto simp: tx_query_def)
  next
    case 3
    then show ?thesis
      using go [of rows v] Pair assms exec_Inr [OF query_complete [of x TX st w rows v]]
      by (auto simp: tx_query_def)
  qed
qed

lemma commit_do_cases:
  assumes "commit_do x saved wr v w = (res, w')"
  obtains (committed) "res = Inr v" "tabs w' = tabs w" "obs w' = obs w"
  | (unacknowledged) e where "res = Inl (wr e)" "tabs w' = tabs w" "obs w' = obs w"
  | (failed) e where "res = Inl (wr e)" "tabs w' = saved\<lparr>arch_seq := arch_seq (tabs w)\<rparr>" "obs w' = obs w"
proof (cases "commit_tx x saved w")
  case (Pair r v')
  then show thesis
    using assms commit_tx_cases [OF Pair] that
    by (auto simp: commit_do_def split: sum.splits)
qed

text \<open>
  A body that keeps the identity sequence is all or nothing in a transaction of its own; an error
  for a change that happened can only come from the commit.
\<close>

lemma own_tx_cases:
  assumes "own_tx x wr body w = (res, w')"
    and "\<And>w0 r w1. body w0 = (r, w1) \<Longrightarrow> arch_seq (tabs w1) = arch_seq (tabs w0)"
  shows "(\<exists>e. res = Some e) \<and> tabs w' = tabs w
     \<or> (\<exists>w0 w1. body w0 = (None, w1) \<and> tabs w0 = tabs w \<and> tabs w' = tabs w1)"
proof -
  obtain r0 w0 where b: "begin_tx w = (r0, w0)" by fastforce
  have t0: "tabs w0 = tabs w" using begin_tx_tabs [OF b] by simp
  obtain r1 w1 where i: "body w0 = (r1, w1)" by fastforce
  obtain r2 w2 where c: "commit_tx x (tabs w0) w1 = (r2, w2)" by fastforce
  note out = assms(1) [unfolded own_tx_def b i c]
  show ?thesis
  proof (cases r0)
    case (Inl e)
    then show ?thesis using out t0 by auto
  next
    case r0: (Inr u)
    show ?thesis
    proof (cases r1)
      case (Some e)
      then show ?thesis using out r0 i assms(2) [OF i] t0 by (auto simp: rollback_tx_def)
    next
      case None
      have "tabs w' = tabs w2" and "\<And>e. r2 = Inl e \<Longrightarrow> res = Some e"
        using out r0 i c None by (auto split: sum.splits)
      with commit_tx_cases(1) [OF c] assms(2) [OF i] None i t0 show ?thesis by auto
    qed
  qed
qed

end
