(* ===== verification/Hot_Table.thy ===== *)
theory Hot_Table
  imports Database
begin

text \<open>
  The hot table as a data structure: lookup by its primary key, row-wise updates, insertion with
  \<open>ON CONFLICT DO NOTHING\<close>, deletion, and the coherence of a row's columns with its status. The
  locale \<open>row_update\<close> is the contract of every \<open>UPDATE\<close> statement of the program; the store and the
  maintenance operations interpret it.
\<close>

section \<open>Operations on a table\<close>

definition row_of :: "hot_row list \<Rightarrow> string \<Rightarrow> hot_row option" where
  "row_of rs mid = List.find (\<lambda>r. h_message_id r = mid) rs"

definition ids :: "hot_row list \<Rightarrow> string list" where
  "ids rs = map h_message_id rs"

definition upd_where :: "(hot_row \<Rightarrow> bool) \<Rightarrow> (hot_row \<Rightarrow> hot_row) \<Rightarrow> hot_row list \<Rightarrow> hot_row list" where
  "upd_where sel f rs = map (\<lambda>r. if sel r then f r else r) rs"

definition count_where :: "(hot_row \<Rightarrow> bool) \<Rightarrow> hot_row list \<Rightarrow> int" where
  "count_where sel rs = int (length (filter sel rs))"

text \<open>One row of \<open>INSERT ... ON CONFLICT (message_id) DO NOTHING\<close>.\<close>

definition insert_new :: "hot_row \<Rightarrow> hot_row list \<Rightarrow> hot_row list" where
  "insert_new r rs = (if h_message_id r \<in> set (ids rs) then rs else rs @ [r])"

section \<open>Well-formed tables\<close>

text \<open>
  A row is claimed exactly while it is \<open>PROCESSING\<close>, carries a terminal time exactly while it is
  \<open>FAILED\<close>, a fresh or re-queued row carries no trace of earlier attempts, a row in \<open>RETRY\<close> says
  when, a \<open>FAILED\<close> row says why, and error texts are bounded.
\<close>

definition row_ok :: "hot_row \<Rightarrow> bool" where
  "row_ok r \<longleftrightarrow>
     (h_status r = StatusProcessing \<longleftrightarrow> h_processing_by r \<noteq> None)
     \<and> (h_processing_by r = None \<longleftrightarrow> h_processing_at r = None)
     \<and> (h_status r = StatusFailed \<longleftrightarrow> h_processed_at r \<noteq> None)
     \<and> (h_status r = StatusFailed \<longrightarrow> h_last_error r \<noteq> None)
     \<and> (h_status r = StatusPending \<longrightarrow>
          h_next_retry_at r = None \<and> h_retry_count r = 0 \<and> h_last_error r = None)
     \<and> (h_status r = StatusRetry \<longrightarrow> h_next_retry_at r \<noteq> None)
     \<and> (case h_last_error r of None \<Rightarrow> True | Some e \<Rightarrow> length e \<le> maxErrorLen)"

text \<open>The columns that carry the message itself.\<close>

definition row_data ::
  "hot_row \<Rightarrow> string \<times> string option \<times> string \<times> string \<times> string option \<times> string option \<times> bool \<times> int \<times> int" where
  "row_data r =
     (h_message_id r, h_partition_key r, h_topic r, h_payload r, h_headers r, h_source r,
      h_encrypted r, h_max_retry r, h_created_at r)"

definition hot_ok :: "hot_row list \<Rightarrow> bool" where
  "hot_ok rs \<longleftrightarrow> distinct (ids rs) \<and> list_all row_ok rs"

lemma row_of_Some: "row_of rs mid = Some r \<Longrightarrow> r \<in> set rs \<and> h_message_id r = mid"
  by (auto simp: row_of_def find_Some_iff)

lemma row_of_None_iff: "row_of rs mid = None \<longleftrightarrow> mid \<notin> set (ids rs)"
  by (auto simp: row_of_def find_None_iff ids_def)

lemma row_of_mem:
  assumes "distinct (ids rs)" "r \<in> set rs"
  shows "row_of rs (h_message_id r) = Some r"
  using assms by (induction rs) (auto simp: row_of_def ids_def rev_image_eqI)

lemma row_of_filter:
  assumes "\<And>r. h_message_id r = mid \<Longrightarrow> P r"
  shows "row_of (filter P rs) mid = row_of rs mid"
  using assms by (induction rs) (auto simp: row_of_def)

lemma row_of_filter_out:
  assumes "\<And>r. h_message_id r = mid \<Longrightarrow> \<not> P r"
  shows "row_of (filter P rs) mid = None"
  using assms by (induction rs) (auto simp: row_of_def)

lemma row_of_append: "row_of (rs @ ss) mid = (case row_of rs mid of None \<Rightarrow> row_of ss mid | Some r \<Rightarrow> Some r)"
  by (induction rs) (auto simp: row_of_def)

lemma row_of_single: "row_of [r] mid = (if h_message_id r = mid then Some r else None)"
  by (simp add: row_of_def)

lemma row_of_insert_new:
  "row_of (insert_new r rs) mid =
     (if mid = h_message_id r \<and> row_of rs mid = None then Some r else row_of rs mid)"
proof (cases "row_of rs (h_message_id r)")
  case None
  then have "h_message_id r \<notin> set (ids rs)" by (simp add: row_of_None_iff)
  with None show ?thesis by (auto simp: insert_new_def row_of_append row_of_single split: option.split)
next
  case (Some q)
  then have "h_message_id r \<in> set (ids rs)" using row_of_None_iff [of rs "h_message_id r"] by auto
  with Some show ?thesis by (auto simp: insert_new_def)
qed

lemma set_ids_insert_new: "set (ids (insert_new r rs)) = insert (h_message_id r) (set (ids rs))"
  by (auto simp: insert_new_def ids_def)

lemma hot_ok_insert_new: "hot_ok rs \<Longrightarrow> row_ok r \<Longrightarrow> hot_ok (insert_new r rs)"
  by (auto simp: hot_ok_def insert_new_def ids_def)

lemma hot_ok_filter: "hot_ok rs \<Longrightarrow> hot_ok (filter P rs)"
  by (auto simp: hot_ok_def ids_def distinct_map_filter list_all_iff)

lemma hot_ok_row_of: "hot_ok rs \<Longrightarrow> row_of rs mid = Some r \<Longrightarrow> row_ok r"
  by (auto simp: hot_ok_def list_all_iff dest: row_of_Some)

lemma count_where_pos: "0 < count_where sel rs \<longleftrightarrow> (\<exists>r \<in> set rs. sel r)"
  by (auto simp: count_where_def filter_empty_conv)

lemma count_where_nonneg [simp]: "0 \<le> count_where sel rs"
  by (simp add: count_where_def)

text \<open>With a primary key, a condition that fixes the key selects at most one row.\<close>

lemma count_where_key:
  assumes "distinct (ids rs)" and "\<And>r. sel r \<Longrightarrow> h_message_id r = mid"
  shows "count_where sel rs = (case row_of rs mid of None \<Rightarrow> 0 | Some r \<Rightarrow> if sel r then 1 else 0)"
  using assms
proof (induction rs)
  case Nil
  then show ?case by (simp add: count_where_def row_of_def)
next
  case (Cons r rs)
  show ?case
  proof (cases "h_message_id r = mid")
    case True
    have "\<not> sel q" if "q \<in> set rs" for q
      using True Cons.prems(1) Cons.prems(2) [of q] that by (auto simp: ids_def) (metis image_eqI)
    then have "filter sel rs = []" by (simp add: filter_empty_conv)
    with True show ?thesis by (simp add: count_where_def row_of_def)
  next
    case False
    then have "\<not> sel r" using Cons.prems(2) by blast
    with False Cons show ?thesis by (simp add: count_where_def row_of_def ids_def)
  qed
qed

section \<open>The contract of an UPDATE\<close>

locale row_update =
  fixes sel :: "hot_row \<Rightarrow> bool" and upd :: "hot_row \<Rightarrow> hot_row"
  assumes upd_data: "row_data (upd r) = row_data r"
    and upd_ok: "row_ok r \<Longrightarrow> sel r \<Longrightarrow> row_ok (upd r)"
begin

lemma upd_id [simp]: "h_message_id (upd r) = h_message_id r"
  using upd_data [of r] by (simp add: row_data_def)

lemma ids_upd: "ids (upd_where sel upd rs) = ids rs"
  by (simp add: ids_def upd_where_def)

lemma data_upd: "map row_data (upd_where sel upd rs) = map row_data rs"
  by (simp add: upd_where_def upd_data)

lemma hot_ok_upd: "hot_ok rs \<Longrightarrow> hot_ok (upd_where sel upd rs)"
  by (simp add: hot_ok_def ids_upd) (auto simp: list_all_iff upd_where_def upd_ok)

lemma row_of_upd:
  "row_of (upd_where sel upd rs) mid = map_option (\<lambda>r. if sel r then upd r else r) (row_of rs mid)"
  by (induction rs) (auto simp: row_of_def upd_where_def)

lemma upd_none: "(\<And>r. r \<in> set rs \<Longrightarrow> \<not> sel r) \<Longrightarrow> upd_where sel upd rs = rs"
  by (simp add: upd_where_def map_idI)

end

end
