(* ===== verification/Table_Spec.thy ===== *)
theory Table_Spec
  imports Hot_Table
begin

text \<open>
  What the program promises about its tables, independently of how: the life cycle of a message as
  a small state machine, the well-formedness of the three tables, and the atomic changes a
  committed statement or transaction may make. The locale \<open>sound_stmt\<close> is the contract between a
  SQL statement and the code that executes it; every statement of the program interprets it, and
  every operation is then proved to be a run of such changes.
\<close>

section \<open>The life cycle of a message\<close>

text \<open>The changes of status that one statement may make to a row.\<close>

fun moves :: "status \<Rightarrow> status \<Rightarrow> bool" where
  "moves StatusPending s \<longleftrightarrow> s = StatusProcessing \<or> s = StatusFailed"
| "moves StatusRetry s \<longleftrightarrow> s = StatusProcessing \<or> s = StatusFailed"
| "moves StatusProcessing s \<longleftrightarrow> s = StatusRetry \<or> s = StatusFailed"
| "moves StatusFailed s \<longleftrightarrow> s = StatusPending \<or> s = StatusFailed"

definition row_step :: "hot_row \<Rightarrow> hot_row \<Rightarrow> bool" where
  "row_step r r' \<longleftrightarrow>
     r' = r \<or> row_data r' = row_data r \<and> (row_ok r \<longrightarrow> row_ok r') \<and> moves (h_status r) (h_status r')"

text \<open>The status from which a message may leave the hot table, for each final status.\<close>

fun finishes :: "final_status \<Rightarrow> status \<Rightarrow> bool" where
  "finishes FinalProcessed s \<longleftrightarrow> s = StatusProcessing"
| "finishes FinalFailed s \<longleftrightarrow> s = StatusFailed"

text \<open>The archive row records the hot row it was made from.\<close>

definition archived :: "final_status \<Rightarrow> hot_row \<Rightarrow> archive_row \<Rightarrow> bool" where
  "archived fs r a \<longleftrightarrow>
     a_message_id a = h_message_id r \<and> a_partition_key a = h_partition_key r \<and> a_topic a = h_topic r
     \<and> a_payload a = h_payload r \<and> a_headers a = h_headers r \<and> a_source a = h_source r
     \<and> a_encrypted a = h_encrypted r \<and> a_created_at a = h_created_at r
     \<and> a_retry_count a = h_retry_count r \<and> a_last_error a = h_last_error r
     \<and> a_final_status a = fs \<and> a_processed_at a \<noteq> None"

section \<open>Well-formed tables\<close>

definition dedup_ids :: "dedup_row list \<Rightarrow> string list" where
  "dedup_ids ds = map d_message_id ds"

definition archive_ok :: "int \<Rightarrow> archive_row list \<Rightarrow> bool" where
  "archive_ok n as \<longleftrightarrow>
     distinct (map a_id as)
     \<and> list_all (\<lambda>a. a_id a < n \<and> a_processed_at a \<noteq> None
          \<and> (a_final_status a = FinalFailed \<longrightarrow> a_last_error a \<noteq> None)) as"

definition tables_ok :: "tables \<Rightarrow> bool" where
  "tables_ok t \<longleftrightarrow> hot_ok (hot t) \<and> distinct (dedup_ids (dedup t)) \<and> archive_ok (arch_seq t) (archive t)"

section \<open>Atomic changes\<close>

datatype act = Add_hot | Move | Finish | Add_dedup | Del_dedup | Del_archive | Burn_ids

inductive table_step :: "act \<Rightarrow> tables \<Rightarrow> tables \<Rightarrow> bool" where
  Add_hot: "h_message_id r \<notin> set (ids (hot t)) \<Longrightarrow> h_status r = StatusPending \<Longrightarrow> row_ok r
     \<Longrightarrow> table_step Add_hot t (t\<lparr>hot := hot t @ [r]\<rparr>)"
| Move: "list_all2 row_step (hot t) rs \<Longrightarrow> table_step Move t (t\<lparr>hot := rs\<rparr>)"
| Finish: "list_all (\<lambda>r. P r \<longrightarrow> finishes fs (h_status r)) (hot t)
     \<Longrightarrow> list_all2 (archived fs) (filter P (hot t)) as
     \<Longrightarrow> map a_id as = map (\<lambda>i. arch_seq t + int i) [0..<length as]
     \<Longrightarrow> table_step Finish t (t\<lparr>hot := filter (\<lambda>r. \<not> P r) (hot t), archive := archive t @ as,
           arch_seq := arch_seq t + int (length as)\<rparr>)"
| Add_dedup: "d_message_id d \<notin> set (dedup_ids (dedup t))
     \<Longrightarrow> table_step Add_dedup t (t\<lparr>dedup := dedup t @ [d]\<rparr>)"
| Del_dedup: "table_step Del_dedup t (t\<lparr>dedup := filter Q (dedup t)\<rparr>)"
| Del_archive: "table_step Del_archive t (t\<lparr>archive := filter R (archive t)\<rparr>)"
| Burn_ids: "arch_seq t \<le> n \<Longrightarrow> table_step Burn_ids t (t\<lparr>arch_seq := n\<rparr>)"

inductive_cases table_stepE: "table_step a t t'"

text \<open>Runs of changes of given kinds.\<close>

definition runs :: "act set \<Rightarrow> tables \<Rightarrow> tables \<Rightarrow> bool" where
  "runs A = (\<lambda>t t'. \<exists>a \<in> A. table_step a t t')\<^sup>*\<^sup>*"

lemma runs_refl [simp, intro]: "runs A t t"
  by (simp add: runs_def)

lemma runs_step: "table_step a t t' \<Longrightarrow> a \<in> A \<Longrightarrow> runs A t t'"
  unfolding runs_def by blast

lemma runs_trans [trans]: "runs A t t' \<Longrightarrow> runs A t' t'' \<Longrightarrow> runs A t t''"
  unfolding runs_def by (rule rtranclp_trans)

lemma runs_mono: "runs A t t' \<Longrightarrow> A \<subseteq> B \<Longrightarrow> runs B t t'"
  unfolding runs_def by (rule mono_rtranclp [rule_format, rotated]) blast+

lemma runs_invariant:
  assumes "runs A t t'" and "I t"
    and "\<And>a t t'. a \<in> A \<Longrightarrow> table_step a t t' \<Longrightarrow> I t \<Longrightarrow> I t'"
  shows "I t'"
  using assms(1,2) unfolding runs_def by (induction rule: rtranclp_induct) (auto intro: assms(3))

section \<open>What every run keeps\<close>

lemma row_stepI:
  "row_data r' = row_data r \<Longrightarrow> (row_ok r \<Longrightarrow> row_ok r') \<Longrightarrow> moves (h_status r) (h_status r') \<Longrightarrow> row_step r r'"
  by (simp add: row_step_def)

lemma row_step_id: "row_step r r' \<Longrightarrow> h_message_id r' = h_message_id r"
  by (auto simp: row_step_def row_data_def)

lemma row_step_ok: "row_step r r' \<Longrightarrow> row_ok r \<Longrightarrow> row_ok r'"
  by (auto simp: row_step_def)

lemma row_steps_ids: "list_all2 row_step rs rs' \<Longrightarrow> ids rs' = ids rs"
  by (induction rule: list_all2_induct) (auto simp: ids_def row_step_id)

lemma row_steps_ok: "list_all2 row_step rs rs' \<Longrightarrow> list_all row_ok rs \<Longrightarrow> list_all row_ok rs'"
  by (induction rule: list_all2_induct) (auto simp: row_step_ok)

lemma hot_ok_steps: "list_all2 row_step rs rs' \<Longrightarrow> hot_ok rs \<Longrightarrow> hot_ok rs'"
  by (simp add: hot_ok_def row_steps_ids row_steps_ok)

lemma row_of_steps:
  "list_all2 row_step rs rs' \<Longrightarrow> row_of rs mid = Some r \<Longrightarrow> \<exists>r'. row_of rs' mid = Some r' \<and> row_step r r'"
  by (induction rule: list_all2_induct) (auto simp: row_of_def row_step_id split: if_splits)

lemma archived_failed_error:
  "archived FinalFailed r a \<Longrightarrow> row_ok r \<Longrightarrow> finishes FinalFailed (h_status r) \<Longrightarrow> a_last_error a \<noteq> None"
  by (auto simp: archived_def row_ok_def)

lemma list_all2_member: "list_all2 R xs ys \<Longrightarrow> y \<in> set ys \<Longrightarrow> \<exists>x \<in> set xs. R x y"
  by (induction rule: list_all2_induct) auto

lemma archive_ok_finish:
  assumes "archive_ok n as" and "hot_ok rs" and "list_all (\<lambda>r. P r \<longrightarrow> finishes fs (h_status r)) rs"
    and arch: "list_all2 (archived fs) (filter P rs) bs"
    and nums: "map a_id bs = map (\<lambda>i. n + int i) [0..<length bs]"
  shows "archive_ok (n + int (length bs)) (as @ bs)"
proof -
  have "b \<in> set bs \<Longrightarrow> \<exists>r \<in> set (filter P rs). archived fs r b" for b
    using arch by (rule list_all2_member)
  then have good: "a_processed_at b \<noteq> None \<and> (a_final_status b = FinalFailed \<longrightarrow> a_last_error b \<noteq> None)"
    if "b \<in> set bs" for b
    using that assms(2,3) by (fastforce simp: archived_def hot_ok_def list_all_iff row_ok_def)
  have "a_id ` set bs = (\<lambda>i. n + int i) ` {0..<length bs}"
    using arg_cong [OF nums, of set] by simp
  then have new: "n \<le> a_id b \<and> a_id b < n + int (length bs)" if "b \<in> set bs" for b
    using that by (force simp: set_eq_iff image_iff)
  have "distinct (map a_id bs)" by (simp add: nums distinct_map inj_on_def)
  with assms(1) new good show ?thesis
    by (auto simp: archive_ok_def list_all_iff) force+
qed

lemma tables_ok_step: "table_step a t t' \<Longrightarrow> tables_ok t \<Longrightarrow> tables_ok t'"
proof (induction rule: table_step.induct)
  case (Add_hot r t)
  then show ?case using hot_ok_insert_new [of "hot t" r] by (simp add: tables_ok_def insert_new_def)
next
  case (Move t rs)
  then show ?case by (simp add: tables_ok_def hot_ok_steps)
next
  case (Finish P fs t as)
  then show ?case
    using archive_ok_finish [of "arch_seq t" "archive t" "hot t" P fs as]
    by (simp add: tables_ok_def hot_ok_filter)
next
  case (Del_dedup t Q)
  then show ?case by (auto simp: tables_ok_def dedup_ids_def distinct_map_filter)
next
  case (Del_archive t R)
  then show ?case by (auto simp: tables_ok_def archive_ok_def list_all_iff distinct_map_filter)
next
  case (Burn_ids t n)
  then show ?case by (auto simp: tables_ok_def archive_ok_def list_all_iff)
qed (auto simp: tables_ok_def dedup_ids_def)

lemma tables_ok_runs: "runs A t t' \<Longrightarrow> tables_ok t \<Longrightarrow> tables_ok t'"
  by (erule runs_invariant) (auto intro: tables_ok_step)

text \<open>Identity values are never handed out twice.\<close>

lemma arch_seq_step: "table_step a t t' \<Longrightarrow> arch_seq t \<le> arch_seq t'"
  by (induction rule: table_step.induct) auto

lemma arch_seq_runs: "runs A t t' \<Longrightarrow> arch_seq t \<le> arch_seq t'"
  by (erule runs_invariant [where I = "\<lambda>u. arch_seq t \<le> arch_seq u"]) (auto dest: arch_seq_step)

text \<open>
  A message whose row was \<open>r\<close> is safe: its row is still there with the same data, or the archive
  has a row made from it, numbered \<open>n\<close> or later.
\<close>

definition safe :: "int \<Rightarrow> hot_row \<Rightarrow> tables \<Rightarrow> bool" where
  "safe n r t \<longleftrightarrow>
     (\<exists>r'. row_of (hot t) (h_message_id r) = Some r' \<and> row_data r' = row_data r)
     \<or> (\<exists>a \<in> set (archive t). n \<le> a_id a \<and> a_message_id a = h_message_id r \<and> a_topic a = h_topic r
          \<and> a_payload a = h_payload r \<and> a_headers a = h_headers r \<and> a_encrypted a = h_encrypted r)"

lemma row_data_id: "row_data r' = row_data r \<Longrightarrow> h_message_id r' = h_message_id r"
  by (simp add: row_data_def)

lemma list_all2_image: "list_all2 R xs ys \<Longrightarrow> x \<in> set xs \<Longrightarrow> \<exists>y \<in> set ys. R x y"
  by (induction rule: list_all2_induct) auto

lemma safe_finish:
  assumes "hot_ok rs" and "row_of rs (h_message_id r) = Some q" and "row_data q = row_data r"
    and "list_all2 (archived fs) (filter P rs) as"
    and "map a_id as = map (\<lambda>i. m + int i) [0..<length as]" and "n \<le> m"
  shows "safe n r (t\<lparr>hot := filter (\<lambda>r. \<not> P r) rs, archive := bs @ as, arch_seq := k\<rparr>)"
proof (cases "P q")
  case True
  have q: "q \<in> set rs" using assms(2) row_of_Some by blast
  then obtain a where a: "a \<in> set as" "archived fs q a"
    using True list_all2_image [OF assms(4), of q] by auto
  have "a_id a \<in> set (map (\<lambda>i. m + int i) [0..<length as])"
    using a(1) assms(5) by (metis image_eqI list.set_map)
  then have "n \<le> a_id a" using assms(6) by auto
  with a assms(3) show ?thesis by (auto simp: safe_def archived_def row_data_def)
next
  case False
  have "q \<in> set (filter (\<lambda>r. \<not> P r) rs)" using False assms(2) row_of_Some by auto
  moreover have "distinct (ids (filter (\<lambda>r. \<not> P r) rs))"
    using assms(1) hot_ok_filter hot_ok_def by blast
  ultimately have "row_of (filter (\<lambda>r. \<not> P r) rs) (h_message_id q) = Some q"
    by (simp add: row_of_mem)
  with assms(3) show ?thesis by (auto simp: safe_def row_data_def)
qed

lemma safe_step:
  assumes "table_step a t t'" and "a \<noteq> Del_archive" and "hot_ok (hot t)" and "n \<le> arch_seq t"
    and "safe n r t"
  shows "safe n r t'"
  using assms
proof (induction rule: table_step.induct)
  case (Add_hot r' t)
  then show ?case by (auto simp: safe_def row_of_append)
next
  case (Move t rs)
  have keep: "\<exists>q'. row_of rs (h_message_id r) = Some q' \<and> row_data q' = row_data r"
    if "row_of (hot t) (h_message_id r) = Some q" "row_data q = row_data r" for q
    using row_of_steps [OF Move.hyps that(1)] that(2) by (auto simp: row_step_def)
  from Move.prems(4) show ?case by (auto simp: safe_def dest: keep)
next
  case (Finish P fs t as)
  show ?case
  proof (cases "\<exists>q. row_of (hot t) (h_message_id r) = Some q \<and> row_data q = row_data r")
    case True
    then obtain q where "row_of (hot t) (h_message_id r) = Some q" "row_data q = row_data r" by blast
    then show ?thesis
      using safe_finish [of "hot t" r q fs P as "arch_seq t" n] Finish by simp
  next
    case False
    with Finish show ?thesis by (auto simp: safe_def)
  qed
qed (auto simp: safe_def)

lemma safe_runs:
  assumes "runs A t t'" and "Del_archive \<notin> A" and "tables_ok t" and "r \<in> set (hot t)"
  shows "safe (arch_seq t) r t'"
proof -
  have start: "safe (arch_seq t) r t"
    using assms(3,4) row_of_mem [of "hot t" r] by (auto simp: safe_def tables_ok_def hot_ok_def)
  have "tables_ok t' \<and> arch_seq t \<le> arch_seq t' \<and> safe (arch_seq t) r t'"
    using assms(1)
  proof (rule runs_invariant)
    show "tables_ok t \<and> arch_seq t \<le> arch_seq t \<and> safe (arch_seq t) r t"
      using start assms(3) by simp
  next
    fix a u u'
    assume "a \<in> A" "table_step a u u'" "tables_ok u \<and> arch_seq t \<le> arch_seq u \<and> safe (arch_seq t) r u"
    then show "tables_ok u' \<and> arch_seq t \<le> arch_seq u' \<and> safe (arch_seq t) r u'"
      using assms(2) safe_step [of a u u' "arch_seq t" r] tables_ok_step [of a u u']
        arch_seq_step [of a u u'] by (auto simp: tables_ok_def)
  qed
  then show ?thesis by simp
qed

section \<open>The contract of a statement\<close>

locale sound_stmt =
  fixes st :: "'a stmt" and A :: "act set"
  assumes sound: "tables_ok t \<Longrightarrow> st locked now t = Inr (v, t') \<Longrightarrow> runs A t t'"
begin

lemma exec_runs:
  assumes "exec x h st w = (res, w')" and "tables_ok (tabs w)"
  shows "runs A (tabs w) (tabs w')"
  using exec_tabs [OF assms(1)] sound assms(2) by auto

lemma exec_ok: "exec x h st w = (res, w') \<Longrightarrow> tables_ok (tabs w) \<Longrightarrow> tables_ok (tabs w')"
  by (blast intro: tables_ok_runs exec_runs)

end

text \<open>A statement that answers with rows is as sound when the rows break off.\<close>

locale sound_query = sound_stmt st A
  for st :: "'r list stmt" and A :: "act set"
begin

lemma query_runs:
  assumes "query x h st w = (res, w')" and "tables_ok (tabs w)"
  shows "runs A (tabs w) (tabs w')"
  using query_tabs [OF assms(1)] exec_runs assms(2) by auto

end

text \<open>Rolling back loses at most identity values.\<close>

lemma rollback_runs:
  "arch_seq saved \<le> arch_seq (tabs w) \<Longrightarrow> runs {Burn_ids} saved (tabs (rollback_tx saved w))"
  by (rule runs_step [of Burn_ids]) (auto simp: rollback_tx_def intro: table_step.Burn_ids)

lemma Move_upd_where:
  assumes "\<And>r. r \<in> set (hot t) \<Longrightarrow> sel r \<Longrightarrow> row_step r (f r)"
  shows "runs {Move} t (t\<lparr>hot := upd_where sel f (hot t)\<rparr>)"
  using assms
  by (intro runs_step [of Move] table_step.Move)
     (auto simp: upd_where_def list_all2_conv_all_nth row_step_def)

text \<open>
  The contract of an \<open>UPDATE\<close> whose answer is the number of rows it changed: \<open>sel now\<close> is its
  \<open>WHERE\<close> clause and \<open>upd now\<close> its \<open>SET\<close> list.
\<close>

locale counted_update =
  fixes st :: "int stmt" and sel :: "int \<Rightarrow> hot_row \<Rightarrow> bool" and upd :: "int \<Rightarrow> hot_row \<Rightarrow> hot_row"
  assumes effect: "st locked now t = Inr (v, t') \<Longrightarrow>
      v = count_where (sel now) (hot t) \<and> t' = t\<lparr>hot := upd_where (sel now) (upd now) (hot t)\<rparr>"
    and follows: "sel now r \<Longrightarrow> row_step r (upd now r)"
begin

lemma exec_cases:
  assumes "exec x DB st w = (res, w')"
  obtains (unchanged) e where "res = Inl e" "tabs w' = tabs w"
  | (unacknowledged) e where "res = Inl e"
      "tabs w' = (tabs w)\<lparr>hot := upd_where (sel (db_now w')) (upd (db_now w')) (hot (tabs w))\<rparr>"
  | (applied) "res = Inr (count_where (sel (db_now w')) (hot (tabs w)))"
      "tabs w' = (tabs w)\<lparr>hot := upd_where (sel (db_now w')) (upd (db_now w')) (hot (tabs w))\<rparr>"
proof (cases res)
  case (Inl e)
  then show thesis using exec_Inl(1) [of x DB st w e w'] assms unchanged unacknowledged effect by blast
next
  case (Inr v)
  then show thesis using exec_Inr(5) [of x DB st w v w'] assms applied effect by blast
qed

end

sublocale counted_update \<subseteq> sound_stmt st "{Move}"
proof
  fix t locked now v t'
  assume "st locked now t = Inr (v, t')"
  with effect have "t' = t\<lparr>hot := upd_where (sel now) (upd now) (hot t)\<rparr>" by blast
  then show "runs {Move} t t'" using Move_upd_where [of t "sel now" "upd now"] follows by blast
qed

end
