(* ===== verification/Columns.thy ===== *)
theory Columns
  imports Database
begin

text \<open>
  Rows as the driver hands them over: a query names its columns in a text (\<open>hotCols\<close>, \<open>archiveCols\<close>), the
  server answers with one value per name, and \<open>Rows.Scan\<close> assigns the values, by position, to typed
  destinations. Nothing but their order connects the two, so lemmas say which value arrives
  where; likewise for the two column lists of an \<open>INSERT INTO ... SELECT\<close>.
\<close>

section \<open>Column values\<close>

datatype sql_val = VNull | VText string | VBytes string | VTime int | VInt int | VBool bool

fun status_text :: "status \<Rightarrow> string" where
  "status_text StatusPending = ''PENDING''"
| "status_text StatusProcessing = ''PROCESSING''"
| "status_text StatusRetry = ''RETRY''"
| "status_text StatusFailed = ''FAILED''"

fun final_text :: "final_status \<Rightarrow> string" where
  "final_text FinalProcessed = ''PROCESSED''"
| "final_text FinalFailed = ''FAILED''"

definition opt_text :: "string option \<Rightarrow> sql_val" where
  "opt_text v = (case v of None \<Rightarrow> VNull | Some s \<Rightarrow> VText s)"

definition opt_bytes :: "string option \<Rightarrow> sql_val" where
  "opt_bytes v = (case v of None \<Rightarrow> VNull | Some s \<Rightarrow> VBytes s)"

definition opt_time :: "int option \<Rightarrow> sql_val" where
  "opt_time v = (case v of None \<Rightarrow> VNull | Some t \<Rightarrow> VTime t)"

text \<open>The columns of the two tables, by name, in the order of their definition in \<^verbatim>\<open>schema.go\<close>.\<close>

definition hot_values :: "hot_row \<Rightarrow> (string \<times> sql_val) list" where
  "hot_values r =
     [(''message_id'', VText (h_message_id r)), (''partition_key'', opt_text (h_partition_key r)),
      (''topic'', VText (h_topic r)), (''payload'', VBytes (h_payload r)),
      (''headers'', opt_bytes (h_headers r)), (''source'', opt_text (h_source r)),
      (''encrypted'', VBool (h_encrypted r)), (''status'', VText (status_text (h_status r))),
      (''retry_count'', VInt (h_retry_count r)), (''max_retry'', VInt (h_max_retry r)),
      (''next_retry_at'', opt_time (h_next_retry_at r)), (''processing_by'', opt_text (h_processing_by r)),
      (''processing_at'', opt_time (h_processing_at r)), (''created_at'', VTime (h_created_at r)),
      (''processed_at'', opt_time (h_processed_at r)), (''last_error'', opt_text (h_last_error r))]"

definition archive_values :: "archive_row \<Rightarrow> (string \<times> sql_val) list" where
  "archive_values r =
     [(''id'', VInt (a_id r)), (''message_id'', VText (a_message_id r)),
      (''partition_key'', opt_text (a_partition_key r)), (''topic'', VText (a_topic r)),
      (''payload'', VBytes (a_payload r)), (''headers'', opt_bytes (a_headers r)),
      (''source'', opt_text (a_source r)), (''encrypted'', VBool (a_encrypted r)),
      (''final_status'', VText (final_text (a_final_status r))), (''retry_count'', VInt (a_retry_count r)),
      (''created_at'', VTime (a_created_at r)), (''processed_at'', opt_time (a_processed_at r)),
      (''archived_at'', VTime (a_archived_at r)), (''last_error'', opt_text (a_last_error r))]"

section \<open>Column lists\<close>

definition hotCols :: string where
  "hotCols = ''message_id, partition_key, topic, payload, headers, source, encrypted, status, retry_count, max_retry, next_retry_at, processing_by, processing_at, created_at, processed_at, last_error''"

definition archiveCols :: string where
  "archiveCols = ''id, message_id, partition_key, topic, payload, headers, source, encrypted, final_status, retry_count, created_at, processed_at, archived_at, last_error''"

text \<open>The names in a comma-separated list.\<close>

fun split_cols :: "string \<Rightarrow> string \<Rightarrow> string list" where
  "split_cols acc [] = [rev acc]"
| "split_cols acc (c # cs) =
     (if c = CHR '','' then rev acc # split_cols [] cs
      else if c = CHR '' '' then split_cols acc cs
      else split_cols (c # acc) cs)"

text \<open>The values of the named columns, unless there is no such column.\<close>

definition project :: "(string \<times> sql_val) list \<Rightarrow> string \<Rightarrow> sql_val list option" where
  "project vals cols = those (map (map_of vals) (split_cols [] cols))"

text \<open>A statement whose answer consists of the named columns of the rows \<open>st\<close> yields.\<close>

definition returning :: "('r \<Rightarrow> (string \<times> sql_val) list) \<Rightarrow> string \<Rightarrow> 'r list stmt \<Rightarrow> sql_val list list stmt" where
  "returning vals cols st locked now t =
     (case st locked now t of
        Inl rj \<Rightarrow> Inl rj
      | Inr (rs, t') \<Rightarrow>
          (case those (map (\<lambda>r. project (vals r) cols) rs) of
             None \<Rightarrow> Inl Bad_value
           | Some vs \<Rightarrow> Inr (vs, t')))"

section \<open>INSERT INTO ... SELECT\<close>

text \<open>An item of a \<open>SELECT\<close> list is a quoted literal or the name of a column.\<close>

definition item_value :: "(string \<times> sql_val) list \<Rightarrow> string \<Rightarrow> sql_val option" where
  "item_value vals item =
     (case item of
        c # cs \<Rightarrow> if c = CHR 0x27 then Some (VText (butlast cs)) else map_of vals item
      | [] \<Rightarrow> None)"

text \<open>The columns of the new row that the items give: the n-th item for the n-th column.\<close>

definition select_into :: "string \<Rightarrow> string \<Rightarrow> (string \<times> sql_val) list \<Rightarrow> (string \<times> sql_val) list option" where
  "select_into cols items vals =
     map_option (zip (split_cols [] cols)) (those (map (item_value vals) (split_cols [] items)))"

definition archive_into :: string where
  "archive_into = ''message_id, partition_key, topic, payload, headers, source, encrypted, final_status, retry_count, created_at, processed_at, last_error''"

definition archive_from :: "final_status \<Rightarrow> string" where
  "archive_from fs =
     ''message_id, partition_key, topic, payload, headers, source, encrypted, '' @ [CHR 0x27] @ final_text fs @ [CHR 0x27]
     @ '', retry_count, created_at, processed_at, last_error''"

section \<open>Rows.Scan\<close>

text \<open>
  The destinations the program scans into: \<open>*string\<close>, \<open>*[]byte\<close>, \<open>*bool\<close>, \<open>*int\<close>, \<open>*time.Time\<close>, \<open>**time.Time\<close> and
  \<open>*sql.NullString\<close>. A destination accepts its own kind of value; only the last two and a byte slice
  accept \<open>NULL\<close>. (Go converts between some kinds; no column of the program needs it.)
\<close>

datatype dest = DString | DBytes | DBool | DInt | DTime | DTimePtr | DNullString

fun accepts :: "dest \<Rightarrow> sql_val \<Rightarrow> bool" where
  "accepts DString (VText _) = True"
| "accepts DBytes (VBytes _) = True"
| "accepts DBytes VNull = True"
| "accepts DBool (VBool _) = True"
| "accepts DInt (VInt _) = True"
| "accepts DTime (VTime _) = True"
| "accepts DTimePtr (VTime _) = True"
| "accepts DTimePtr VNull = True"
| "accepts DNullString (VText _) = True"
| "accepts DNullString VNull = True"
| "accepts _ _ = False"

fun scan_fault :: "nat \<Rightarrow> dest list \<Rightarrow> sql_val list \<Rightarrow> nat option" where
  "scan_fault n [] [] = None"
| "scan_fault n (d # ds) (v # vs) = (if accepts d v then scan_fault (n + 1) ds vs else Some n)"
| "scan_fault n _ _ = Some n"

definition rows_Scan :: "go_texts \<Rightarrow> dest list \<Rightarrow> sql_val list \<Rightarrow> err option" where
  "rows_Scan tx ds vs = map_option (\<lambda>n. External (tScan tx n)) (scan_fault 0 ds vs)"

text \<open>What a destination holds after it was assigned an acceptable value.\<close>

fun val_text :: "sql_val \<Rightarrow> string" where
  "val_text (VText s) = s"
| "val_text _ = ''''"

fun val_opt_text :: "sql_val \<Rightarrow> string option" where
  "val_opt_text (VText s) = Some s"
| "val_opt_text _ = None"

fun val_opt_bytes :: "sql_val \<Rightarrow> string option" where
  "val_opt_bytes (VBytes s) = Some s"
| "val_opt_bytes _ = None"

fun val_bool :: "sql_val \<Rightarrow> bool" where
  "val_bool (VBool b) = b"
| "val_bool _ = False"

fun val_int :: "sql_val \<Rightarrow> int" where
  "val_int (VInt i) = i"
| "val_int _ = 0"

fun val_opt_time :: "sql_val \<Rightarrow> int option" where
  "val_opt_time (VTime t) = Some t"
| "val_opt_time _ = None"

definition val_bytes :: "sql_val \<Rightarrow> string" where
  "val_bytes v = (case val_opt_bytes v of None \<Rightarrow> [] | Some s \<Rightarrow> s)"

definition val_time :: "sql_val \<Rightarrow> int" where
  "val_time v = (case val_opt_time v of None \<Rightarrow> 0 | Some t \<Rightarrow> t)"

text \<open>The typed constants of \<^verbatim>\<open>message.go\<close> behind the texts that the status columns hold.\<close>

definition status_of :: "string \<Rightarrow> status option" where
  "status_of s = List.find (\<lambda>st. status_text st = s) [StatusPending, StatusProcessing, StatusRetry, StatusFailed]"

definition final_of :: "string \<Rightarrow> final_status" where
  "final_of s = (if s = final_text FinalProcessed then FinalProcessed else FinalFailed)"

section \<open>Facts\<close>

lemma status_of_text [simp]: "status_of (status_text st) = Some st"
  by (cases st) (simp_all add: status_of_def)

lemma final_of_text [simp]: "final_of (final_text fs) = fs"
  by (cases fs) (simp_all add: final_of_def)

lemma val_opt_simps [simp]:
  "val_opt_text (opt_text v) = v" "val_opt_bytes (opt_bytes b) = b" "val_opt_time (opt_time t) = t"
  "val_bytes (VBytes s) = s" "val_time (VTime i) = i"
  by (simp_all add: opt_text_def opt_bytes_def opt_time_def val_bytes_def val_time_def split: option.split)

lemma accepts_opt [simp]:
  "accepts DNullString (opt_text v)" "accepts DBytes (opt_bytes b)" "accepts DTimePtr (opt_time t)"
  by (simp_all add: opt_text_def opt_bytes_def opt_time_def split: option.split)

text \<open>The values of the columns in the order of \<open>hotCols\<close> and \<open>archiveCols\<close>.\<close>

definition hot_fields :: "hot_row \<Rightarrow> sql_val list" where
  "hot_fields r =
     [VText (h_message_id r), opt_text (h_partition_key r), VText (h_topic r), VBytes (h_payload r),
      opt_bytes (h_headers r), opt_text (h_source r), VBool (h_encrypted r), VText (status_text (h_status r)),
      VInt (h_retry_count r), VInt (h_max_retry r), opt_time (h_next_retry_at r), opt_text (h_processing_by r),
      opt_time (h_processing_at r), VTime (h_created_at r), opt_time (h_processed_at r), opt_text (h_last_error r)]"

definition archive_fields :: "archive_row \<Rightarrow> sql_val list" where
  "archive_fields r = map snd (archive_values r)"

lemma split_hotCols:
  "split_cols [] hotCols =
     [''message_id'', ''partition_key'', ''topic'', ''payload'', ''headers'', ''source'', ''encrypted'', ''status'',
      ''retry_count'', ''max_retry'', ''next_retry_at'', ''processing_by'', ''processing_at'', ''created_at'',
      ''processed_at'', ''last_error'']"
  unfolding hotCols_def by code_simp

lemma split_archiveCols:
  "split_cols [] archiveCols =
     [''id'', ''message_id'', ''partition_key'', ''topic'', ''payload'', ''headers'', ''source'', ''encrypted'',
      ''final_status'', ''retry_count'', ''created_at'', ''processed_at'', ''archived_at'', ''last_error'']"
  unfolding archiveCols_def by code_simp

lemma project_hotCols: "project (hot_values r) hotCols = Some (hot_fields r)"
  by (simp add: project_def split_hotCols hot_values_def hot_fields_def)

lemma project_archiveCols: "project (archive_values r) archiveCols = Some (archive_fields r)"
  by (simp add: project_def split_archiveCols archive_values_def archive_fields_def)

lemma project_key: "project (hot_values r) ''message_id'' = Some [VText (h_message_id r)]"
  by (simp add: project_def hot_values_def)

lemma split_archive_into:
  "split_cols [] archive_into =
     [''message_id'', ''partition_key'', ''topic'', ''payload'', ''headers'', ''source'', ''encrypted'', ''final_status'',
      ''retry_count'', ''created_at'', ''processed_at'', ''last_error'']"
  unfolding archive_into_def by code_simp

lemma split_archive_from:
  "split_cols [] (archive_from fs) =
     [''message_id'', ''partition_key'', ''topic'', ''payload'', ''headers'', ''source'', ''encrypted'',
      CHR 0x27 # final_text fs @ [CHR 0x27],
      ''retry_count'', ''created_at'', ''processed_at'', ''last_error'']"
  by (cases fs; simp only: archive_from_def; code_simp)

text \<open>Every column of the archive is fed from the column of the same name, and the status from the literal.\<close>

lemma select_into_archive:
  "select_into archive_into (archive_from fs) (hot_values r) = Some
     [(''message_id'', VText (h_message_id r)), (''partition_key'', opt_text (h_partition_key r)),
      (''topic'', VText (h_topic r)), (''payload'', VBytes (h_payload r)),
      (''headers'', opt_bytes (h_headers r)), (''source'', opt_text (h_source r)),
      (''encrypted'', VBool (h_encrypted r)), (''final_status'', VText (final_text fs)),
      (''retry_count'', VInt (h_retry_count r)), (''created_at'', VTime (h_created_at r)),
      (''processed_at'', opt_time (h_processed_at r)), (''last_error'', opt_text (h_last_error r))]"
  by (simp add: select_into_def split_archive_into split_archive_from item_value_def hot_values_def)

lemma those_map_Some: "(\<And>r. f r = Some (g r)) \<Longrightarrow> those (map f rs) = Some (map g rs)"
  by (induction rs) simp_all

lemma returning_total:
  assumes "\<And>r. project (vals r) cols = Some (f r)"
  shows "returning vals cols st locked now t =
     (case st locked now t of Inl rj \<Rightarrow> Inl rj | Inr (rs, t') \<Rightarrow> Inr (map f rs, t'))"
  by (simp add: returning_def those_map_Some [OF assms] split: sum.split)

lemma exec_returning:
  assumes "\<And>r. project (vals r) cols = Some (f r)"
  shows "exec x h (returning vals cols st) w = (case exec x h st w of (res, w') \<Rightarrow> (map_sum id (map f) res, w'))"
  by (auto simp: exec_def returning_total [OF assms] Let_def split: prod.split option.split fault.split sum.split)

text \<open>Naming the columns changes what is read, not what happens.\<close>

lemma query_returning:
  assumes "\<And>r. project (vals r) cols = Some (f r)"
  shows "query x h (returning vals cols st) w =
     (case query x h st w of
        (Inl e, w') \<Rightarrow> (Inl e, w')
      | (Inr (rs, e), w') \<Rightarrow> (Inr (map f rs, e), w'))"
  by (auto simp: query_def exec_returning [OF assms] take_map split: prod.split sum.split option.split)

lemma tx_query_returning:
  assumes "\<And>r. project (vals r) cols = Some (f r)"
  shows "tx_query x saved wr (returning vals cols st) k w = tx_query x saved wr st (\<lambda>rs. k (map f rs)) w"
  by (auto simp: tx_query_def query_returning [OF assms] split: prod.split sum.split)

lemmas query_hot = query_returning [OF project_hotCols]
lemmas query_archive = query_returning [OF project_archiveCols]
lemmas query_key = query_returning [OF project_key]
lemmas returning_eqs = returning_total [OF project_hotCols] returning_total [OF project_archiveCols] returning_total [OF project_key]
lemmas tx_query_key = tx_query_returning [OF project_key]

end
