(* ===== verification/Store.thy ===== *)
theory Store
  imports Table_Spec Columns
begin

text \<open>
  \<^verbatim>\<open>store.go\<close>: the SQL of the processing path. Each statement of the source is a definition
  \<open>sql_...\<close> on the tables (its \<open>WHERE\<close> clause as a predicate, its \<open>SET\<close> list as a row update), and each
  method of \<open>store\<close> is the Go code around it: preparing fields, executing, counting affected rows,
  committing. The driver answers \<open>Exec\<close> with \<open>driver.RowsAffected\<close> of the standard library, whose count never
  comes with an error, so those error branches do not occur.
\<close>

section \<open>The store\<close>

record store =
  s_cfg :: config
  s_cipher :: "cipher_registry option"
  dedupTbl :: string
  hotTbl :: string
  archTbl :: string

definition newStore :: "config \<Rightarrow> cipher_registry option \<Rightarrow> store" where
  "newStore cfg cipher =
     (let cfg = Config_withDefaults cfg in
      \<lparr>s_cfg = cfg, s_cipher = cipher, dedupTbl = tableName (Name cfg) ''dedup'',
       hotTbl = tableName (Name cfg) ''hot'', archTbl = tableName (Name cfg) ''archive''\<rparr>)"

section \<open>Preparing and hydrating fields\<close>

definition pop_random :: "world \<Rightarrow> string option \<times> world" where
  "pop_random w = (case randoms w of [] \<Rightarrow> (None, w) | r # rs \<Rightarrow> (r, w\<lparr>randoms := rs\<rparr>))"

text \<open>Marshalling a \<open>map[string]string\<close> cannot fail, so the first error branch does not occur.\<close>

definition prepareFields :: "store \<Rightarrow> string \<Rightarrow> headers \<Rightarrow> world \<Rightarrow> (err + string \<times> string) \<times> world" where
  "prepareFields s pl hs w =
     (let headersJSON = json_marshal_headers hs in
      case s_cipher s of
        None \<Rightarrow> (Inr (pl, headersJSON), w)
      | Some c \<Rightarrow>
          (let (r1, w1) = pop_random w in
           case reg_Encrypt c r1 pl of
             Inl e \<Rightarrow> (Inl (Wrap ''message: encrypt payload'' e), w1)
           | Inr outPayload \<Rightarrow>
               (let (r2, w2) = pop_random w1 in
                case reg_Encrypt c r2 headersJSON of
                  Inl e \<Rightarrow> (Inl (Wrap ''message: encrypt headers'' e), w2)
                | Inr outHeaders \<Rightarrow> (Inr (outPayload, outHeaders), w2))))"

text \<open>The decryption part of \<open>hydrate\<close>: payload and headers in the clear.\<close>

definition hydrate_fields :: "go_texts \<Rightarrow> store \<Rightarrow> message \<Rightarrow> err + string \<times> string option" where
  "hydrate_fields tx s msg =
     (if Encrypted msg then
        (case s_cipher s of
           None \<Rightarrow> Inl (Wrap (''message: decrypt '' @ MessageID msg) ErrNoCipher)
         | Some c \<Rightarrow>
             (case reg_Decrypt tx c (Payload msg) of
                Inl e \<Rightarrow> Inl (Wrap (''message: decrypt payload '' @ MessageID msg) e)
              | Inr p \<Rightarrow>
                  (case rawHeaders msg of
                     None \<Rightarrow> Inr (p, None)
                   | Some h \<Rightarrow>
                       (case reg_Decrypt tx c h of
                          Inl e \<Rightarrow> Inl (Wrap (''message: decrypt headers '' @ MessageID msg) e)
                        | Inr h' \<Rightarrow> Inr (p, Some h')))))
      else Inr (Payload msg, rawHeaders msg))"

text \<open>
  \<open>hydrate\<close> works in place: the new message and the error, if any. When the headers do not
  unmarshal, the payload has already been replaced.
\<close>

definition hydrate :: "go_texts \<Rightarrow> store \<Rightarrow> message \<Rightarrow> message \<times> err option" where
  "hydrate tx s msg =
     (case hydrate_fields tx s msg of
        Inl e \<Rightarrow> (msg, Some e)
      | Inr (p, hs) \<Rightarrow>
          (let msg1 = msg\<lparr>Payload := p, rawHeaders := None\<rparr> in
           case hs of
             None \<Rightarrow> (msg1, None)
           | Some h \<Rightarrow>
               (let (hm, good) = json_unmarshal_headers h (Headers msg1) in
                (msg1\<lparr>Headers := hm\<rparr>,
                 if good then None
                 else Some (Wrap (''message: unmarshal headers '' @ MessageID msg) (External (tJson tx h)))))))"

definition hydrateSafe :: "go_texts \<Rightarrow> store \<Rightarrow> message \<Rightarrow> message" where
  "hydrateSafe tx s msg = fst (hydrate tx s msg)"

definition hydrateArchived_fields :: "go_texts \<Rightarrow> store \<Rightarrow> archived_message \<Rightarrow> err + string \<times> string option" where
  "hydrateArchived_fields tx s msg =
     (if ArEncrypted msg then
        (case s_cipher s of
           None \<Rightarrow> Inl (Wrap (''message: decrypt archive '' @ show_int (ArID msg)) ErrNoCipher)
         | Some c \<Rightarrow>
             (case reg_Decrypt tx c (ArPayload msg) of
                Inl e \<Rightarrow> Inl (Wrap (''message: decrypt archive payload '' @ show_int (ArID msg)) e)
              | Inr p \<Rightarrow>
                  (case ArRawHeaders msg of
                     None \<Rightarrow> Inr (p, None)
                   | Some h \<Rightarrow>
                       (case reg_Decrypt tx c h of
                          Inl e \<Rightarrow> Inl (Wrap (''message: decrypt archive headers '' @ show_int (ArID msg)) e)
                        | Inr h' \<Rightarrow> Inr (p, Some h')))))
      else Inr (ArPayload msg, ArRawHeaders msg))"

definition hydrateArchived :: "go_texts \<Rightarrow> store \<Rightarrow> archived_message \<Rightarrow> archived_message \<times> err option" where
  "hydrateArchived tx s msg =
     (case hydrateArchived_fields tx s msg of
        Inl e \<Rightarrow> (msg, Some e)
      | Inr (p, hs) \<Rightarrow>
          (let msg1 = msg\<lparr>ArPayload := p, ArRawHeaders := None\<rparr> in
           case hs of
             None \<Rightarrow> (msg1, None)
           | Some h \<Rightarrow>
               (let (hm, good) = json_unmarshal_headers h (ArHeaders msg1) in
                (msg1\<lparr>ArHeaders := hm\<rparr>,
                 if good then None
                 else Some (Wrap (''message: unmarshal archive headers '' @ show_int (ArID msg))
                        (External (tJson tx h)))))))"

definition hydrateArchivedSafe :: "go_texts \<Rightarrow> store \<Rightarrow> archived_message \<Rightarrow> archived_message" where
  "hydrateArchivedSafe tx s msg = fst (hydrateArchived tx s msg)"

section \<open>Inserting\<close>

text \<open>A nullable \<open>VARCHAR(n)\<close> parameter: the stored value, or a refusal.\<close>

definition opt_varchar :: "ext \<Rightarrow> nat \<Rightarrow> string option \<Rightarrow> string option option" where
  "opt_varchar x n v = (case v of None \<Rightarrow> Some None | Some s \<Rightarrow> map_option Some (varchar_in x n s))"

definition sql_insert_dedup ::
  "ext \<Rightarrow> string \<Rightarrow> string option \<Rightarrow> string \<Rightarrow> string option \<Rightarrow> int option \<Rightarrow> int stmt" where
  "sql_insert_dedup x mid pk tp src expireAt locked now t =
     (if \<not> text_ok x mid then Inl Bad_value
      else (case (opt_varchar x 100 pk, varchar_in x 255 tp, opt_varchar x 100 src) of
              (Some pk', Some tp', Some src') \<Rightarrow>
                if mid \<in> set (dedup_ids (dedup t)) then Inr (0, t)
                else Inr (1, t\<lparr>dedup := dedup t @
                       [\<lparr>d_message_id = mid, d_partition_key = pk', d_topic = tp', d_source = src',
                         d_first_seen_at = now, d_expire_at = map_option (ts_in x) expireAt\<rparr>]\<rparr>)
            | _ \<Rightarrow> Inl Bad_value))"

definition insertDedup ::
  "ext \<Rightarrow> dbtx \<Rightarrow> string \<Rightarrow> string \<Rightarrow> string \<Rightarrow> string \<Rightarrow> int option \<Rightarrow> world \<Rightarrow> err option \<times> world" where
  "insertDedup x db messageID partitionKey tp src expireAt w =
     (case exec x db (sql_insert_dedup x messageID (nullString partitionKey) tp (nullString src) expireAt) w of
        (Inl e, w') \<Rightarrow> (Some (Wrap ''message: insert dedup'' e), w')
      | (Inr rows, w') \<Rightarrow> (if rows = 0 then Some ErrDuplicate else None, w'))"

text \<open>
  The positional arguments of an insert into the hot table. A byte slice that is nil or empty has
  no acceptable value in a \<open>JSONB NOT NULL\<close> column.
\<close>

datatype sql_arg = AText "string option" | AJson string | ABool bool | AInt int | ATime int

definition hot_args :: "store \<Rightarrow> message \<Rightarrow> string \<times> string \<Rightarrow> int \<Rightarrow> sql_arg list" where
  "hot_args s msg flds now =
     [AText (Some (MessageID msg)), AText (nullString (PartitionKey msg)), AText (Some (Topic msg)),
      AJson (fst flds), AJson (snd flds), AText (nullString (Source msg)),
      ABool (s_cipher s \<noteq> None), AInt (MaxRetries msg), ATime now]"

datatype sql_type = TText | TJson | TBool | TInt | TTime

fun arg_type :: "sql_arg \<Rightarrow> sql_type" where
  "arg_type (AText _) = TText"
| "arg_type (AJson _) = TJson"
| "arg_type (ABool _) = TBool"
| "arg_type (AInt _) = TInt"
| "arg_type (ATime _) = TTime"

fun arg_text :: "sql_arg \<Rightarrow> string option" where
  "arg_text (AText v) = v"
| "arg_text _ = None"

fun arg_json :: "sql_arg \<Rightarrow> string" where
  "arg_json (AJson v) = v"
| "arg_json _ = []"

fun arg_bool :: "sql_arg \<Rightarrow> bool" where
  "arg_bool (ABool v) = v"
| "arg_bool _ = False"

fun arg_int :: "sql_arg \<Rightarrow> int" where
  "arg_int (AInt v) = v"
| "arg_int (ATime v) = v"
| "arg_int _ = 0"

text \<open>
  The row that nine arguments of the columns' types describe, with status \<open>PENDING\<close> and no attempts;
  or why the server refuses it.
\<close>

definition pending_row ::
  "ext \<Rightarrow> string \<Rightarrow> string option \<Rightarrow> string \<Rightarrow> string \<Rightarrow> string \<Rightarrow> string option \<Rightarrow> bool \<Rightarrow> int \<Rightarrow> int \<Rightarrow> hot_row" where
  "pending_row x mid pk tp pl hs src enc maxr now =
     \<lparr>h_message_id = mid, h_partition_key = pk, h_topic = tp, h_payload = pl,
      h_headers = Some hs, h_source = src, h_encrypted = enc,
      h_status = StatusPending, h_retry_count = 0, h_max_retry = maxr,
      h_next_retry_at = None, h_processing_by = None, h_processing_at = None,
      h_created_at = ts_in x now, h_processed_at = None, h_last_error = None\<rparr>"

definition hot_row_of_args :: "ext \<Rightarrow> sql_arg list \<Rightarrow> pg_reject + hot_row" where
  "hot_row_of_args x vs =
     (if map arg_type vs \<noteq> [TText, TText, TText, TJson, TJson, TText, TBool, TInt, TTime] then Inl Bad_value
      else if arg_text (vs ! 0) = None \<or> arg_text (vs ! 2) = None \<or> arg_json (vs ! 3) = [] then Inl Null_value
      else if \<not> in_int32 (arg_int (vs ! 7)) then Inl Int_range
      else if \<not> text_ok x (the (arg_text (vs ! 0))) then Inl Bad_value
      else (case (opt_varchar x 100 (arg_text (vs ! 1)), varchar_in x 255 (the (arg_text (vs ! 2))),
                  opt_varchar x 100 (arg_text (vs ! 5)), jsonb_in x (arg_json (vs ! 3)),
                  jsonb_in x (arg_json (vs ! 4))) of
              (Some pk, Some tp, Some src, Some pl, Some hs) \<Rightarrow>
                Inr (pending_row x (the (arg_text (vs ! 0))) pk tp pl hs src (arg_bool (vs ! 6))
                       (arg_int (vs ! 7)) (arg_int (vs ! 8)))
            | _ \<Rightarrow> Inl Bad_value))"

text \<open>The placeholder \<open>$n\<close> is the \<open>n\<close>-th argument, counted from one.\<close>

definition placeholder :: "sql_arg list \<Rightarrow> nat \<Rightarrow> sql_arg option" where
  "placeholder args n = (if 1 \<le> n \<and> n \<le> length args then Some (args ! (n - 1)) else None)"

fun values_row :: "sql_arg list \<Rightarrow> nat list \<Rightarrow> sql_arg list option" where
  "values_row args [] = Some []"
| "values_row args (n # ns) =
     (case placeholder args n of
        None \<Rightarrow> None
      | Some a \<Rightarrow> map_option (Cons a) (values_row args ns))"

fun insert_values :: "ext \<Rightarrow> sql_arg list \<Rightarrow> nat list list \<Rightarrow> hot_row list \<Rightarrow> pg_reject + hot_row list" where
  "insert_values x args [] rs = Inr rs"
| "insert_values x args (ns # rows) rs =
     (case values_row args ns of
        None \<Rightarrow> Inl Bad_value
      | Some vs \<Rightarrow>
          (case hot_row_of_args x vs of
             Inl rj \<Rightarrow> Inl rj
           | Inr r \<Rightarrow> insert_values x args rows (insert_new r rs)))"

text \<open>\<open>INSERT INTO hot (...) VALUES rows ON CONFLICT (message_id) DO NOTHING\<close> with its arguments.\<close>

definition sql_insert_hot :: "ext \<Rightarrow> nat list list \<Rightarrow> sql_arg list \<Rightarrow> unit stmt" where
  "sql_insert_hot x rows args locked now t =
     (if max_params x < length args then Inl Too_many_params
      else (case insert_values x args rows (hot t) of
              Inl rj \<Rightarrow> Inl rj
            | Inr rs \<Rightarrow> Inr ((), t\<lparr>hot := rs\<rparr>)))"

definition insertHot :: "ext \<Rightarrow> store \<Rightarrow> dbtx \<Rightarrow> message \<Rightarrow> world \<Rightarrow> err option \<times> world" where
  "insertHot x s db msg w =
     (case prepareFields s (Payload msg) (Headers msg) w of
        (Inl e, w1) \<Rightarrow> (Some e, w1)
      | (Inr flds, w1) \<Rightarrow>
          (case exec x db (sql_insert_hot x [[1,2,3,4,5,6,7,8,9]] (hot_args s msg flds (app_now w1))) w1 of
             (Inl e, w2) \<Rightarrow> (Some (Wrap ''message: insert hot'' e), w2)
           | (Inr _, w2) \<Rightarrow> (None, w2)))"

text \<open>
  The loop of \<open>insertHotBatch\<close>: it appends a row of placeholders numbered from the arguments so far
  and nine arguments, for every message.
\<close>

fun batch_rows ::
  "store \<Rightarrow> int \<Rightarrow> message list \<Rightarrow> nat list list \<Rightarrow> sql_arg list \<Rightarrow> world
     \<Rightarrow> (err + nat list list \<times> sql_arg list) \<times> world" where
  "batch_rows s now [] rows args w = (Inr (rows, args), w)"
| "batch_rows s now (msg # msgs) rows args w =
     (case prepareFields s (Payload msg) (Headers msg) w of
        (Inl e, w1) \<Rightarrow> (Inl e, w1)
      | (Inr flds, w1) \<Rightarrow>
          (let base = length args in
           batch_rows s now msgs
             (rows @ [[base+1, base+2, base+3, base+4, base+5, base+6, base+7, base+8, base+9]])
             (args @ hot_args s msg flds now) w1))"

definition insertHotBatch :: "ext \<Rightarrow> store \<Rightarrow> dbtx \<Rightarrow> message list \<Rightarrow> world \<Rightarrow> err option \<times> world" where
  "insertHotBatch x s db msgs w =
     (if msgs = [] then (None, w)
      else (case batch_rows s (app_now w) msgs [] [] w of
              (Inl e, w1) \<Rightarrow> (Some e, w1)
            | (Inr (rows, args), w1) \<Rightarrow>
                (case exec x db (sql_insert_hot x rows args) w1 of
                   (Inl e, w2) \<Rightarrow> (Some (Wrap ''message: insert hot batch'' e), w2)
                 | (Inr _, w2) \<Rightarrow> (None, w2))))"

section \<open>Reading rows\<close>

definition message_dests :: "dest list" where
  "message_dests =
     [DString, DNullString, DString, DBytes, DBytes, DNullString, DBool, DString, DInt, DInt,
      DTimePtr, DNullString, DTimePtr, DTime, DTimePtr, DNullString]"

definition scanMessageRow :: "go_texts \<Rightarrow> sql_val list \<Rightarrow> err + message" where
  "scanMessageRow tx vs =
     (case rows_Scan tx message_dests vs of
        Some e \<Rightarrow> Inl (Wrap ''message: scan row'' e)
      | None \<Rightarrow>
          Inr \<lparr>MessageID = val_text (vs ! 0), PartitionKey = null_string_value (val_opt_text (vs ! 1)),
               Topic = val_text (vs ! 2), Payload = val_bytes (vs ! 3), Headers = None,
               Source = null_string_value (val_opt_text (vs ! 5)), Encrypted = val_bool (vs ! 6),
               Status = status_of (val_text (vs ! 7)), RetryCount = val_int (vs ! 8),
               MaxRetries = val_int (vs ! 9), NextRetryAt = val_opt_time (vs ! 10),
               ProcessingBy = val_opt_text (vs ! 11), ProcessingAt = val_opt_time (vs ! 12),
               CreatedAt = val_time (vs ! 13), ProcessedAt = val_opt_time (vs ! 14),
               LastError = val_opt_text (vs ! 15), rawHeaders = val_opt_bytes (vs ! 4)\<rparr>)"

text \<open>
  The loops over the rows of an answer; \<open>rowsErr\<close> is what \<open>rows.Err()\<close> says when there is no next row.
  Where Go returns the messages so far beside that error, no caller looks at them.
\<close>

fun scanMessages :: "go_texts \<Rightarrow> store \<Rightarrow> sql_val list list \<Rightarrow> err option \<Rightarrow> err + message list" where
  "scanMessages tx s [] rowsErr = (case rowsErr of None \<Rightarrow> Inr [] | Some e \<Rightarrow> Inl e)"
| "scanMessages tx s (v # vs) rowsErr =
     (case scanMessageRow tx v of
        Inl e \<Rightarrow> Inl e
      | Inr m \<Rightarrow>
          (let (m', e) = (if Encrypted m then (m, None) else hydrate tx s m) in
           case e of
             Some e \<Rightarrow> Inl e
           | None \<Rightarrow>
               (case scanMessages tx s vs rowsErr of
                  Inl e \<Rightarrow> Inl e
                | Inr ms \<Rightarrow> Inr (m' # ms))))"

fun scanMessagesSafe :: "go_texts \<Rightarrow> store \<Rightarrow> sql_val list list \<Rightarrow> err option \<Rightarrow> err + message list" where
  "scanMessagesSafe tx s [] rowsErr = (case rowsErr of None \<Rightarrow> Inr [] | Some e \<Rightarrow> Inl e)"
| "scanMessagesSafe tx s (v # vs) rowsErr =
     (case scanMessageRow tx v of
        Inl e \<Rightarrow> Inl e
      | Inr m \<Rightarrow>
          (case scanMessagesSafe tx s vs rowsErr of
             Inl e \<Rightarrow> Inl e
           | Inr ms \<Rightarrow> Inr (hydrateSafe tx s m # ms)))"

definition archived_dests :: "dest list" where
  "archived_dests =
     [DInt, DString, DNullString, DString, DBytes, DBytes, DNullString, DBool, DString, DInt,
      DTime, DTimePtr, DTime, DNullString]"

definition scanArchivedRow :: "go_texts \<Rightarrow> sql_val list \<Rightarrow> err + archived_message" where
  "scanArchivedRow tx vs =
     (case rows_Scan tx archived_dests vs of
        Some e \<Rightarrow> Inl (Wrap ''message: scan archive row'' e)
      | None \<Rightarrow>
          Inr \<lparr>ArID = val_int (vs ! 0), ArMessageID = val_text (vs ! 1),
               ArPartitionKey = null_string_value (val_opt_text (vs ! 2)), ArTopic = val_text (vs ! 3),
               ArPayload = val_bytes (vs ! 4), ArHeaders = None,
               ArSource = null_string_value (val_opt_text (vs ! 6)), ArEncrypted = val_bool (vs ! 7),
               ArFinalStatus = final_of (val_text (vs ! 8)), ArRetryCount = val_int (vs ! 9),
               ArCreatedAt = val_time (vs ! 10), ArProcessedAt = val_opt_time (vs ! 11),
               ArArchivedAt = val_time (vs ! 12), ArLastError = val_opt_text (vs ! 13),
               ArRawHeaders = val_opt_bytes (vs ! 5)\<rparr>)"

text \<open>Here the messages read so far reach the caller together with the error; \<open>out\<close> collects them.\<close>

fun scanArchivedSafe ::
  "go_texts \<Rightarrow> store \<Rightarrow> sql_val list list \<Rightarrow> err option \<Rightarrow> archived_message list \<Rightarrow> archived_message list \<times> err option" where
  "scanArchivedSafe tx s [] rowsErr out = (out, rowsErr)"
| "scanArchivedSafe tx s (v # vs) rowsErr out =
     (case scanArchivedRow tx v of
        Inl e \<Rightarrow> ([], Some e)
      | Inr m \<Rightarrow> scanArchivedSafe tx s vs rowsErr (out @ [hydrateArchivedSafe tx s m]))"

section \<open>Claiming\<close>

definition claimable :: "int \<Rightarrow> hot_row \<Rightarrow> bool" where
  "claimable now r \<longleftrightarrow>
     (h_status r = StatusPending \<or> h_status r = StatusRetry)
     \<and> (case h_next_retry_at r of None \<Rightarrow> True | Some n \<Rightarrow> n \<le> now)"

definition claim_ids :: "string list \<Rightarrow> int \<Rightarrow> nat \<Rightarrow> hot_row list \<Rightarrow> string list" where
  "claim_ids locked now sz rs =
     ids (take sz (sort_key h_created_at
       (filter (\<lambda>r. claimable now r \<and> h_message_id r \<notin> set locked) rs)))"

definition claim_sel :: "string list \<Rightarrow> hot_row \<Rightarrow> bool" where
  "claim_sel mids r \<longleftrightarrow> h_message_id r \<in> set mids"

definition claim_set :: "string \<Rightarrow> int \<Rightarrow> hot_row \<Rightarrow> hot_row" where
  "claim_set worker now r =
     r\<lparr>h_status := StatusProcessing, h_processing_by := Some worker, h_processing_at := Some now\<rparr>"

text \<open>The rows it returns are the claimed rows as updated.\<close>

definition sql_claim :: "ext \<Rightarrow> string \<Rightarrow> int \<Rightarrow> hot_row list stmt" where
  "sql_claim x worker sz locked now t =
     (if sz < 0 then Inl Neg_limit
      else (case varchar_in x 100 worker of
              None \<Rightarrow> Inl Bad_value
            | Some wk \<Rightarrow>
                (let mids = claim_ids locked now (nat sz) (hot t);
                     rs = upd_where (claim_sel mids) (claim_set wk now) (hot t) in
                 Inr (filter (claim_sel mids) rs, t\<lparr>hot := rs\<rparr>))))"

definition claimBatch :: "ext \<Rightarrow> store \<Rightarrow> int \<Rightarrow> world \<Rightarrow> (err + message list) \<times> world" where
  "claimBatch x s sz w =
     (case query x DB (returning hot_values hotCols (sql_claim x (WorkerID (s_cfg s)) sz)) w of
        (Inl e, w') \<Rightarrow> (Inl (Wrap ''message: claim batch'' e), w')
      | (Inr (rows, rowsErr), w') \<Rightarrow> (scanMessages (gtexts x) s rows rowsErr, w'))"

section \<open>Terminal transitions\<close>

definition owned_sel :: "string \<Rightarrow> string \<Rightarrow> hot_row \<Rightarrow> bool" where
  "owned_sel mid worker r \<longleftrightarrow>
     h_message_id r = mid \<and> h_processing_by r = Some worker \<and> h_status r = StatusProcessing"

definition done_set :: "ext \<Rightarrow> int \<Rightarrow> hot_row \<Rightarrow> hot_row" where
  "done_set x ts r = r\<lparr>h_processed_at := Some (ts_in x ts)\<rparr>"

definition sql_mark_done :: "ext \<Rightarrow> string \<Rightarrow> string \<Rightarrow> int \<Rightarrow> int stmt" where
  "sql_mark_done x mid worker ts locked now t =
     (if \<not> text_ok x mid \<or> \<not> text_ok x worker then Inl Bad_value
      else Inr (count_where (owned_sel mid worker) (hot t),
                t\<lparr>hot := upd_where (owned_sel mid worker) (done_set x ts) (hot t)\<rparr>))"

text \<open>
  The archive row copied from a hot row. The columns that the statement does not name get their
  defaults: the next value of the identity sequence and \<open>now()\<close>.
\<close>

definition archive_of :: "final_status \<Rightarrow> int \<Rightarrow> int \<Rightarrow> hot_row \<Rightarrow> archive_row" where
  "archive_of fs now n r =
     (let vals = the (select_into archive_into (archive_from fs) (hot_values r));
          col = (\<lambda>c. the (map_of vals c)) in
      \<lparr>a_id = n, a_message_id = val_text (col ''message_id''),
       a_partition_key = val_opt_text (col ''partition_key''), a_topic = val_text (col ''topic''),
       a_payload = val_bytes (col ''payload''), a_headers = val_opt_bytes (col ''headers''),
       a_source = val_opt_text (col ''source''), a_encrypted = val_bool (col ''encrypted''),
       a_final_status = final_of (val_text (col ''final_status'')), a_retry_count = val_int (col ''retry_count''),
       a_created_at = val_time (col ''created_at''), a_processed_at = val_opt_time (col ''processed_at''),
       a_archived_at = now, a_last_error = val_opt_text (col ''last_error'')\<rparr>)"

fun archive_rows :: "final_status \<Rightarrow> int \<Rightarrow> int \<Rightarrow> hot_row list \<Rightarrow> archive_row list" where
  "archive_rows fs now n [] = []"
| "archive_rows fs now n (r # rs) = archive_of fs now n r # archive_rows fs now (n + 1) rs"

text \<open>\<open>INSERT INTO archive ... SELECT ... FROM hot WHERE\<close> the key is among \<open>mids\<close>.\<close>

definition sql_archive_insert :: "ext \<Rightarrow> final_status \<Rightarrow> string list \<Rightarrow> unit stmt" where
  "sql_archive_insert x fs mids locked now t =
     (if \<not> list_all (text_ok x) mids then Inl Bad_value
      else (let rs = filter (claim_sel mids) (hot t) in
            Inr ((), t\<lparr>archive := archive t @ archive_rows fs now (arch_seq t) rs,
                       arch_seq := arch_seq t + int (length rs)\<rparr>)))"

definition sql_delete_hot :: "ext \<Rightarrow> string list \<Rightarrow> unit stmt" where
  "sql_delete_hot x mids locked now t =
     (if \<not> list_all (text_ok x) mids then Inl Bad_value
      else Inr ((), t\<lparr>hot := filter (\<lambda>r. \<not> claim_sel mids r) (hot t)\<rparr>))"

definition markDoneAndArchive :: "ext \<Rightarrow> store \<Rightarrow> string \<Rightarrow> int \<Rightarrow> world \<Rightarrow> (err + bool) \<times> world" where
  "markDoneAndArchive x s messageID ts =
     begin_do (Wrap ''message: archive begin tx'')
       (\<lambda>saved. tx_do x saved (Wrap ''message: mark done'') (sql_mark_done x messageID (WorkerID (s_cfg s)) ts)
         (\<lambda>n w1.
            if n = 0 then (Inr False, rollback_tx saved w1)
            else tx_do x saved (Wrap ''message: archive insert'') (sql_archive_insert x FinalProcessed [messageID])
              (\<lambda>_. tx_do x saved (Wrap ''message: archive delete'') (sql_delete_hot x [messageID])
                (\<lambda>_. commit_do x saved (Wrap ''message: archive commit'') True)) w1))"

definition retry_set :: "ext \<Rightarrow> int \<Rightarrow> int \<Rightarrow> string \<Rightarrow> hot_row \<Rightarrow> hot_row" where
  "retry_set x retryCount nextRetryAt lastError r =
     r\<lparr>h_status := StatusRetry, h_retry_count := retryCount,
       h_next_retry_at := Some (ts_in x nextRetryAt), h_last_error := Some (truncateError lastError),
       h_processing_by := None, h_processing_at := None\<rparr>"

definition sql_mark_retry :: "ext \<Rightarrow> string \<Rightarrow> int \<Rightarrow> int \<Rightarrow> string \<Rightarrow> string \<Rightarrow> int stmt" where
  "sql_mark_retry x mid retryCount nextRetryAt lastError worker locked now t =
     (if \<not> text_ok x mid \<or> \<not> text_ok x (truncateError lastError) \<or> \<not> text_ok x worker then Inl Bad_value
      else if \<not> in_int32 retryCount then Inl Int_range
      else Inr (count_where (owned_sel mid worker) (hot t),
                t\<lparr>hot := upd_where (owned_sel mid worker) (retry_set x retryCount nextRetryAt lastError) (hot t)\<rparr>))"

definition markRetry ::
  "ext \<Rightarrow> store \<Rightarrow> string \<Rightarrow> int \<Rightarrow> int \<Rightarrow> string \<Rightarrow> world \<Rightarrow> (err + bool) \<times> world" where
  "markRetry x s messageID retryCount nextRetryAt lastError w =
     (case exec x DB (sql_mark_retry x messageID retryCount nextRetryAt lastError (WorkerID (s_cfg s))) w of
        (Inl e, w') \<Rightarrow> (Inl (Wrap ''message: mark retry'' e), w')
      | (Inr n, w') \<Rightarrow> (Inr (n > 0), w'))"

definition failed_set :: "string \<Rightarrow> int \<Rightarrow> hot_row \<Rightarrow> hot_row" where
  "failed_set lastError now r =
     r\<lparr>h_status := StatusFailed, h_last_error := Some (truncateError lastError),
       h_processed_at := Some now, h_processing_by := None, h_processing_at := None\<rparr>"

definition sql_mark_failed :: "ext \<Rightarrow> string \<Rightarrow> string \<Rightarrow> string \<Rightarrow> int stmt" where
  "sql_mark_failed x mid lastError worker locked now t =
     (if \<not> text_ok x mid \<or> \<not> text_ok x (truncateError lastError) \<or> \<not> text_ok x worker then Inl Bad_value
      else Inr (count_where (owned_sel mid worker) (hot t),
                t\<lparr>hot := upd_where (owned_sel mid worker) (failed_set lastError now) (hot t)\<rparr>))"

definition markFailed :: "ext \<Rightarrow> store \<Rightarrow> string \<Rightarrow> string \<Rightarrow> world \<Rightarrow> (err + bool) \<times> world" where
  "markFailed x s messageID lastError w =
     (case exec x DB (sql_mark_failed x messageID lastError (WorkerID (s_cfg s))) w of
        (Inl e, w') \<Rightarrow> (Inl (Wrap ''message: mark failed'' e), w')
      | (Inr n, w') \<Rightarrow> (Inr (n > 0), w'))"

definition key_sel :: "string \<Rightarrow> hot_row \<Rightarrow> bool" where
  "key_sel mid r \<longleftrightarrow> h_message_id r = mid"

definition sql_dead_letter :: "ext \<Rightarrow> string \<Rightarrow> string \<Rightarrow> unit stmt" where
  "sql_dead_letter x mid reason locked now t =
     (if \<not> text_ok x mid \<or> \<not> text_ok x (truncateError reason) then Inl Bad_value
      else Inr ((), t\<lparr>hot := upd_where (key_sel mid) (failed_set reason now) (hot t)\<rparr>))"

definition deadLetter :: "ext \<Rightarrow> string \<Rightarrow> string \<Rightarrow> world \<Rightarrow> err option \<times> world" where
  "deadLetter x messageID reason w =
     (case exec x DB (sql_dead_letter x messageID reason) w of
        (Inl e, w') \<Rightarrow> (Some (Wrap ''message: dead letter'' e), w')
      | (Inr _, w') \<Rightarrow> (None, w'))"

section \<open>What the columns carry\<close>

text \<open>A message as it is read from a row of the hot table or of the archive, before hydration.\<close>

definition row_message :: "hot_row \<Rightarrow> message" where
  "row_message r =
     \<lparr>MessageID = h_message_id r, PartitionKey = null_string_value (h_partition_key r),
      Topic = h_topic r, Payload = h_payload r, Headers = None,
      Source = null_string_value (h_source r), Encrypted = h_encrypted r,
      Status = Some (h_status r), RetryCount = h_retry_count r, MaxRetries = h_max_retry r,
      NextRetryAt = h_next_retry_at r, ProcessingBy = h_processing_by r,
      ProcessingAt = h_processing_at r, CreatedAt = h_created_at r,
      ProcessedAt = h_processed_at r, LastError = h_last_error r, rawHeaders = h_headers r\<rparr>"

definition row_archived :: "archive_row \<Rightarrow> archived_message" where
  "row_archived r =
     \<lparr>ArID = a_id r, ArMessageID = a_message_id r, ArPartitionKey = null_string_value (a_partition_key r),
      ArTopic = a_topic r, ArPayload = a_payload r, ArHeaders = None,
      ArSource = null_string_value (a_source r), ArEncrypted = a_encrypted r,
      ArFinalStatus = a_final_status r, ArRetryCount = a_retry_count r, ArCreatedAt = a_created_at r,
      ArProcessedAt = a_processed_at r, ArArchivedAt = a_archived_at r, ArLastError = a_last_error r,
      ArRawHeaders = a_headers r\<rparr>"

lemma scan_hot_fields: "scanMessageRow tx (hot_fields r) = Inr (row_message r)"
  by (simp add: scanMessageRow_def rows_Scan_def message_dests_def hot_fields_def row_message_def)

lemma scan_archive_fields: "scanArchivedRow tx (archive_fields r) = Inr (row_archived r)"
  by (simp add: scanArchivedRow_def rows_Scan_def archived_dests_def archive_fields_def archive_values_def row_archived_def)

lemma archive_of_eq:
  "archive_of fs now n r =
     \<lparr>a_id = n, a_message_id = h_message_id r, a_partition_key = h_partition_key r, a_topic = h_topic r,
      a_payload = h_payload r, a_headers = h_headers r, a_source = h_source r,
      a_encrypted = h_encrypted r, a_final_status = fs, a_retry_count = h_retry_count r,
      a_created_at = h_created_at r, a_processed_at = h_processed_at r, a_archived_at = now,
      a_last_error = h_last_error r\<rparr>"
  by (simp add: archive_of_def select_into_archive)

text \<open>Reading all rows of an answer: it succeeds unless the rows broke off.\<close>

lemma scanMessagesSafe_hot:
  "scanMessagesSafe tx s (map hot_fields rs) rowsErr =
     (case rowsErr of None \<Rightarrow> Inr (map (\<lambda>r. hydrateSafe tx s (row_message r)) rs) | Some e \<Rightarrow> Inl e)"
  by (induction rs) (auto simp: scan_hot_fields split: option.split)

lemma scanArchivedSafe_archive:
  "scanArchivedSafe tx s (map archive_fields rs) rowsErr out =
     (out @ map (\<lambda>r. hydrateArchivedSafe tx s (row_archived r)) rs, rowsErr)"
  by (induction rs arbitrary: out) (simp_all add: scan_archive_fields)

lemma scanMessages_unbroken: "scanMessages tx s (map hot_fields rs) rowsErr = Inr ms \<Longrightarrow> rowsErr = None"
  by (induction rs arbitrary: ms) (auto simp: scan_hot_fields split: option.splits prod.splits sum.splits)

end
