(* ===== verification/Store_Facts.thy ===== *)
theory Store_Facts
  imports Store
begin

text \<open>
  What the statements and methods of \<^verbatim>\<open>store.go\<close> do: every statement keeps the contract
  \<open>sound_stmt\<close> of the tables, the claim is exact, oldest first and exclusive, the terminal
  transitions apply only to the owner's row, and the archiving transaction is all or nothing.
\<close>

section \<open>Row updates follow the life cycle\<close>

lemma claim_step:
  "h_status r = StatusPending \<or> h_status r = StatusRetry \<Longrightarrow> row_step r (claim_set wk now r)"
  by (rule row_stepI) (auto simp: claim_set_def row_data_def row_ok_def)

lemma retry_step: "h_status r = StatusProcessing \<Longrightarrow> row_step r (retry_set x k n e r)"
  by (rule row_stepI) (auto simp: retry_set_def row_data_def row_ok_def length_truncateError)

lemma failed_step: "row_step r (failed_set e now r)"
  by (rule row_stepI; cases "h_status r")
     (simp_all add: failed_set_def row_data_def row_ok_def length_truncateError)

interpretation owned_retry: row_update "owned_sel mid wk" "retry_set x k n e" for mid wk x k n e
  by unfold_locales (auto simp: row_data_def retry_set_def row_ok_def owned_sel_def length_truncateError)

interpretation owned_failed: row_update "owned_sel mid wk" "failed_set e now" for mid wk e now
  by unfold_locales (auto simp: row_data_def failed_set_def row_ok_def owned_sel_def length_truncateError)

interpretation key_failed: row_update "key_sel mid" "failed_set e now" for mid e now
  by unfold_locales (auto simp: row_data_def failed_set_def row_ok_def length_truncateError)

section \<open>Statements keep the contract of the tables\<close>

interpretation insert_dedup: sound_stmt "sql_insert_dedup x mid pk tp src ex" "{Add_dedup}"
  for x mid pk tp src ex
proof
  fix t locked now n t'
  assume "sql_insert_dedup x mid pk tp src ex locked now t = Inr (n, t')"
  then show "runs {Add_dedup} t t'"
    by (auto simp: sql_insert_dedup_def split: if_splits option.splits
        intro!: runs_step table_step.Add_dedup)
qed

lemma pending_row_ok: "row_ok (pending_row x mid pk tp pl hs src enc maxr now)"
  by (simp add: pending_row_def row_ok_def)

lemma hot_row_of_args_pending:
  "hot_row_of_args x vs = Inr r \<Longrightarrow> row_ok r \<and> h_status r = StatusPending"
  by (auto simp: hot_row_of_args_def pending_row_ok pending_row_def row_ok_def
      split: if_splits option.splits)

lemma insert_new_runs:
  assumes "row_ok r" and "h_status r = StatusPending"
  shows "runs {Add_hot} (t\<lparr>hot := rs\<rparr>) (t\<lparr>hot := insert_new r rs\<rparr>)"
  using assms table_step.Add_hot [of r "t\<lparr>hot := rs\<rparr>"]
  by (auto simp: insert_new_def intro: runs_step)

lemma insert_values_runs:
  "insert_values x args rows rs = Inr rs' \<Longrightarrow> runs {Add_hot} (t\<lparr>hot := rs\<rparr>) (t\<lparr>hot := rs'\<rparr>)"
proof (induction x args rows rs rule: insert_values.induct)
  case (2 x args ns rows rs)
  then obtain vs r where "values_row args ns = Some vs" and r: "hot_row_of_args x vs = Inr r"
    and rest: "insert_values x args rows (insert_new r rs) = Inr rs'"
    by (auto split: option.splits sum.splits)
  with 2 show ?case
    using insert_new_runs [where r = r and t = t and rs = rs] hot_row_of_args_pending [OF r] by (meson runs_trans)
qed simp

interpretation insert_hot: sound_stmt "sql_insert_hot x rows args" "{Add_hot}" for x rows args
proof
  fix t locked now t' and u :: unit
  assume "sql_insert_hot x rows args locked now t = Inr (u, t')"
  then show "runs {Add_hot} t t'"
    using insert_values_runs [where rs = "hot t" and t = t]
    by (auto simp: sql_insert_hot_def split: if_splits sum.splits)
qed

interpretation mark_retry: counted_update "sql_mark_retry x mid k n e wk"
    "\<lambda>_. owned_sel mid wk" "\<lambda>_. retry_set x k n e" for x mid k n e wk
  by unfold_locales (auto simp: sql_mark_retry_def owned_sel_def retry_step split: if_splits)

interpretation mark_failed: counted_update "sql_mark_failed x mid e wk"
    "\<lambda>_. owned_sel mid wk" "\<lambda>now. failed_set e now" for x mid e wk
  by unfold_locales (auto simp: sql_mark_failed_def failed_step split: if_splits)

interpretation dead_letter: sound_stmt "sql_dead_letter x mid e" "{Move}" for x mid e
proof
  fix t locked now t' and u :: unit
  assume "sql_dead_letter x mid e locked now t = Inr (u, t')"
  then show "runs {Move} t t'"
    by (auto simp: sql_dead_letter_def split: if_splits intro!: Move_upd_where failed_step)
qed

section \<open>Claiming\<close>

definition due :: "int \<Rightarrow> hot_row \<Rightarrow> bool" where
  "due now r \<longleftrightarrow> h_status r \<in> {StatusPending, StatusRetry} \<and> (\<forall>n. h_next_retry_at r = Some n \<longrightarrow> n \<le> now)"

definition candidates :: "string list \<Rightarrow> int \<Rightarrow> hot_row list \<Rightarrow> hot_row list" where
  "candidates locked now rs = filter (\<lambda>r. due now r \<and> h_message_id r \<notin> set locked) rs"

lemma claimable_due: "claimable now r \<longleftrightarrow> due now r"
  by (auto simp: claimable_def due_def split: option.splits)

definition chosen :: "string list \<Rightarrow> int \<Rightarrow> nat \<Rightarrow> hot_row list \<Rightarrow> hot_row list" where
  "chosen locked now n rs = take n (sort_key h_created_at (candidates locked now rs))"

lemma claim_ids_chosen: "claim_ids locked now n rs = ids (chosen locked now n rs)"
  by (simp add: claim_ids_def chosen_def candidates_def claimable_due)

lemma chosen_subset: "set (chosen locked now n rs) \<subseteq> set (candidates locked now rs)"
  using set_take_subset [of n "sort_key h_created_at (candidates locked now rs)"]
  by (simp add: chosen_def)

lemma candidates_iff:
  "r \<in> set (candidates locked now rs) \<longleftrightarrow> r \<in> set rs \<and> claimable now r \<and> h_message_id r \<notin> set locked"
  by (auto simp: candidates_def claimable_due)

lemma claim_sel_chosen:
  assumes "distinct (ids rs)" and "r \<in> set rs"
  shows "claim_sel (claim_ids locked now n rs) r \<longleftrightarrow> r \<in> set (chosen locked now n rs)"
proof
  assume "claim_sel (claim_ids locked now n rs) r"
  then obtain q where "q \<in> set (chosen locked now n rs)" "h_message_id q = h_message_id r"
    by (auto simp: claim_sel_def claim_ids_chosen ids_def)
  moreover from this have "q \<in> set rs"
    using chosen_subset [of locked now n rs] candidates_iff by blast
  ultimately show "r \<in> set (chosen locked now n rs)"
    using assms row_of_mem by (metis option.inject)
qed (auto simp: claim_sel_def claim_ids_chosen ids_def)

text \<open>The rows taken come first in the order of creation.\<close>

lemma chosen_oldest:
  assumes "r \<in> set (chosen locked now n rs)" and "q \<in> set (candidates locked now rs)"
    and "q \<notin> set (chosen locked now n rs)"
  shows "h_created_at r \<le> h_created_at q"
proof -
  define ss where "ss = sort_key h_created_at (candidates locked now rs)"
  have "sorted (map h_created_at ss)" and "set ss = set (candidates locked now rs)"
    by (simp_all add: ss_def)
  then have "sorted (map h_created_at (take n ss @ drop n ss))" by simp
  then have "\<forall>x \<in> set (take n ss). \<forall>y \<in> set (drop n ss). h_created_at x \<le> h_created_at y"
    by (simp add: sorted_append del: append_take_drop_id)
  moreover have "q \<in> set (take n ss) \<union> set (drop n ss)"
    using assms(2) by (simp add: ss_def flip: set_append)
  ultimately show ?thesis using assms by (auto simp: chosen_def ss_def)
qed

lemma chosen_length: "length (chosen locked now n rs) = min n (length (candidates locked now rs))"
  by (simp add: chosen_def min.commute)

lemma chosen_distinct: "distinct (ids rs) \<Longrightarrow> distinct (ids (chosen locked now n rs))"
proof -
  assume "distinct (ids rs)"
  then have "distinct (map h_message_id (candidates locked now rs))"
    by (simp add: candidates_def claimable_due ids_def distinct_map_filter)
  then have "distinct (map h_message_id (sort_key h_created_at (candidates locked now rs)))"
    by (simp add: distinct_map)
  then show ?thesis by (simp add: chosen_def ids_def flip: take_map)
qed

lemma claim_set_simps [simp]:
  "h_message_id (claim_set wk now r) = h_message_id r" "h_status (claim_set wk now r) = StatusProcessing"
  "h_created_at (claim_set wk now r) = h_created_at r"
  "h_processing_by (claim_set wk now r) = Some wk" "row_data (claim_set wk now r) = row_data r"
  by (simp_all add: claim_set_def row_data_def)

text \<open>The effect of a claim, in terms of the rows chosen.\<close>

lemma sql_claim_Inr:
  assumes "sql_claim x worker sz locked now t = Inr (rows, t')" and "hot_ok (hot t)"
  obtains wk where "varchar_in x 100 worker = Some wk" and "0 \<le> sz"
    and "t' = t\<lparr>hot := map (\<lambda>r. if r \<in> set (chosen locked now (nat sz) (hot t)) then claim_set wk now r else r) (hot t)\<rparr>"
    and "rows = map (claim_set wk now) (filter (\<lambda>r. r \<in> set (chosen locked now (nat sz) (hot t))) (hot t))"
proof -
  let ?m = "claim_ids locked now (nat sz) (hot t)"
  let ?C = "set (chosen locked now (nat sz) (hot t))"
  from assms(1) obtain wk where wk: "varchar_in x 100 worker = Some wk" "0 \<le> sz"
    and rows: "rows = filter (claim_sel ?m) (upd_where (claim_sel ?m) (claim_set wk now) (hot t))"
    and t': "t' = t\<lparr>hot := upd_where (claim_sel ?m) (claim_set wk now) (hot t)\<rparr>"
    by (auto simp: sql_claim_def Let_def split: if_splits option.splits)
  have sel: "claim_sel ?m r \<longleftrightarrow> r \<in> ?C" if "r \<in> set (hot t)" for r
    using claim_sel_chosen assms(2) that by (simp add: hot_ok_def)
  have all: "upd_where (claim_sel ?m) (claim_set wk now) (hot t) = map (\<lambda>r. if r \<in> ?C then claim_set wk now r else r) (hot t)"
    by (simp add: upd_where_def sel)
  have ret: "filter (claim_sel ?m) (upd_where (claim_sel ?m) (claim_set wk now) rs)
      = map (claim_set wk now) (filter (claim_sel ?m) rs)" for rs
    by (induction rs) (auto simp: upd_where_def claim_sel_def)
  have flt: "filter (claim_sel ?m) (hot t) = filter (\<lambda>r. r \<in> ?C) (hot t)"
    using sel by (metis (mono_tags, lifting) filter_cong)
  show ?thesis using that [OF wk] t' [unfolded all] rows [unfolded ret flt] by blast
qed

interpretation claim: sound_query "sql_claim x worker sz" "{Move}" for x worker sz
proof
  fix t locked now t' rows
  assume ok: "tables_ok t" and "sql_claim x worker sz locked now t = Inr (rows, t')"
  then obtain wk where t': "t' = t\<lparr>hot := map (\<lambda>r. if r \<in> set (chosen locked now (nat sz) (hot t)) then claim_set wk now r else r) (hot t)\<rparr>"
    by (auto simp: tables_ok_def elim: sql_claim_Inr)
  have "row_step r (claim_set wk now r)" if "r \<in> set (chosen locked now (nat sz) (hot t))" for r
    using that chosen_subset [of locked now "nat sz" "hot t"]
    by (auto simp: candidates_iff claimable_def intro!: claim_step)
  then show "runs {Move} t t'"
    using Move_upd_where [of t "\<lambda>r. r \<in> set (chosen locked now (nat sz) (hot t))" "claim_set wk now"]
    by (simp add: t' upd_where_def)
qed

text \<open>The abstract meaning of a claim.\<close>

definition claim_spec :: "string \<Rightarrow> nat \<Rightarrow> string list \<Rightarrow> int \<Rightarrow> hot_row list \<Rightarrow> hot_row list \<Rightarrow> hot_row list \<Rightarrow> bool" where
  "claim_spec wk n locked now rs rows rs' \<longleftrightarrow>
     length rows = min n (length (candidates locked now rs))
     \<and> distinct (ids rows)
     \<and> (\<forall>r \<in> set rows. \<exists>q \<in> set (candidates locked now rs). r = claim_set wk now q)
     \<and> (\<forall>mid. row_of rs' mid = (if mid \<in> set (ids rows) then row_of rows mid else row_of rs mid))
     \<and> (\<forall>r \<in> set rows. \<forall>q \<in> set (candidates locked now rs).
          h_message_id q \<notin> set (ids rows) \<longrightarrow> h_created_at r \<le> h_created_at q)"

lemma row_of_map_claim:
  "row_of (map (\<lambda>r. if P r then claim_set wk now r else r) rs) mid
     = map_option (\<lambda>r. if P r then claim_set wk now r else r) (row_of rs mid)"
  by (induction rs) (auto simp: row_of_def)

lemma row_of_map_filter:
  assumes "distinct (ids rs)"
  shows "row_of (map (claim_set wk now) (filter P rs)) mid =
     (case row_of rs mid of None \<Rightarrow> None | Some r \<Rightarrow> if P r then Some (claim_set wk now r) else None)"
  using assms
proof (induction rs)
  case (Cons r rs)
  show ?case
  proof (cases "h_message_id r = mid")
    case True
    then have "row_of rs mid = None" using Cons.prems by (simp add: row_of_None_iff ids_def)
    with True Cons show ?thesis by (auto simp: row_of_def ids_def)
  next
    case False
    with Cons show ?thesis by (auto simp: row_of_def ids_def)
  qed
qed (simp add: row_of_def)

lemma sql_claim_spec:
  assumes "sql_claim x worker sz locked now t = Inr (rows, t')" and "hot_ok (hot t)"
  obtains wk where "varchar_in x 100 worker = Some wk"
    and "claim_spec wk (nat sz) locked now (hot t) rows (hot t')"
    and "dedup t' = dedup t" and "archive t' = archive t"
proof -
  let ?C = "chosen locked now (nat sz) (hot t)"
  obtain wk where wk: "varchar_in x 100 worker = Some wk"
    and t': "t' = t\<lparr>hot := map (\<lambda>r. if r \<in> set ?C then claim_set wk now r else r) (hot t)\<rparr>"
    and rows: "rows = map (claim_set wk now) (filter (\<lambda>r. r \<in> set ?C) (hot t))"
    using sql_claim_Inr [OF assms] by blast
  have dist: "distinct (ids (hot t))" using assms(2) by (simp add: hot_ok_def)
  then have dh: "distinct (hot t)" by (simp add: ids_def distinct_map)
  have sub: "set ?C \<subseteq> set (candidates locked now (hot t))" by (rule chosen_subset)
  then have Chot: "set (filter (\<lambda>r. r \<in> set ?C) (hot t)) = set ?C" by (auto simp: candidates_iff)
  have "distinct ?C" using chosen_distinct [OF dist] by (simp add: ids_def distinct_map)
  then have len: "length rows = length ?C"
    using dh Chot by (metis distinct_card distinct_filter length_map rows)
  have ids_rows: "set (ids rows) = set (ids ?C)"
    using Chot by (auto simp: rows ids_def)
  have inC: "h_message_id q \<in> set (ids ?C) \<longleftrightarrow> q \<in> set ?C" if "q \<in> set (hot t)" for q
    using claim_sel_chosen [OF dist that, of locked now "nat sz"] by (simp add: claim_sel_def claim_ids_chosen)
  have look: "row_of (hot t') mid = (if mid \<in> set (ids rows) then row_of rows mid else row_of (hot t) mid)" for mid
  proof (cases "row_of (hot t) mid")
    case None
    then show ?thesis by (simp add: t' rows row_of_map_claim row_of_map_filter [OF dist])
  next
    case (Some q)
    then have q: "q \<in> set (hot t)" "h_message_id q = mid" using row_of_Some by auto
    then have "mid \<in> set (ids rows) \<longleftrightarrow> q \<in> set ?C" using inC [of q] by (simp add: ids_rows)
    with Some show ?thesis by (simp add: t' rows row_of_map_claim row_of_map_filter [OF dist])
  qed
  have "claim_spec wk (nat sz) locked now (hot t) rows (hot t')"
    unfolding claim_spec_def
  proof (intro conjI)
    show "length rows = min (nat sz) (length (candidates locked now (hot t)))"
      by (simp add: len chosen_length)
    show "distinct (ids rows)"
      using dist by (simp add: rows ids_def distinct_map_filter comp_def)
    show "\<forall>r \<in> set rows. \<exists>q \<in> set (candidates locked now (hot t)). r = claim_set wk now q"
      using sub by (auto simp: rows)
    show "\<forall>mid. row_of (hot t') mid = (if mid \<in> set (ids rows) then row_of rows mid else row_of (hot t) mid)"
      using look by blast
    show "\<forall>r \<in> set rows. \<forall>q \<in> set (candidates locked now (hot t)).
        h_message_id q \<notin> set (ids rows) \<longrightarrow> h_created_at r \<le> h_created_at q"
    proof (intro ballI impI)
      fix r q assume r: "r \<in> set rows" and q: "q \<in> set (candidates locked now (hot t))"
        and out: "h_message_id q \<notin> set (ids rows)"
      then have "h_message_id q \<notin> set (ids ?C)" using ids_rows by simp
      then have "q \<notin> set ?C" by (auto simp: ids_def)
      then show "h_created_at r \<le> h_created_at q"
        using r q chosen_oldest by (auto simp: rows)
    qed
  qed
  then show ?thesis using that wk by (simp add: t')
qed

section \<open>The archiving transaction\<close>

lemma claim_sel_single [simp]: "claim_sel [mid] r \<longleftrightarrow> h_message_id r = mid"
  by (auto simp: claim_sel_def)

lemma claim_sel_key: "claim_sel [mid] = (\<lambda>r. h_message_id r = mid)"
  by (rule ext) simp

lemma seq_statements:
  "sql_mark_done x mid wk ts l now t = Inr (n, t') \<Longrightarrow> arch_seq t' = arch_seq t"
  "sql_archive_insert x fs mids l now t = Inr (u, t') \<Longrightarrow> arch_seq t \<le> arch_seq t'"
  "sql_delete_hot x mids l now t = Inr (u, t') \<Longrightarrow> arch_seq t' = arch_seq t"
  by (auto simp: sql_mark_done_def sql_archive_insert_def sql_delete_hot_def Let_def split: if_splits)

lemma filter_key:
  assumes "distinct (ids rs)" and "row_of rs mid = Some r"
  shows "filter (\<lambda>r. h_message_id r = mid) rs = [r]"
  using assms
proof (induction rs)
  case (Cons q rs)
  show ?case
  proof (cases "h_message_id q = mid")
    case True
    then have "filter (\<lambda>r. h_message_id r = mid) rs = []"
      using Cons.prems(1) by (auto simp: ids_def filter_empty_conv image_iff)
    with True Cons.prems(2) show ?thesis by (simp add: row_of_def)
  next
    case False
    with Cons show ?thesis by (simp add: row_of_def ids_def)
  qed
qed (simp add: row_of_def)

lemma done_set_simps [simp]:
  "h_message_id (done_set x ts r) = h_message_id r" "h_processed_at (done_set x ts r) = Some (ts_in x ts)"
  by (simp_all add: done_set_def)

text \<open>The tables after a message has been archived as processed.\<close>

definition done_tables :: "ext \<Rightarrow> string \<Rightarrow> int \<Rightarrow> int \<Rightarrow> hot_row \<Rightarrow> tables \<Rightarrow> tables" where
  "done_tables x mid ts now r t =
     t\<lparr>hot := filter (\<lambda>q. h_message_id q \<noteq> mid) (hot t),
       archive := archive t @ [archive_of FinalProcessed now (arch_seq t) (done_set x ts r)],
       arch_seq := arch_seq t + 1\<rparr>"

lemma mark_done_rows:
  assumes "distinct (ids rs)" and "row_of rs mid = Some r" and "owned_sel mid wk r"
  shows "filter (\<lambda>q. h_message_id q = mid) (upd_where (owned_sel mid wk) (done_set x ts) rs) = [done_set x ts r]"
    and "filter (\<lambda>q. h_message_id q \<noteq> mid) (upd_where (owned_sel mid wk) (done_set x ts) rs)
       = filter (\<lambda>q. h_message_id q \<noteq> mid) rs"
proof -
  have "filter (\<lambda>q. h_message_id q = mid) (upd_where (owned_sel mid wk) (done_set x ts) rs)
      = upd_where (owned_sel mid wk) (done_set x ts) (filter (\<lambda>q. h_message_id q = mid) rs)"
    by (induction rs) (auto simp: upd_where_def)
  also have "\<dots> = [done_set x ts r]"
    using assms by (simp add: filter_key upd_where_def)
  finally show "filter (\<lambda>q. h_message_id q = mid) (upd_where (owned_sel mid wk) (done_set x ts) rs) = [done_set x ts r]" .
  show "filter (\<lambda>q. h_message_id q \<noteq> mid) (upd_where (owned_sel mid wk) (done_set x ts) rs)
       = filter (\<lambda>q. h_message_id q \<noteq> mid) rs"
    by (induction rs) (auto simp: upd_where_def owned_sel_def)
qed

text \<open>What the three statements of the transaction leave behind.\<close>

lemma done_statements:
  assumes "hot_ok (hot t)"
    and "sql_mark_done x mid wk ts l1 n1 t = Inr (n, t1)" and "n \<noteq> 0"
    and "sql_archive_insert x FinalProcessed [mid] l2 n2 t1 = Inr (u2, t2)"
    and "sql_delete_hot x [mid] l3 n3 t2 = Inr (u3, t3)"
  shows "\<exists>r. row_of (hot t) mid = Some r \<and> owned_sel mid wk r \<and> t3 = done_tables x mid ts n2 r t"
proof -
  have dist: "distinct (ids (hot t))" using assms(1) by (simp add: hot_ok_def)
  have t1: "t1 = t\<lparr>hot := upd_where (owned_sel mid wk) (done_set x ts) (hot t)\<rparr>"
    and n: "n = count_where (owned_sel mid wk) (hot t)"
    using assms(2) by (auto simp: sql_mark_done_def split: if_splits)
  obtain r where r: "row_of (hot t) mid = Some r" "owned_sel mid wk r"
    using assms(3) n count_where_key [OF dist, of "owned_sel mid wk" mid]
    by (auto simp: owned_sel_def split: option.splits if_splits)
  have "t2 = t1\<lparr>archive := archive t @ [archive_of FinalProcessed n2 (arch_seq t) (done_set x ts r)],
      arch_seq := arch_seq t + 1\<rparr>"
    using assms(4)
    by (auto simp: t1 sql_archive_insert_def claim_sel_key mark_done_rows [OF dist r] split: if_splits)
  then have "t3 = done_tables x mid ts n2 r t"
    using assms(5)
    by (auto simp: t1 sql_delete_hot_def mark_done_rows [OF dist r] done_tables_def split: if_splits)
  with r show ?thesis by blast
qed

lemma mark_done_none:
  assumes "hot_ok (hot t)" and "sql_mark_done x mid wk ts l1 n1 t = Inr (0, t1)"
  shows "\<not> (\<exists>r. row_of (hot t) mid = Some r \<and> owned_sel mid wk r)"
proof -
  have "count_where (owned_sel mid wk) (hot t) = 0"
    using assms(2) by (auto simp: sql_mark_done_def split: if_splits)
  then show "\<not> (\<exists>r. row_of (hot t) mid = Some r \<and> owned_sel mid wk r)"
    using assms(1) count_where_key [of "hot t" "owned_sel mid wk" mid]
    by (auto simp: hot_ok_def owned_sel_def split: option.splits)
qed

text \<open>Every way out of \<open>markDoneAndArchive\<close>.\<close>

lemma markDoneAndArchive_cases:
  assumes run: "markDoneAndArchive x s mid ts w = (res, w')" and ok: "hot_ok (hot (tabs w))"
  obtains
    (lost) e k where "res = Inl e" "tabs w' = (tabs w)\<lparr>arch_seq := k\<rparr>" "arch_seq (tabs w) \<le> k"
  | (not_owner) "res = Inr False" "tabs w' = tabs w"
      "\<not> (\<exists>r. row_of (hot (tabs w)) mid = Some r \<and> owned_sel mid (WorkerID (s_cfg s)) r)"
  | (moved) r now where "row_of (hot (tabs w)) mid = Some r" "owned_sel mid (WorkerID (s_cfg s)) r"
      "tabs w' = done_tables x mid ts now r (tabs w)" "res = Inr True \<or> (\<exists>e. res = Inl e)"
proof -
  have rb: thesis if "res = Inl e" "w' = rollback_tx (tabs w) v" "arch_seq (tabs w) \<le> arch_seq (tabs v)" for e v
    using lost [of e "arch_seq (tabs v)"] that by (simp add: rollback_tx_def)
  from run show thesis unfolding markDoneAndArchive_def
  proof (cases rule: begin_do_cases)
    case failed
    then show ?thesis using lost [of _ "arch_seq (tabs w)"] by simp
  next
    case (go w0)
    from go(1) show ?thesis
    proof (cases rule: tx_do_cases)
      case failed
      then show ?thesis using rb go(2) by simp
    next
      case s1: (go n w1)
      note q1 = seq_statements(1) [OF s1(2)]
      show ?thesis
      proof (cases "n = 0")
        case True
        with s1 go(2) q1 show ?thesis using not_owner mark_done_none [OF ok] by (auto simp: rollback_tx_def)
      next
        case n: False
        with s1(1) have "tx_do x (tabs w) (Wrap ''message: archive insert'') (sql_archive_insert x FinalProcessed [mid])
            (\<lambda>_. tx_do x (tabs w) (Wrap ''message: archive delete'') (sql_delete_hot x [mid])
              (\<lambda>_. commit_do x (tabs w) (Wrap ''message: archive commit'') True)) w1 = (res, w')" by simp
        then show ?thesis
        proof (cases rule: tx_do_cases)
          case failed
          then show ?thesis using rb q1 go(2) by simp
        next
          case s2: (go u2 w2)
          note q2 = seq_statements(2) [OF s2(2)]
          from s2(1) show ?thesis
          proof (cases rule: tx_do_cases)
            case failed
            then show ?thesis using rb q1 q2 go(2) by simp
          next
            case s3: (go u3 w3)
            note q3 = seq_statements(3) [OF s3(2)]
            have "hot_ok (hot (tabs w0))" using ok go(2) by simp
            from done_statements [OF this s1(2) n s2(2) s3(2)] obtain r where
              r: "row_of (hot (tabs w)) mid = Some r" "owned_sel mid (WorkerID (s_cfg s)) r"
                "tabs w3 = done_tables x mid ts (tx_now w1) r (tabs w)"
              using go(2) by auto
            from s3(1) show ?thesis
              by (cases rule: commit_do_cases)
                 (use r moved lost q1 q2 q3 go(2) in auto)
          qed
        qed
      qed
    qed
  qed
qed

lemma archive_of_archived:
  "h_processed_at r \<noteq> None \<Longrightarrow> archived fs r (archive_of fs now n r)"
  by (simp add: archived_def archive_of_eq)

lemma done_tables_step:
  assumes "hot_ok (hot t)" and "row_of (hot t) mid = Some r" and "owned_sel mid wk r"
  shows "table_step Finish t (done_tables x mid ts now r t)"
proof -
  let ?P = "\<lambda>q. h_message_id q = mid"
  have flt: "filter ?P (hot t) = [r]" using assms by (simp add: filter_key hot_ok_def)
  have "list_all (\<lambda>q. ?P q \<longrightarrow> finishes FinalProcessed (h_status q)) (hot t)"
  proof -
    have "q = r" if "q \<in> set (hot t)" "?P q" for q
      using that flt by (metis (mono_tags, lifting) filter_set list.set(1) list.simps(15) mem_Collect_eq
          set_filter singletonD)
    then show ?thesis using assms(3) by (auto simp: list_all_iff owned_sel_def)
  qed
  moreover have "list_all2 (archived FinalProcessed) (filter ?P (hot t))
      [archive_of FinalProcessed now (arch_seq t) (done_set x ts r)]"
    by (simp add: flt archived_def archive_of_eq done_set_def)
  moreover have "map a_id [archive_of FinalProcessed now (arch_seq t) (done_set x ts r)]
      = map (\<lambda>i. arch_seq t + int i) [0..<length [archive_of FinalProcessed now (arch_seq t) (done_set x ts r)]]"
    by (simp add: archive_of_eq)
  ultimately show ?thesis
    using table_step.Finish [of ?P FinalProcessed t] by (fastforce simp: done_tables_def)
qed

section \<open>The methods as runs of atomic changes\<close>

lemma markDoneAndArchive_runs:
  assumes "markDoneAndArchive x s mid ts w = (res, w')" and ok: "tables_ok (tabs w)"
  shows "runs {Finish, Burn_ids} (tabs w) (tabs w')"
proof -
  have hok: "hot_ok (hot (tabs w))" using ok by (simp add: tables_ok_def)
  from assms(1) hok show ?thesis
  proof (cases rule: markDoneAndArchive_cases)
    case (lost e k)
    then show ?thesis
      by (auto intro!: runs_step [of Burn_ids] table_step.Burn_ids)
  next
    case (moved r now)
    then show ?thesis using done_tables_step [OF hok] by (auto intro!: runs_step [of Finish])
  qed auto
qed

lemma claimBatch_runs:
  assumes "claimBatch x s sz w = (res, w')" and "tables_ok (tabs w)"
  shows "runs {Move} (tabs w) (tabs w')"
  using assms claim.query_runs [of x DB x "WorkerID (s_cfg s)" sz w]
  by (auto simp: claimBatch_def query_hot split: prod.splits sum.splits)

lemma markRetry_runs:
  assumes "markRetry x s mid k n e w = (res, w')" and "tables_ok (tabs w)"
  shows "runs {Move} (tabs w) (tabs w')"
  using assms mark_retry.exec_runs [of x DB x mid k n e "WorkerID (s_cfg s)" w]
  by (auto simp: markRetry_def split: prod.splits sum.splits)

lemma markFailed_runs:
  assumes "markFailed x s mid e w = (res, w')" and "tables_ok (tabs w)"
  shows "runs {Move} (tabs w) (tabs w')"
  using assms mark_failed.exec_runs [of x DB x mid e "WorkerID (s_cfg s)" w]
  by (auto simp: markFailed_def split: prod.splits sum.splits)

lemma deadLetter_runs:
  assumes "deadLetter x mid e w = (res, w')" and "tables_ok (tabs w)"
  shows "runs {Move} (tabs w) (tabs w')"
  using assms dead_letter.exec_runs [of x DB x mid e w]
  by (auto simp: deadLetter_def split: prod.splits sum.splits)

lemma pop_random_frame [simp]: "pop_random w = (r, w') \<Longrightarrow> tabs w' = tabs w"
  "pop_random w = (r, w') \<Longrightarrow> obs w' = obs w" "pop_random w = (r, w') \<Longrightarrow> app_now w' = app_now w"
  "pop_random w = (r, w') \<Longrightarrow> script w' = script w" "pop_random w = (r, w') \<Longrightarrow> aborted w' = aborted w"
  by (auto simp: pop_random_def split: list.splits)

lemma prepareFields_frame:
  assumes "prepareFields s pl hs w = (res, w')"
  shows "tabs w' = tabs w" "obs w' = obs w" "app_now w' = app_now w" "script w' = script w"
    "aborted w' = aborted w"
  using assms by (auto simp: prepareFields_def Let_def split: prod.splits option.splits sum.splits)

lemma insertDedup_runs:
  assumes "insertDedup x db mid pk tp src ex w = (res, w')" and "tables_ok (tabs w)"
  shows "runs {Add_dedup} (tabs w) (tabs w')"
  using assms insert_dedup.exec_runs [of x db x mid "nullString pk" tp "nullString src" ex w]
  by (auto simp: insertDedup_def split: prod.splits sum.splits)

lemma insertHot_runs:
  assumes "insertHot x s db msg w = (res, w')" and "tables_ok (tabs w)"
  shows "runs {Add_hot} (tabs w) (tabs w')"
  using assms(1) unfolding insertHot_def
  by (auto split: prod.splits sum.splits
      dest!: insert_hot.exec_runs simp: assms(2) prepareFields_frame(1))

lemma batch_rows_frame:
  "batch_rows s now msgs rows args w = (res, w') \<Longrightarrow> tabs w' = tabs w \<and> obs w' = obs w"
  by (induction msgs arbitrary: rows args w)
     (auto simp: Let_def prepareFields_frame split: prod.splits sum.splits)

lemma insertHotBatch_runs:
  assumes "insertHotBatch x s db msgs w = (res, w')" and "tables_ok (tabs w)"
  shows "runs {Add_hot} (tabs w) (tabs w')"
  using assms(1) unfolding insertHotBatch_def
  by (auto split: if_splits prod.splits sum.splits
      dest!: insert_hot.exec_runs batch_rows_frame simp: assms(2))

section \<open>The multi-row insert\<close>

text \<open>The reference: the rows one after another, each from its own nine arguments.\<close>

fun insert_each :: "ext \<Rightarrow> sql_arg list list \<Rightarrow> hot_row list \<Rightarrow> pg_reject + hot_row list" where
  "insert_each x [] rs = Inr rs"
| "insert_each x (vs # vss) rs =
     (case hot_row_of_args x vs of
        Inl rj \<Rightarrow> Inl rj
      | Inr r \<Rightarrow> insert_each x vss (insert_new r rs))"

lemma values_row_slice:
  "values_row (pre @ c @ post) (map (\<lambda>j. length pre + Suc j) [0..<length c]) = Some c"
proof (induction c arbitrary: pre)
  case (Cons a c)
  have "map (\<lambda>j. length pre + Suc j) [0..<length (a # c)]
      = (length pre + 1) # map (\<lambda>j. length (pre @ [a]) + Suc j) [0..<length c]"
    by (simp add: upt_conv_Cons map_Suc_upt [symmetric] del: upt_Suc) 
  then show ?case using Cons [of "pre @ [a]"] by (simp add: placeholder_def nth_append del: upt_Suc)
qed simp

lemma insert_values_append:
  "insert_values x args (rows1 @ rows2) rs =
     (case insert_values x args rows1 rs of Inl e \<Rightarrow> Inl e | Inr rs' \<Rightarrow> insert_values x args rows2 rs')"
  by (induction rows1 arbitrary: rs) (auto split: option.splits sum.splits)

lemma insert_each_append:
  "insert_each x (vss1 @ vss2) rs =
     (case insert_each x vss1 rs of Inl e \<Rightarrow> Inl e | Inr rs' \<Rightarrow> insert_each x vss2 rs')"
  by (induction vss1 arbitrary: rs) (auto split: sum.splits)

text \<open>The placeholders that \<open>insertHotBatch\<close> has written when \<open>vss\<close> are the argument groups so far.\<close>

definition nine :: "nat \<Rightarrow> nat list" where
  "nine base = [base+1, base+2, base+3, base+4, base+5, base+6, base+7, base+8, base+9]"

fun group_rows :: "nat \<Rightarrow> sql_arg list list \<Rightarrow> nat list list" where
  "group_rows base [] = []"
| "group_rows base (vs # vss) = nine base # group_rows (base + length vs) vss"

lemma nine_upt: "nine base = map (\<lambda>j. base + Suc j) [0..<9]"
  by (simp add: nine_def upt_rec)

lemma group_rows_append:
  "group_rows base (vss @ [vs]) = group_rows base vss @ [nine (base + length (concat vss))]"
  by (induction vss arbitrary: base) (simp_all add: add.assoc)

lemma insert_values_groups:
  assumes "\<forall>vs \<in> set vss. length vs = 9"
  shows "insert_values x (pre @ concat vss @ post) (group_rows (length pre) vss) rs = insert_each x vss rs"
  using assms
proof (induction vss arbitrary: pre rs)
  case (Cons vs vss)
  have "values_row (pre @ vs @ (concat vss @ post)) (nine (length pre)) = Some vs"
    using values_row_slice [of pre vs "concat vss @ post"] Cons.prems by (simp add: nine_upt)
  moreover have "insert_values x ((pre @ vs) @ concat vss @ post) (group_rows (length (pre @ vs)) vss) rs'
      = insert_each x vss rs'" for rs'
    by (rule Cons.IH) (use Cons.prems in simp)
  ultimately show ?case by (simp split: sum.split)
qed simp

text \<open>The loop produces one group per message, in order.\<close>

lemma length_hot_args [simp]: "length (hot_args s msg flds now) = 9"
  by (simp add: hot_args_def)

lemma batch_rows_groups:
  assumes "batch_rows s now msgs (group_rows 0 vss) (concat vss) w = (Inr (rows, args), w')"
  shows "\<exists>fs. length fs = length msgs
     \<and> args = concat (vss @ map2 (\<lambda>m f. hot_args s m f now) msgs fs)
     \<and> rows = group_rows 0 (vss @ map2 (\<lambda>m f. hot_args s m f now) msgs fs)"
  using assms
proof (induction msgs arbitrary: vss w)
  case Nil
  then show ?case by simp
next
  case (Cons m msgs)
  then obtain f w1 where pf: "prepareFields s (Payload m) (Headers m) w = (Inr f, w1)"
    and rest: "batch_rows s now msgs (group_rows 0 vss @ [nine (length (concat vss))])
        (concat vss @ hot_args s m f now) w1 = (Inr (rows, args), w')"
    by (auto simp: Let_def nine_def split: prod.splits sum.splits)
  have "group_rows 0 vss @ [nine (length (concat vss))] = group_rows 0 (vss @ [hot_args s m f now])"
    by (simp add: group_rows_append)
  then obtain fs where "length fs = length msgs"
    "args = concat ((vss @ [hot_args s m f now]) @ map2 (\<lambda>m f. hot_args s m f now) msgs fs)"
    "rows = group_rows 0 ((vss @ [hot_args s m f now]) @ map2 (\<lambda>m f. hot_args s m f now) msgs fs)"
    using Cons.IH [of "vss @ [hot_args s m f now]" w1] rest by auto
  then show ?case by (intro exI [of _ "f # fs"]) simp
qed

text \<open>The rows of the messages of a batch, each inserted unless its key is taken.\<close>

lemma insert_each_fold:
  "insert_each x vss rs = Inr rs' \<longleftrightarrow>
     (\<exists>qs. list_all2 (\<lambda>vs q. hot_row_of_args x vs = Inr q) vss qs \<and> rs' = fold insert_new qs rs)"
proof (induction vss arbitrary: rs)
  case (Cons vs vss)
  show ?case
  proof (cases "hot_row_of_args x vs")
    case (Inr q)
    then show ?thesis by (auto simp: Cons list_all2_Cons1) 
  qed (auto simp: list_all2_Cons1)
qed auto

lemma insertHotBatch_None:
  assumes "insertHotBatch x s db msgs w = (None, w')"
  obtains fs qs where "length fs = length msgs"
    and "list_all2 (\<lambda>(m, f) q. hot_row_of_args x (hot_args s m f (app_now w)) = Inr q) (zip msgs fs) qs"
    and "tabs w' = (tabs w)\<lparr>hot := fold insert_new qs (hot (tabs w))\<rparr>"
proof (cases "msgs = []")
  case True
  then show ?thesis using assms that [of "[]" "[]"] by (simp add: insertHotBatch_def)
next
  case False
  with assms obtain rows args w1 u where b: "batch_rows s (app_now w) msgs [] [] w = (Inr (rows, args), w1)"
    and e: "exec x db (sql_insert_hot x rows args) w1 = (Inr u, w')"
    by (auto simp: insertHotBatch_def split: prod.splits sum.splits)
  obtain fs where fs: "length fs = length msgs"
    and args: "args = concat (map2 (\<lambda>m f. hot_args s m f (app_now w)) msgs fs)"
    and rows: "rows = group_rows 0 (map2 (\<lambda>m f. hot_args s m f (app_now w)) msgs fs)"
    using batch_rows_groups [of s "app_now w" msgs "[]" w rows args w1] b by auto
  let ?vss = "map2 (\<lambda>m f. hot_args s m f (app_now w)) msgs fs"
  have "insert_values x args rows rs = insert_each x ?vss rs" for rs
    using insert_values_groups [of ?vss x "[]" "[]" rs] by (simp add: args rows case_prod_unfold)
  then obtain rs' where "insert_each x ?vss (hot (tabs w)) = Inr rs'"
    and t: "tabs w' = (tabs w)\<lparr>hot := rs'\<rparr>"
    using exec_Inr(1) [OF e] batch_rows_frame [OF b]
    by (auto simp: sql_insert_hot_def split: if_splits sum.splits)
  then obtain qs where "list_all2 (\<lambda>vs q. hot_row_of_args x vs = Inr q) ?vss qs"
    and "rs' = fold insert_new qs (hot (tabs w))"
    by (auto simp: insert_each_fold)
  with that [OF fs, of qs] t show ?thesis by (simp add: list_all2_map1 case_prod_unfold)
qed

lemma insertHot_None:
  assumes "insertHot x s db msg w = (None, w')"
  obtains f q where "hot_row_of_args x (hot_args s msg f (app_now w)) = Inr q"
    and "tabs w' = (tabs w)\<lparr>hot := insert_new q (hot (tabs w))\<rparr>"
proof -
  obtain f w1 u where pf: "prepareFields s (Payload msg) (Headers msg) w = (Inr f, w1)"
    and e: "exec x db (sql_insert_hot x [nine 0] (hot_args s msg f (app_now w1))) w1 = (Inr u, w')"
    using assms by (auto simp: insertHot_def nine_def numeral_2_eq_2 split: prod.splits sum.splits)
  have "insert_values x (hot_args s msg f (app_now w1)) [nine 0] rs = insert_each x [hot_args s msg f (app_now w1)] rs" for rs
    using insert_values_groups [of "[hot_args s msg f (app_now w1)]" x "[]" "[]" rs] by simp
  then show ?thesis
    using exec_Inr(1) [OF e] prepareFields_frame [OF pf] that [of f]
    by (auto simp: sql_insert_hot_def split: if_splits sum.splits)
qed

section \<open>What was written is what is read\<close>

text \<open>A \<open>JSONB\<close> column returns a JSON string of plain characters exactly as it was written.\<close>

definition jsonb_keeps_strings :: "ext \<Rightarrow> bool" where
  "jsonb_keeps_strings x \<longleftrightarrow>
     (\<forall>s. list_all json_safe s \<longrightarrow> jsonb_in x (json_marshal_string s) = Some (json_marshal_string s))"

text \<open>A map of headers that JSON can carry, and the order in which it comes back.\<close>

definition headers_ok :: "headers \<Rightarrow> bool" where
  "headers_ok hs = (case hs of None \<Rightarrow> True | Some m \<Rightarrow> utf8_headers m \<and> distinct (map fst m))"

definition by_key :: "headers \<Rightarrow> headers" where
  "by_key hs = map_option (sort_key fst) hs"

lemma unmarshal_marshal_headers:
  assumes "headers_ok hs"
  shows "json_unmarshal_headers (json_marshal_headers hs) None = (by_key hs, True)"
proof (cases hs)
  case None
  have "json_parse ''null'' = Some JNull" by code_simp
  with None show ?thesis by (simp add: json_marshal_headers_def json_unmarshal_headers_def by_key_def)
next
  case (Some m)
  with assms show ?thesis by (simp add: headers_ok_def by_key_def json_headers_roundtrip)
qed

lemma reg_Encrypt_plain:
  assumes "NewCipherRegistry q cs v = Inr r" and "reg_Encrypt r rnd pt = Inr st" and "jsonb_keeps_strings x"
  shows "jsonb_in x st = Some st"
proof -
  have "cipherVersionRegex_match (cVersion (current r))"
    using NewCipherRegistry_props(2,3) [OF assms(1)] by blast
  then show ?thesis
    using assms(2,3) stamp_safe by (auto simp: reg_Encrypt_def jsonb_keeps_strings_def split: sum.splits)
qed

lemma encrypted_row_roundtrip:
  assumes pf: "prepareFields s1 (Payload msg) (Headers msg) w = (Inr f, w1)"
    and row: "hot_row_of_args x (hot_args s1 msg f now) = Inr q"
    and c1: "s_cipher s1 = Some r1" "NewCipherRegistry q1 cs1 v1 = Inr r1"
    and c2: "s_cipher s2 = Some r2" "NewCipherRegistry q2 cs2 v2 = Inr r2"
    and keep: "current r1 \<in> set cs2" "cipher_ok (current r1)"
    and json: "jsonb_keeps_strings x" "headers_ok (Headers msg)"
  shows "hydrate tx s2 (row_message q) =
     ((row_message q)\<lparr>Payload := Payload msg, Headers := by_key (Headers msg), rawHeaders := None\<rparr>, None)"
    and "MessageID (row_message q) = MessageID msg" and "MaxRetries (row_message q) = MaxRetries msg"
proof -
  obtain r1' r2' where e: "reg_Encrypt r1 r1' (Payload msg) = Inr (fst f)"
    "reg_Encrypt r1 r2' (json_marshal_headers (Headers msg)) = Inr (snd f)"
    using pf c1(1) by (auto simp: prepareFields_def Let_def split: prod.splits sum.splits)
  have stored: "jsonb_in x (fst f) = Some (fst f)" "jsonb_in x (snd f) = Some (snd f)"
    using e reg_Encrypt_plain [OF c1(2)] json(1) by blast+
  then have q: "h_payload q = fst f" "h_headers q = Some (snd f)" "h_encrypted q"
    "h_message_id q = MessageID msg" "h_max_retry q = MaxRetries msg"
    using row c1(1)
    by (auto simp: hot_row_of_args_def hot_args_def pending_row_def split: if_splits option.splits)
  have "reg_Decrypt tx r2 (fst f) = Inr (Payload msg)"
    "reg_Decrypt tx r2 (snd f) = Inr (json_marshal_headers (Headers msg))"
    using registry_rotation [OF c1(2) c2(2) keep] e by blast+
  then show "hydrate tx s2 (row_message q) =
     ((row_message q)\<lparr>Payload := Payload msg, Headers := by_key (Headers msg), rawHeaders := None\<rparr>, None)"
    by (simp add: hydrate_def hydrate_fields_def row_message_def q c2(1)
        unmarshal_marshal_headers [OF json(2)])
  show "MessageID (row_message q) = MessageID msg" "MaxRetries (row_message q) = MaxRetries msg"
    by (simp_all add: row_message_def q)
qed

section \<open>Owner-guarded transitions\<close>

definition owned_by :: "hot_row list \<Rightarrow> string \<Rightarrow> string \<Rightarrow> bool" where
  "owned_by rs mid wk =
     (case row_of rs mid of None \<Rightarrow> False
      | Some r \<Rightarrow> h_status r = StatusProcessing \<and> h_processing_by r = Some wk)"

lemma owned_by_sel: "owned_by rs mid wk = (case row_of rs mid of None \<Rightarrow> False | Some r \<Rightarrow> owned_sel mid wk r)"
  by (auto simp: owned_by_def owned_sel_def split: option.splits dest: row_of_Some)

lemma count_owned_pos: "distinct (ids rs) \<Longrightarrow> 0 < count_where (owned_sel mid wk) rs \<longleftrightarrow> owned_by rs mid wk"
  using count_where_key [of rs "owned_sel mid wk" mid]
  by (auto simp: owned_by_sel owned_sel_def split: option.splits)

lemma row_of_owned_upd:
  assumes "\<And>r. h_message_id (f r) = h_message_id r"
  shows "row_of (upd_where (owned_sel mid wk) f rs) m =
     (if m = mid \<and> owned_by rs mid wk then map_option f (row_of rs m) else row_of rs m)"
proof -
  have "row_of (upd_where (owned_sel mid wk) f rs) m
      = map_option (\<lambda>r. if owned_sel mid wk r then f r else r) (row_of rs m)"
    using assms by (induction rs) (auto simp: row_of_def upd_where_def)
  moreover have "owned_sel mid wk r \<longleftrightarrow> m = mid \<and> owned_by rs mid wk" if "row_of rs m = Some r" for r
    using that row_of_Some [OF that] by (auto simp: owned_by_sel owned_sel_def)
  ultimately show ?thesis by (cases "row_of rs m") auto
qed

text \<open>
  \<open>markRetry\<close> and \<open>markFailed\<close>: an error leaves the row as it was or, when only the answer got lost,
  as a success would have; success reports whether the caller still owned the row and changes
  that row only.
\<close>

lemma markRetry_cases:
  assumes "markRetry x s mid k n e w = (res, w')" and "hot_ok (hot (tabs w))"
  obtains (unchanged) e' where "res = Inl e'" "tabs w' = tabs w"
  | (applied) "tabs w' = (tabs w)\<lparr>hot := upd_where (owned_sel mid (WorkerID (s_cfg s))) (retry_set x k n e) (hot (tabs w))\<rparr>"
      "(\<exists>e'. res = Inl e') \<or> res = Inr (owned_by (hot (tabs w)) mid (WorkerID (s_cfg s)))"
proof -
  have dist: "distinct (ids (hot (tabs w)))" using assms(2) by (simp add: hot_ok_def)
  obtain r where ex: "exec x DB (sql_mark_retry x mid k n e (WorkerID (s_cfg s))) w = (r, w')"
    and res: "res = (case r of Inl e' \<Rightarrow> Inl (Wrap ''message: mark retry'' e') | Inr v \<Rightarrow> Inr (v > 0))"
    using assms(1) by (auto simp: markRetry_def split: prod.splits sum.splits)
  from ex show thesis
    by (cases rule: mark_retry.exec_cases)
       (use res unchanged applied count_owned_pos [OF dist] in auto)
qed

lemma markFailed_cases:
  assumes "markFailed x s mid e w = (res, w')" and "hot_ok (hot (tabs w))"
  obtains (unchanged) e' where "res = Inl e'" "tabs w' = tabs w"
  | (applied) now where
      "tabs w' = (tabs w)\<lparr>hot := upd_where (owned_sel mid (WorkerID (s_cfg s))) (failed_set e now) (hot (tabs w))\<rparr>"
      "(\<exists>e'. res = Inl e') \<or> res = Inr (owned_by (hot (tabs w)) mid (WorkerID (s_cfg s)))"
proof -
  have dist: "distinct (ids (hot (tabs w)))" using assms(2) by (simp add: hot_ok_def)
  obtain r where ex: "exec x DB (sql_mark_failed x mid e (WorkerID (s_cfg s))) w = (r, w')"
    and res: "res = (case r of Inl e' \<Rightarrow> Inl (Wrap ''message: mark failed'' e') | Inr v \<Rightarrow> Inr (v > 0))"
    using assms(1) by (auto simp: markFailed_def split: prod.splits sum.splits)
  from ex show thesis
    by (cases rule: mark_failed.exec_cases)
       (use res unchanged applied count_owned_pos [OF dist] in auto)
qed

lemma deadLetter_cases:
  assumes "deadLetter x mid e w = (res, w')"
  obtains (unchanged) e' where "res = Some e'" "tabs w' = tabs w"
  | (applied) now where "tabs w' = (tabs w)\<lparr>hot := upd_where (key_sel mid) (failed_set e now) (hot (tabs w))\<rparr>"
proof -
  obtain r w1 where ex: "exec x DB (sql_dead_letter x mid e) w = (r, w1)" by fastforce
  then have w1: "w' = w1" "\<And>e'. r = Inl e' \<Longrightarrow> res = Some (Wrap ''message: dead letter'' e')"
    using assms by (auto simp: deadLetter_def split: sum.splits)
  show thesis
  proof (cases "tabs w' = tabs w \<and> (\<exists>e'. r = Inl e')")
    case True
    then show ?thesis using unchanged w1(2) by auto
  next
    case False
    then obtain locked now v where "sql_dead_letter x mid e locked now (tabs w) = Inr (v, tabs w')"
      using exec_Inl(1) [of x DB "sql_dead_letter x mid e" w _ w1]
        exec_Inr(1) [of x DB "sql_dead_letter x mid e" w _ w1] ex w1 by (cases r) auto
    then have "tabs w' = (tabs w)\<lparr>hot := upd_where (key_sel mid) (failed_set e now) (hot (tabs w))\<rparr>"
      by (auto simp: sql_dead_letter_def split: if_splits)
    then show ?thesis by (rule applied)
  qed
qed

text \<open>No method of the store reports metrics or logs.\<close>

lemma store_obs:
  "claimBatch x s sz w = (r1, w') \<Longrightarrow> obs w' = obs w"
  "markRetry x s mid k n e w = (r2, w') \<Longrightarrow> obs w' = obs w"
  "markFailed x s mid e w = (r2, w') \<Longrightarrow> obs w' = obs w"
  "deadLetter x mid e w = (r3, w') \<Longrightarrow> obs w' = obs w"
  "insertDedup x db mid pk tp src ex w = (r3, w') \<Longrightarrow> obs w' = obs w"
  "insertHot x s db msg w = (r3, w') \<Longrightarrow> obs w' = obs w"
  "insertHotBatch x s db msgs w = (r3, w') \<Longrightarrow> obs w' = obs w"
  by (auto simp: claimBatch_def markRetry_def markFailed_def deadLetter_def insertDedup_def insertHot_def
      insertHotBatch_def split: prod.splits sum.splits if_splits
      dest!: exec_obs query_obs prepareFields_frame(2) batch_rows_frame)

lemma markDoneAndArchive_obs: "markDoneAndArchive x s mid ts w = (res, w') \<Longrightarrow> obs w' = obs w"
  unfolding markDoneAndArchive_def
  by (elim begin_do_cases tx_do_cases commit_do_cases)
     (auto split: if_splits elim!: tx_do_cases commit_do_cases)

text \<open>
  The owner guard of \<open>markRetry\<close> and \<open>markFailed\<close>: called by a worker that does not own the row
  (it was recovered, claimed by another worker, finished or dead-lettered meanwhile), neither
  changes any table, and neither reports ownership.
\<close>

lemma not_owner_unchanged:
  assumes "markRetry x s mid k n e w = (res1, w1)" and "markFailed x s mid e w = (res2, w2)"
    and "tables_ok (tabs w)" and "\<not> owned_by (hot (tabs w)) mid (WorkerID (s_cfg s))"
  shows "tabs w1 = tabs w \<and> tabs w2 = tabs w \<and> res1 \<noteq> Inr True \<and> res2 \<noteq> Inr True"
proof -
  let ?wk = "WorkerID (s_cfg s)"
  have ok: "hot_ok (hot (tabs w))" using assms(3) by (simp add: tables_ok_def)
  have none: "\<not> owned_sel mid ?wk r" if "r \<in> set (hot (tabs w))" for r
    using assms(4) ok row_of_mem [of "hot (tabs w)" r] that by (auto simp: owned_by_sel owned_sel_def hot_ok_def)
  have same: "upd_where (owned_sel mid ?wk) f (hot (tabs w)) = hot (tabs w)" for f
    using none by (simp add: upd_where_def map_idI)
  from assms(1) ok have "tabs w1 = tabs w \<and> res1 \<noteq> Inr True"
    by (cases rule: markRetry_cases) (use same assms(4) in auto)
  moreover from assms(2) ok have "tabs w2 = tabs w \<and> res2 \<noteq> Inr True"
    by (cases rule: markFailed_cases) (use same assms(4) in auto)
  ultimately show ?thesis by blast
qed

end
