(* ===== verification/Messaging.thy ===== *)
theory Messaging
  imports Store_Facts
begin

text \<open>
  \<^verbatim>\<open>messaging.go\<close>: construction, the two entry points \<open>Receive\<close> and \<open>Enqueue\<close> (and its batch form),
  the handler registry, and \<open>ProcessBatch\<close> with \<open>handleOne\<close> and \<open>handleRetry\<close>.

  A handler is the caller's code. It is given a context and a pointer to the message and may do
  anything: it returns its error, the message as it leaves it, and the world as it leaves it. What
  a theorem needs of a handler is a named hypothesis. Whether the caller passes a transaction is a
  boolean \<open>tx\<close>; when it does, the call runs between the caller's own begin and commit.
\<close>

section \<open>State\<close>

type_synonym handler = "hctx \<Rightarrow> message \<Rightarrow> world \<Rightarrow> err option \<times> message \<times> world"

record topicRegistration =
  t_handler :: handler
  t_opts :: callOptions

record messaging =
  m_store :: store
  m_cfg :: config
  m_backoff :: "backoff option"
  m_metrics :: sink
  m_logger :: sink
  m_handlers :: "string \<rightharpoonup> topicRegistration"
  m_defaultHandler :: "topicRegistration option"

section \<open>Construction\<close>

text \<open>The cipher registry that the options ask for, if any.\<close>

definition New_cipher :: "(string \<Rightarrow> string) \<Rightarrow> options \<Rightarrow> err + cipher_registry option" where
  "New_cipher quote o' =
     (case o_ciphers o' of
        [] \<Rightarrow> Inr None
      | c # cs \<Rightarrow>
          (if o_currentCipherVersion o' = '''' \<and> cs \<noteq> []
             then Inl (Errorf ''message: WithCiphers: currentVersion is required when more than one cipher is given'')
           else
             (let cur = (if o_currentCipherVersion o' = '''' then cVersion c else o_currentCipherVersion o') in
              case NewCipherRegistry quote (c # cs) cur of
                Inl e \<Rightarrow> Inl e
              | Inr reg \<Rightarrow> Inr (Some reg))))"

definition New :: "(string \<Rightarrow> string) \<Rightarrow> config \<Rightarrow> (options \<Rightarrow> options) list \<Rightarrow> err + messaging" where
  "New quote cfg opts =
     (case assertValidName quote (Name cfg) of
        Some e \<Rightarrow> Inl e
      | None \<Rightarrow>
          (let o' = applyOptions opts;
               cfg = Config_withDefaults cfg;
               backoff = (case o_backoff o' of None \<Rightarrow> DefaultBackoff cfg | Some b \<Rightarrow> Some b) in
           case New_cipher quote o' of
             Inl e \<Rightarrow> Inl e
           | Inr cipher \<Rightarrow>
               Inr \<lparr>m_store = newStore cfg cipher, m_cfg = cfg, m_backoff = backoff,
                    m_metrics = o_metrics o', m_logger = o_logger o', m_handlers = Map.empty,
                    m_defaultHandler = None\<rparr>))"

section \<open>Receive and Enqueue\<close>

text \<open>The defaulting that all entry points do in place on the caller's message.\<close>

definition default_retries :: "messaging \<Rightarrow> message \<Rightarrow> message" where
  "default_retries m msg = (if MaxRetries msg \<le> 0 then msg\<lparr>MaxRetries := DefaultMaxRetries (m_cfg m)\<rparr> else msg)"

definition receive_run :: "ext \<Rightarrow> messaging \<Rightarrow> dbtx \<Rightarrow> message \<Rightarrow> int option \<Rightarrow> world \<Rightarrow> (err + bool) \<times> world" where
  "receive_run x m db msg expireAt w =
     (case insertDedup x db (MessageID msg) (PartitionKey msg) (Topic msg) (Source msg) expireAt w of
        (Some e, w1) \<Rightarrow>
          if e = ErrDuplicate
          then (Inr False, emit (Log DEBUG ''receive.duplicate'' msg) (emit (Metric DedupHit) w1))
          else (Inl e, emit (Log ERROR ''receive.error'' msg) w1)
      | (None, w1) \<Rightarrow>
          (case insertHot x (m_store m) db msg w1 of
             (Some e, w2) \<Rightarrow> (Inl e, emit (Log ERROR ''receive.error'' msg) w2)
           | (None, w2) \<Rightarrow> (Inr True, emit (Log INFO ''receive'' msg) (emit (Metric DedupMiss) w2))))"

definition Receive :: "ext \<Rightarrow> messaging \<Rightarrow> bool \<Rightarrow> message \<Rightarrow> world \<Rightarrow> (err + bool) \<times> message \<times> world" where
  "Receive x m tx msg w =
     (let msg = default_retries m msg;
          expireAt = (if DedupTTL (m_cfg m) > 0 then Some (app_now w + DedupTTL (m_cfg m)) else None);
          (res, w') = receive_run x m (if tx then TX else DB) msg expireAt w in
      (res, msg, w'))"

text \<open>Every error is logged as \<open>enqueue.error\<close> and returned; success is logged as \<open>enqueue\<close>.\<close>

definition Enqueue :: "ext \<Rightarrow> messaging \<Rightarrow> bool \<Rightarrow> message \<Rightarrow> world \<Rightarrow> err option \<times> message \<times> world" where
  "Enqueue x m tx msg w =
     (let msg = default_retries m msg;
          (res, w') =
            (if tx then insertHot x (m_store m) TX msg w
             else own_tx x (Wrap ''message: enqueue: begin tx'') (insertHot x (m_store m) TX msg) w) in
      case res of
        Some e \<Rightarrow> (Some e, msg, emit (Log ERROR ''enqueue.error'' msg) w')
      | None \<Rightarrow> (None, msg, emit (Log INFO ''enqueue'' msg) w'))"

definition EnqueueBatch ::
  "ext \<Rightarrow> messaging \<Rightarrow> bool \<Rightarrow> message list \<Rightarrow> world \<Rightarrow> err option \<times> message list \<times> world" where
  "EnqueueBatch x m tx msgs w =
     (if msgs = [] then (None, msgs, w)
      else
        (let msgs = map (default_retries m) msgs;
             (res, w') =
               (if tx then insertHotBatch x (m_store m) TX msgs w
                else own_tx x (Wrap ''message: enqueue batch: begin tx'') (insertHotBatch x (m_store m) TX msgs) w) in
         (res, msgs, w')))"

section \<open>The handler registry\<close>

definition Register :: "string \<Rightarrow> handler \<Rightarrow> (callOptions \<Rightarrow> callOptions) list \<Rightarrow> messaging \<Rightarrow> messaging" where
  "Register tp h opts m =
     m\<lparr>m_handlers := (m_handlers m)(tp \<mapsto> \<lparr>t_handler = h, t_opts = applyCallOptions opts\<rparr>)\<rparr>"

definition RegisterDefault :: "handler \<Rightarrow> (callOptions \<Rightarrow> callOptions) list \<Rightarrow> messaging \<Rightarrow> messaging" where
  "RegisterDefault h opts m = m\<lparr>m_defaultHandler := Some \<lparr>t_handler = h, t_opts = applyCallOptions opts\<rparr>\<rparr>"

section \<open>Processing\<close>

definition handleRetry :: "ext \<Rightarrow> messaging \<Rightarrow> message \<Rightarrow> err \<Rightarrow> world \<Rightarrow> world" where
  "handleRetry x m msg handlerErr w =
     (let retryCount = wrap64 (RetryCount msg + 1) in
      if retryCount > MaxRetries msg then
        (case markFailed x (m_store m) (MessageID msg) (error_text handlerErr) w of
           (Inr True, w1) \<Rightarrow>
             emit (Log ERROR ''process.failed'' msg) (emit (Metric (MessageFailed (Topic msg))) w1)
         | (_, w1) \<Rightarrow> w1)
      else
        (let delay = Next (f64_conv x) (the (m_backoff m)) retryCount in
         case markRetry x (m_store m) (MessageID msg) retryCount (app_now w + delay) (error_text handlerErr) w of
           (Inr True, w1) \<Rightarrow>
             emit (Log WARN ''process.retry'' msg) (emit (Metric (MessageRetry (Topic msg))) w1)
         | (_, w1) \<Rightarrow> w1))"

text \<open>The part of \<open>handleOne\<close> after the handler has returned \<open>err\<close> (nil is \<open>None\<close>).\<close>

definition handle_result :: "ext \<Rightarrow> messaging \<Rightarrow> message \<Rightarrow> err option \<Rightarrow> world \<Rightarrow> world" where
  "handle_result x m msg err w =
     (case err of
        Some e \<Rightarrow> handleRetry x m msg e w
      | None \<Rightarrow>
          (case markDoneAndArchive x (m_store m) (MessageID msg) (app_now w) w of
             (Inl _, w1) \<Rightarrow> emit (Log ERROR ''process.archive_error'' msg) w1
           | (Inr False, w1) \<Rightarrow> w1
           | (Inr True, w1) \<Rightarrow>
               emit (Log INFO ''processed'' msg) (emit (Metric (MessageProcessed (Topic msg))) w1)))"

text \<open>The part after decryption: the handler and what becomes of its result.\<close>

definition handle_hydrated :: "ext \<Rightarrow> messaging \<Rightarrow> message \<Rightarrow> handler \<Rightarrow> callOptions \<Rightarrow> world \<Rightarrow> world" where
  "handle_hydrated x m msg handler co w =
     (case handler (handlerCtx (m_cfg m) co) msg w of (err, msg, w1) \<Rightarrow> handle_result x m msg err w1)"

definition handleOne :: "ext \<Rightarrow> messaging \<Rightarrow> message \<Rightarrow> handler \<Rightarrow> callOptions \<Rightarrow> world \<Rightarrow> world" where
  "handleOne x m msg handler co w =
     (if Encrypted msg then
        (case hydrate (gtexts x) (m_store m) msg of
           (msg', Some e) \<Rightarrow>
             (let (_, w1) = deadLetter x (MessageID msg') (''message decrypt failed: '' @ toErrorMessage (Some e)) w in
              emit (Log ERROR ''process.decrypt_failed'' msg') (emit (Metric (MessageFailed (Topic msg'))) w1))
         | (msg', None) \<Rightarrow> handle_hydrated x m msg' handler co w)
      else handle_hydrated x m msg handler co w)"

text \<open>Which handler and options a message gets: the call's handler, the topic's, or the default.\<close>

definition route ::
  "messaging \<Rightarrow> handler option \<Rightarrow> callOptions \<Rightarrow> message \<Rightarrow> topicRegistration option" where
  "route m handler co msg =
     (case handler of
        Some h \<Rightarrow> Some \<lparr>t_handler = h, t_opts = co\<rparr>
      | None \<Rightarrow>
          (case m_handlers m (Topic msg) of
             Some reg \<Rightarrow> Some reg
           | None \<Rightarrow> m_defaultHandler m))"

text \<open>
  What one message of a claimed batch causes. \<open>slot\<close> says whether its goroutine got a slot of the
  semaphore before the context was done; without one it returns and the row stays claimed.
\<close>

definition process_one ::
  "ext \<Rightarrow> messaging \<Rightarrow> handler option \<Rightarrow> callOptions \<Rightarrow> message \<times> bool \<Rightarrow> world \<Rightarrow> world" where
  "process_one x m handler co ms w =
     (let (msg, slot) = ms in
      case route m handler co msg of
        None \<Rightarrow>
          (let (_, w1) = deadLetter x (MessageID msg) (''no handler for topic: '' @ Topic msg) w in
           emit (Log ERROR ''process.unhandled'' msg) (emit (Metric (MessageFailed (Topic msg))) w1))
      | Some reg \<Rightarrow> if slot then handleOne x m msg (t_handler reg) (t_opts reg) w else w)"

text \<open>
  \<open>sched\<close> is the scheduler: in which order the effects of the claimed messages take place, and
  which of them find a slot. Goroutines work on different rows, so each is taken as one unit.
\<close>

definition ProcessBatch ::
  "ext \<Rightarrow> messaging \<Rightarrow> (message list \<Rightarrow> (message \<times> bool) list) \<Rightarrow> int \<Rightarrow> handler option
     \<Rightarrow> (callOptions \<Rightarrow> callOptions) list \<Rightarrow> world \<Rightarrow> (err + int) \<times> world" where
  "ProcessBatch x m sched sz handler opts w =
     (let co = applyCallOptions opts in
      case claimBatch x (m_store m) sz w of
        (Inl e, w1) \<Rightarrow> (Inl e, w1)
      | (Inr msgs, w1) \<Rightarrow> (Inr (int (length msgs)), fold (process_one x m handler co) (sched msgs) w1))"

end
