(* ===== verification/Messaging_Facts.thy ===== *)
theory Messaging_Facts
  imports Messaging
begin

text \<open>
  Facts on \<^verbatim>\<open>messaging.go\<close>: what construction guarantees, every entry point as a run of atomic table
  changes, deduplication, all-or-nothing enqueueing, and the complete case analysis of what
  becomes of a claimed message.
\<close>

section \<open>Construction\<close>

lemma New_Inr:
  assumes "New quote cfg opts = Inr m"
  shows "config_ok (m_cfg m)" and "s_cfg (m_store m) = m_cfg m" and "m_backoff m \<noteq> None"
    and "assertValidName quote (Name (m_cfg m)) = None" and "Name (m_cfg m) = Name cfg"
    and "m_handlers m = Map.empty" and "m_defaultHandler m = None"
proof -
  have name: "Name (Config_withDefaults c) = Name c" for c by (simp add: Config_withDefaults_def)
  obtain cipher where nm: "assertValidName quote (Name cfg) = None"
    and m: "m = \<lparr>m_store = newStore (Config_withDefaults cfg) cipher, m_cfg = Config_withDefaults cfg,
      m_backoff = (case o_backoff (applyOptions opts) of None \<Rightarrow> DefaultBackoff (Config_withDefaults cfg) | Some b \<Rightarrow> Some b),
      m_metrics = o_metrics (applyOptions opts), m_logger = o_logger (applyOptions opts),
      m_handlers = Map.empty, m_defaultHandler = None\<rparr>"
    using assms by (auto simp: New_def Let_def split: option.splits sum.splits)
  show "config_ok (m_cfg m)" "m_handlers m = Map.empty" "m_defaultHandler m = None" by (simp_all add: m)
  show "s_cfg (m_store m) = m_cfg m"
    by (simp add: m newStore_def withDefaults_idem Let_def)
  show "m_backoff m \<noteq> None"
    using config_ok_withDefaults [of cfg] by (auto simp: m config_ok_def split: option.splits)
  show "assertValidName quote (Name (m_cfg m)) = None" "Name (m_cfg m) = Name cfg"
    by (simp_all add: m name nm)
qed

text \<open>With no ciphers the store does not encrypt; otherwise it holds a registry of exactly those.\<close>

lemma New_cipher_Inr:
  assumes "New_cipher quote o' = Inr c"
  shows "c = None \<longleftrightarrow> o_ciphers o' = []"
    and "\<And>reg. c = Some reg \<Longrightarrow> \<exists>cur. NewCipherRegistry quote (o_ciphers o') cur = Inr reg
           \<and> (o_currentCipherVersion o' \<noteq> '''' \<longrightarrow> cur = o_currentCipherVersion o')"
  using assms by (auto simp: New_cipher_def Let_def split: list.splits if_splits sum.splits)

section \<open>Entry points as runs\<close>

lemma insertHot_TX_Some:
  "insertHot x s TX msg w = (Some e, w') \<Longrightarrow> tabs w' = tabs w"
  unfolding insertHot_def
  by (auto split: prod.splits sum.splits dest!: exec_TX_Inl prepareFields_frame(1))

lemma insertHotBatch_TX_Some:
  "insertHotBatch x s TX msgs w = (Some e, w') \<Longrightarrow> tabs w' = tabs w"
  unfolding insertHotBatch_def
  by (auto split: prod.splits sum.splits if_splits dest!: exec_TX_Inl batch_rows_frame)

lemma receive_run_runs:
  assumes "receive_run x m db msg ex w = (res, w')" and "tables_ok (tabs w)"
  shows "runs {Add_dedup, Add_hot} (tabs w) (tabs w')"
proof -
  obtain r1 w1 where d: "insertDedup x db (MessageID msg) (PartitionKey msg) (Topic msg) (Source msg) ex w = (r1, w1)"
    by fastforce
  have one: "runs {Add_dedup, Add_hot} (tabs w) (tabs w1)"
    using insertDedup_runs [OF d assms(2)] by (rule runs_mono) simp
  show ?thesis
  proof (cases r1)
    case (Some e)
    then show ?thesis using assms(1) d one by (auto simp: receive_run_def split: if_splits)
  next
    case None
    obtain r2 w2 where h: "insertHot x (m_store m) db msg w1 = (r2, w2)" by fastforce
    have "runs {Add_dedup, Add_hot} (tabs w1) (tabs w2)"
      using insertHot_runs [OF h] tables_ok_runs [OF one assms(2)] runs_mono by blast
    moreover have "tabs w' = tabs w2"
      using assms(1) d h None by (auto simp: receive_run_def split: option.splits)
    ultimately show ?thesis using one runs_trans by simp
  qed
qed

lemma Receive_runs:
  assumes "Receive x m tx msg w = (res, msg', w')" and "tables_ok (tabs w)"
  shows "runs {Add_dedup, Add_hot} (tabs w) (tabs w')"
  using assms receive_run_runs by (auto simp: Receive_def Let_def split: prod.splits)

text \<open>
  \<open>Enqueue\<close> and \<open>EnqueueBatch\<close> with their own transaction: the row is there exactly once, or nothing
  has changed; success means the former, and only a lost answer to the commit can report an
  error for the former.
\<close>

lemma Enqueue_outcome:
  assumes "Enqueue x m False msg w = (res, msg', w')"
  obtains (untouched) e where "res = Some e" "tabs w' = tabs w"
  | (inserted) f q now where "hot_row_of_args x (hot_args (m_store m) msg' f now) = Inr q"
      "tabs w' = (tabs w)\<lparr>hot := insert_new q (hot (tabs w))\<rparr>"
proof -
  let ?body = "insertHot x (m_store m) TX (default_retries m msg)"
  obtain w1 where run: "own_tx x (Wrap ''message: enqueue: begin tx'') ?body w = (res, w1)"
    and out: "msg' = default_retries m msg" "tabs w' = tabs w1"
    using assms by (auto simp: Enqueue_def Let_def split: prod.splits option.splits)
  have eff: "\<exists>f q now. hot_row_of_args x (hot_args (m_store m) msg' f now) = Inr q
      \<and> tabs v' = (tabs v)\<lparr>hot := insert_new q (hot (tabs v))\<rparr>" if "?body v = (None, v')" for v v'
    using that out(1) by (auto elim!: insertHot_None)
  have sq: "arch_seq (tabs v) = arch_seq (tabs w0)" if "?body w0 = (r, v)" for w0 r v
    using that eff [of w0 v] insertHot_TX_Some [of x "m_store m"] by (cases r) auto
  have "(\<exists>e. res = Some e) \<and> tabs w1 = tabs w
      \<or> (\<exists>w0 v. ?body w0 = (None, v) \<and> tabs w0 = tabs w \<and> tabs w1 = tabs v)"
    by (rule own_tx_cases [OF run]) (erule sq)
  then show thesis
  proof (elim disjE conjE exE)
    fix e
    assume "res = Some e" "tabs w1 = tabs w"
    then show ?thesis by (metis untouched out(2))
  next
    fix w0 v
    assume "?body w0 = (None, v)" "tabs w0 = tabs w" "tabs w1 = tabs v"
    then show ?thesis using eff [of w0 v] inserted out(2) by auto
  qed
qed

lemma EnqueueBatch_outcome:
  assumes "EnqueueBatch x m False msgs w = (res, msgs', w')"
  obtains (untouched) e where "res = Some e" "tabs w' = tabs w"
  | (inserted) fs qs now where "length fs = length msgs'"
      "list_all2 (\<lambda>(m', f) q. hot_row_of_args x (hot_args (m_store m) m' f now) = Inr q) (zip msgs' fs) qs"
      "tabs w' = (tabs w)\<lparr>hot := fold insert_new qs (hot (tabs w))\<rparr>"
proof (cases "msgs = []")
  case True
  then show ?thesis using assms inserted [of "[]" _ "[]"] by (simp add: EnqueueBatch_def)
next
  case False
  let ?body = "insertHotBatch x (m_store m) TX (map (default_retries m) msgs)"
  obtain w1 where run: "own_tx x (Wrap ''message: enqueue batch: begin tx'') ?body w = (res, w1)"
    and out: "msgs' = map (default_retries m) msgs" "tabs w' = tabs w1"
    using assms False by (auto simp: EnqueueBatch_def Let_def split: prod.splits)
  have eff: "\<exists>fs qs now. length fs = length msgs'
      \<and> list_all2 (\<lambda>(m', f) q. hot_row_of_args x (hot_args (m_store m) m' f now) = Inr q) (zip msgs' fs) qs
      \<and> tabs v' = (tabs v)\<lparr>hot := fold insert_new qs (hot (tabs v))\<rparr>" if "?body v = (None, v')" for v v'
    using insertHotBatch_None [OF that] out(1) by metis
  have sq: "arch_seq (tabs v) = arch_seq (tabs w0)" if "?body w0 = (r, v)" for w0 r v
    using that eff [of w0 v] insertHotBatch_TX_Some [of x "m_store m"] by (cases r) auto
  have "(\<exists>e. res = Some e) \<and> tabs w1 = tabs w
      \<or> (\<exists>w0 v. ?body w0 = (None, v) \<and> tabs w0 = tabs w \<and> tabs w1 = tabs v)"
    by (rule own_tx_cases [OF run]) (erule sq)
  then show thesis
  proof (elim disjE conjE exE)
    fix e
    assume "res = Some e" "tabs w1 = tabs w"
    then show ?thesis by (metis untouched out(2))
  next
    fix w0 v
    assume "?body w0 = (None, v)" "tabs w0 = tabs w" "tabs w1 = tabs v"
    then show ?thesis using eff [of w0 v] inserted out(2) by auto
  qed
qed

section \<open>Deduplication\<close>

text \<open>\<open>insertDedup\<close> reports a duplicate exactly for an id it finds; otherwise it adds the entry.\<close>

lemma insertDedup_None:
  assumes "insertDedup x db mid pk tp src ex w = (None, w')"
  shows "mid \<notin> set (dedup_ids (dedup (tabs w)))" and "mid \<in> set (dedup_ids (dedup (tabs w')))"
    and "hot (tabs w') = hot (tabs w)" and "archive (tabs w') = archive (tabs w)"
proof -
  have st: "mid \<notin> set (dedup_ids (dedup t)) \<and> mid \<in> set (dedup_ids (dedup t')) \<and> hot t' = hot t \<and> archive t' = archive t"
    if "sql_insert_dedup x mid pk' tp src' ex locked now t = Inr (n, t')" "n \<noteq> 0" for pk' src' locked now t n t'
    using that by (auto simp: sql_insert_dedup_def dedup_ids_def split: if_splits option.splits)
  obtain n where ex: "exec x db (sql_insert_dedup x mid (nullString pk) tp (nullString src) ex) w = (Inr n, w')"
    and n: "n \<noteq> 0"
    using assms by (auto simp: insertDedup_def split: prod.splits sum.splits if_splits)
  obtain locked now where
    "sql_insert_dedup x mid (nullString pk) tp (nullString src) ex locked now (tabs w) = Inr (n, tabs w')"
    using exec_Inr(1) [OF ex] by blast
  from st [OF this n] show "mid \<notin> set (dedup_ids (dedup (tabs w)))" "mid \<in> set (dedup_ids (dedup (tabs w')))"
    "hot (tabs w') = hot (tabs w)" "archive (tabs w') = archive (tabs w)"
    by blast+
qed

lemma insertDedup_duplicate:
  assumes "insertDedup x db mid pk tp src ex w = (Some ErrDuplicate, w')"
  shows "mid \<in> set (dedup_ids (dedup (tabs w)))" and "tabs w' = tabs w"
proof -
  have st: "mid \<in> set (dedup_ids (dedup t)) \<and> t' = t"
    if "sql_insert_dedup x mid pk' tp src' ex locked now t = Inr (0, t')" for pk' src' locked now t t'
    using that by (auto simp: sql_insert_dedup_def split: if_splits option.splits)
  have ex: "exec x db (sql_insert_dedup x mid (nullString pk) tp (nullString src) ex) w = (Inr 0, w')"
    using assms by (auto simp: insertDedup_def split: prod.splits sum.splits if_splits)
  obtain locked now where
    "sql_insert_dedup x mid (nullString pk) tp (nullString src) ex locked now (tabs w) = Inr (0, tabs w')"
    using exec_Inr(1) [OF ex] by blast
  from st [OF this] show "mid \<in> set (dedup_ids (dedup (tabs w)))" "tabs w' = tabs w" by blast+
qed

lemma hot_row_of_args_id:
  "hot_row_of_args x (hot_args s msg f now) = Inr q \<Longrightarrow> h_message_id q = MessageID msg"
  by (auto simp: hot_row_of_args_def hot_args_def pending_row_def split: if_splits option.splits)

lemma receive_run_Inr:
  assumes "receive_run x m db msg ex w = (Inr isNew, w')"
  shows "isNew \<longleftrightarrow> MessageID msg \<notin> set (dedup_ids (dedup (tabs w)))"
    and "MessageID msg \<in> set (dedup_ids (dedup (tabs w')))"
    and "isNew \<Longrightarrow> MessageID msg \<in> set (ids (hot (tabs w')))"
    and "\<not> isNew \<Longrightarrow> tabs w' = tabs w"
    and "obs w' = obs w @ (if isNew then [Metric DedupMiss, Log INFO ''receive'' msg]
           else [Metric DedupHit, Log DEBUG ''receive.duplicate'' msg])"
proof -
  obtain r1 w1 where d: "insertDedup x db (MessageID msg) (PartitionKey msg) (Topic msg) (Source msg) ex w = (r1, w1)"
    by fastforce
  obtain r2 w2 where h: "insertHot x (m_store m) db msg w1 = (r2, w2)" by fastforce
  have o1: "obs w1 = obs w" and o2: "obs w2 = obs w1" using store_obs(5) [OF d] store_obs(6) [OF h] .
  have dd: "dedup (tabs w2) = dedup (tabs w1)" if "r2 = None"
    using h that by (auto elim!: insertHot_None)
  have hh: "MessageID msg \<in> set (ids (hot (tabs w2)))" if "r2 = None"
    using h that by (auto elim!: insertHot_None simp: set_ids_insert_new dest: hot_row_of_args_id)
  have alt: "(isNew \<and> r1 = None \<and> r2 = None \<and> tabs w' = tabs w2
        \<and> obs w' = obs w2 @ [Metric DedupMiss, Log INFO ''receive'' msg])
      \<or> (\<not> isNew \<and> r1 = Some ErrDuplicate \<and> tabs w' = tabs w1
        \<and> obs w' = obs w1 @ [Metric DedupHit, Log DEBUG ''receive.duplicate'' msg])"
    using assms d h by (auto simp: receive_run_def split: option.splits if_splits)
  note new = insertDedup_None [of x db "MessageID msg" "PartitionKey msg" "Topic msg" "Source msg" ex w w1]
  note dup = insertDedup_duplicate [of x db "MessageID msg" "PartitionKey msg" "Topic msg" "Source msg" ex w w1]
  show "isNew \<longleftrightarrow> MessageID msg \<notin> set (dedup_ids (dedup (tabs w)))" using alt d new dup by auto
  show "MessageID msg \<in> set (dedup_ids (dedup (tabs w')))" using alt d new dup dd by auto
  show "isNew \<Longrightarrow> MessageID msg \<in> set (ids (hot (tabs w')))" using alt hh by auto
  show "\<not> isNew \<Longrightarrow> tabs w' = tabs w" using alt d dup by auto
  show "obs w' = obs w @ (if isNew then [Metric DedupMiss, Log INFO ''receive'' msg]
      else [Metric DedupHit, Log DEBUG ''receive.duplicate'' msg])" using alt o1 o2 by auto
qed

lemma default_retries_simps [simp]:
  "MessageID (default_retries m msg) = MessageID msg" "Topic (default_retries m msg) = Topic msg"
  "Payload (default_retries m msg) = Payload msg" "Headers (default_retries m msg) = Headers msg"
  by (simp_all add: default_retries_def)

lemma default_retries_pos: "config_ok (m_cfg m) \<Longrightarrow> 0 < MaxRetries (default_retries m msg)"
  by (simp add: default_retries_def config_ok_def)

text \<open>An entry stays until something deletes it.\<close>

lemma dedup_kept_step: "table_step a t t' \<Longrightarrow> a \<noteq> Del_dedup \<Longrightarrow> set (dedup_ids (dedup t)) \<subseteq> set (dedup_ids (dedup t'))"
  by (induction rule: table_step.induct) (auto simp: dedup_ids_def)

lemma dedup_kept:
  assumes "runs A t t'" and "Del_dedup \<notin> A" and "mid \<in> set (dedup_ids (dedup t))"
  shows "mid \<in> set (dedup_ids (dedup t'))"
  using assms(1,3)
proof (rule runs_invariant)
  fix a u u'
  assume "a \<in> A" "table_step a u u'" "mid \<in> set (dedup_ids (dedup u))"
  then show "mid \<in> set (dedup_ids (dedup u'))" using dedup_kept_step [of a u u'] assms(2) by blast
qed

section \<open>Processing as a run\<close>

text \<open>A handler whose own effects on the tables are changes of the kinds in \<open>A\<close>.\<close>

definition keeps_tables :: "act set \<Rightarrow> handler \<Rightarrow> bool" where
  "keeps_tables A h \<longleftrightarrow>
     (\<forall>c msg w. case h c msg w of (e, msg', w') \<Rightarrow> tables_ok (tabs w) \<longrightarrow> runs A (tabs w) (tabs w'))"

definition routes_keep :: "act set \<Rightarrow> messaging \<Rightarrow> handler option \<Rightarrow> bool" where
  "routes_keep A m handler \<longleftrightarrow>
     (\<forall>co msg reg. route m handler co msg = Some reg \<longrightarrow> keeps_tables A (t_handler reg))"

lemma widen:
  "runs {Move} t t' \<Longrightarrow> runs (A \<union> {Move, Finish, Burn_ids}) t t'"
  "runs {Finish, Burn_ids} t t' \<Longrightarrow> runs (A \<union> {Move, Finish, Burn_ids}) t t'"
  "runs A t t' \<Longrightarrow> runs (A \<union> {Move, Finish, Burn_ids}) t t'"
  by (erule runs_mono, blast)+

lemma handleRetry_runs:
  assumes "tables_ok (tabs w)"
  shows "runs {Move} (tabs w) (tabs (handleRetry x m msg e w))"
proof (cases "wrap64 (RetryCount msg + 1) > MaxRetries msg")
  case True
  obtain r w1 where f: "markFailed x (m_store m) (MessageID msg) (error_text e) w = (r, w1)" by fastforce
  then have "tabs (handleRetry x m msg e w) = tabs w1"
    using True by (auto simp: handleRetry_def split: sum.split bool.split)
  then show ?thesis using markFailed_runs [OF f assms] by simp
next
  case False
  let ?k = "wrap64 (RetryCount msg + 1)"
  obtain r w1 where f: "markRetry x (m_store m) (MessageID msg) ?k
      (app_now w + Next (f64_conv x) (the (m_backoff m)) ?k) (error_text e) w = (r, w1)" by fastforce
  then have "tabs (handleRetry x m msg e w) = tabs w1"
    using False by (auto simp: handleRetry_def split: sum.split bool.split)
  then show ?thesis using markRetry_runs [OF f assms] by simp
qed

lemma handle_result_runs:
  assumes "tables_ok (tabs w)"
  shows "runs {Move, Finish, Burn_ids} (tabs w) (tabs (handle_result x m msg e w))"
proof (cases e)
  case (Some err)
  then show ?thesis using widen(1) [OF handleRetry_runs [OF assms], of "{}"] by (simp add: handle_result_def)
next
  case None
  obtain r w1 where d: "markDoneAndArchive x (m_store m) (MessageID msg) (app_now w) w = (r, w1)" by fastforce
  then have "tabs (handle_result x m msg e w) = tabs w1"
    using None by (auto simp: handle_result_def split: sum.split bool.split)
  then show ?thesis using widen(2) [OF markDoneAndArchive_runs [OF d assms], of "{}"] by simp
qed

lemma handle_hydrated_runs:
  assumes "tables_ok (tabs w)" and "keeps_tables A h"
  shows "runs (A \<union> {Move, Finish, Burn_ids}) (tabs w) (tabs (handle_hydrated x m msg h co w))"
proof -
  obtain e msg' w1 where h: "h (handlerCtx (m_cfg m) co) msg w = (e, msg', w1)" by (metis prod_cases3)
  have r1: "runs A (tabs w) (tabs w1)"
    using assms h by (auto simp: keeps_tables_def split: prod.splits)
  have "runs (A \<union> {Move, Finish, Burn_ids}) (tabs w1) (tabs (handle_result x m msg' e w1))"
    using handle_result_runs [OF tables_ok_runs [OF r1 assms(1)]] by (rule runs_mono) blast
  with widen(3) [OF r1] show ?thesis by (simp add: handle_hydrated_def h) (rule runs_trans)
qed

lemma handleOne_runs:
  assumes "tables_ok (tabs w)" and "keeps_tables A h"
  shows "runs (A \<union> {Move, Finish, Burn_ids}) (tabs w) (tabs (handleOne x m msg h co w))"
proof (cases "Encrypted msg \<and> snd (hydrate (gtexts x) (m_store m) msg) \<noteq> None")
  case True
  then obtain msg' e where hy: "hydrate (gtexts x) (m_store m) msg = (msg', Some e)"
    by (cases "hydrate (gtexts x) (m_store m) msg") auto
  obtain r w1 where d: "deadLetter x (MessageID msg') (''message decrypt failed: '' @ toErrorMessage (Some e)) w = (r, w1)"
    by fastforce
  have "tabs (handleOne x m msg h co w) = tabs w1" using True hy d by (simp add: handleOne_def)
  then show ?thesis using widen(1) [OF deadLetter_runs [OF d assms(1)]] by simp
next
  case False
  then obtain msg' where "handleOne x m msg h co w = handle_hydrated x m msg' h co w"
    by (cases "hydrate (gtexts x) (m_store m) msg"; cases "Encrypted msg") (auto simp: handleOne_def)
  then show ?thesis using handle_hydrated_runs [OF assms] by simp
qed

lemma process_one_runs:
  assumes "tables_ok (tabs w)" and "routes_keep A m handler"
  shows "runs (A \<union> {Move, Finish, Burn_ids}) (tabs w) (tabs (process_one x m handler co ms w))"
proof (cases ms)
  case (Pair msg slot)
  show ?thesis
  proof (cases "route m handler co msg")
    case None
    obtain r w1 where d: "deadLetter x (MessageID msg) (''no handler for topic: '' @ Topic msg) w = (r, w1)" by fastforce
    have "tabs (process_one x m handler co ms w) = tabs w1" using None Pair d by (simp add: process_one_def)
    then show ?thesis using widen(1) [OF deadLetter_runs [OF d assms(1)]] by simp
  next
    case (Some reg)
    then show ?thesis
      using handleOne_runs [OF assms(1), of A "t_handler reg"] assms(2) Pair
      by (auto simp: process_one_def routes_keep_def)
  qed
qed

lemma process_all_runs:
  assumes "tables_ok (tabs w)" and "routes_keep A m handler"
  shows "runs (A \<union> {Move, Finish, Burn_ids}) (tabs w) (tabs (fold (process_one x m handler co) mss w))"
  using assms(1)
proof (induction mss arbitrary: w)
  case (Cons ms mss)
  note one = process_one_runs [OF Cons.prems assms(2), of x co ms]
  from tables_ok_runs [OF one Cons.prems] Cons.IH one show ?case by (auto intro: runs_trans)
qed simp

lemma ProcessBatch_runs:
  assumes "ProcessBatch x m sched sz handler opts w = (res, w')" and "tables_ok (tabs w)"
    and "routes_keep A m handler"
  shows "runs (A \<union> {Move, Finish, Burn_ids}) (tabs w) (tabs w')"
proof -
  obtain r w1 where c: "claimBatch x (m_store m) sz w = (r, w1)" by fastforce
  have one: "runs (A \<union> {Move, Finish, Burn_ids}) (tabs w) (tabs w1)"
    using claimBatch_runs [OF c assms(2)] by (rule widen)
  show ?thesis
    using assms(1) c one process_all_runs [OF tables_ok_runs [OF one assms(2)] assms(3)]
    by (auto simp: ProcessBatch_def Let_def split: sum.splits intro: runs_trans)
qed

section \<open>What becomes of a claimed message\<close>

text \<open>The handler succeeded.\<close>

lemma handle_success_cases:
  assumes "h (handlerCtx (m_cfg m) co) msg w = (None, msg', w1)" and "hot_ok (hot (tabs w1))"
  obtains
    (processed) r now where "row_of (hot (tabs w1)) (MessageID msg') = Some r"
      "owned_sel (MessageID msg') (WorkerID (s_cfg (m_store m))) r"
      "tabs (handle_hydrated x m msg h co w) = done_tables x (MessageID msg') (app_now w1) now r (tabs w1)"
      "obs (handle_hydrated x m msg h co w)
         = obs w1 @ [Metric (MessageProcessed (Topic msg')), Log INFO ''processed'' msg']"
  | (not_owner) "\<not> owned_by (hot (tabs w1)) (MessageID msg') (WorkerID (s_cfg (m_store m)))"
      "tabs (handle_hydrated x m msg h co w) = tabs w1" "obs (handle_hydrated x m msg h co w) = obs w1"
  | (error) "obs (handle_hydrated x m msg h co w) = obs w1 @ [Log ERROR ''process.archive_error'' msg']"
      "(\<exists>k. tabs (handle_hydrated x m msg h co w) = (tabs w1)\<lparr>arch_seq := k\<rparr>)
        \<or> (\<exists>r now. row_of (hot (tabs w1)) (MessageID msg') = Some r
              \<and> tabs (handle_hydrated x m msg h co w) = done_tables x (MessageID msg') (app_now w1) now r (tabs w1))"
proof -
  obtain res w2 where d: "markDoneAndArchive x (m_store m) (MessageID msg') (app_now w1) w1 = (res, w2)" by fastforce
  have o2: "obs w2 = obs w1" using markDoneAndArchive_obs [OF d] .
  have out: "handle_hydrated x m msg h co w = (case res of Inl _ \<Rightarrow> emit (Log ERROR ''process.archive_error'' msg') w2
      | Inr False \<Rightarrow> w2
      | Inr True \<Rightarrow> emit (Log INFO ''processed'' msg') (emit (Metric (MessageProcessed (Topic msg'))) w2))"
    using assms(1) d by (auto simp: handle_hydrated_def handle_result_def split: sum.split bool.split)
  from d assms(2) show thesis
  proof (cases rule: markDoneAndArchive_cases)
    case (lost e k)
    then show ?thesis using error out o2 by auto
  next
    case not_owner
    then show ?thesis using that(2) out o2 by (auto simp: owned_by_sel split: option.splits)
  next
    case (moved r now)
    from moved(4) show ?thesis
    proof
      assume "res = Inr True"
      then show ?thesis using processed [OF moved(1,2)] moved(3) out o2 by auto
    next
      assume "\<exists>e. res = Inl e"
      then have "handle_hydrated x m msg h co w = emit (Log ERROR ''process.archive_error'' msg') w2"
        using out by auto
      then show ?thesis by (intro error) (use moved(1,3) o2 in auto)
    qed
  qed
qed

text \<open>The handler failed: one more retry while the budget lasts, \<open>FAILED\<close> afterwards.\<close>

lemma handleRetry_cases:
  fixes x :: ext and m :: messaging and msg :: message and e :: err and w :: world
  assumes "hot_ok (hot (tabs w))" and "in_int64 (RetryCount msg + 1)"
  defines "wk \<equiv> WorkerID (s_cfg (m_store m))"
    and "k \<equiv> RetryCount msg + 1"
    and "again \<equiv> retry_set x (RetryCount msg + 1) (app_now w + Next (f64_conv x) (the (m_backoff m)) (RetryCount msg + 1)) (error_text e)"
  obtains
    (unchanged) "tabs (handleRetry x m msg e w) = tabs w" "obs (handleRetry x m msg e w) = obs w"
  | (retry) "k \<le> MaxRetries msg"
      "tabs (handleRetry x m msg e w) = (tabs w)\<lparr>hot := upd_where (owned_sel (MessageID msg) wk) again (hot (tabs w))\<rparr>"
      "obs (handleRetry x m msg e w) \<in> {obs w, obs w @ [Metric (MessageRetry (Topic msg)), Log WARN ''process.retry'' msg]}"
  | (give_up) now where "MaxRetries msg < k"
      "tabs (handleRetry x m msg e w) = (tabs w)\<lparr>hot := upd_where (owned_sel (MessageID msg) wk) (failed_set (error_text e) now) (hot (tabs w))\<rparr>"
      "obs (handleRetry x m msg e w) \<in> {obs w, obs w @ [Metric (MessageFailed (Topic msg)), Log ERROR ''process.failed'' msg]}"
proof (cases "k > MaxRetries msg")
  case True
  obtain res w1 where f: "markFailed x (m_store m) (MessageID msg) (error_text e) w = (res, w1)" by fastforce
  note o1 = store_obs(3) [OF f]
  have t: "tabs (handleRetry x m msg e w) = tabs w1"
    and o: "obs (handleRetry x m msg e w) \<in> {obs w, obs w @ [Metric (MessageFailed (Topic msg)), Log ERROR ''process.failed'' msg]}"
    and err: "(\<exists>e'. res = Inl e') \<Longrightarrow> obs (handleRetry x m msg e w) = obs w"
    using True f o1 assms(2) by (auto simp: handleRetry_def k_def split: sum.split bool.split)
  from f assms(1) show thesis
    by (cases rule: markFailed_cases) (use unchanged give_up [OF True] t o err in \<open>auto simp: wk_def\<close>)
next
  case False
  obtain res w1 where f: "markRetry x (m_store m) (MessageID msg) k
      (app_now w + Next (f64_conv x) (the (m_backoff m)) k) (error_text e) w = (res, w1)" by fastforce
  note o1 = store_obs(2) [OF f]
  have t: "tabs (handleRetry x m msg e w) = tabs w1"
    and o: "obs (handleRetry x m msg e w) \<in> {obs w, obs w @ [Metric (MessageRetry (Topic msg)), Log WARN ''process.retry'' msg]}"
    and err: "(\<exists>e'. res = Inl e') \<Longrightarrow> obs (handleRetry x m msg e w) = obs w"
    using False f o1 assms(2) by (auto simp: handleRetry_def k_def split: sum.split bool.split)
  from f assms(1) show thesis
    by (cases rule: markRetry_cases)
       (use unchanged retry False t o err in \<open>auto simp: wk_def again_def k_def\<close>)
qed

end
