(* ===== verification/Samples.thy ===== *)
theory Samples
  imports Messaging_Facts
begin

text \<open>
  A small concrete setting in which the theorems are applied: a server that stores what it is
  given, a configuration, a few rows, and worlds made of them.
\<close>

definition pg :: ext where
  "pg = \<lparr>ts_in = (\<lambda>t. t), text_ok = (\<lambda>_. True),
         varchar_in = (\<lambda>n s. if length s \<le> n then Some s else None), jsonb_in = (\<lambda>s. Some s),
         reject_text = (\<lambda>_. ''rejected''), max_params = 65535, interval_ok = (\<lambda>_. True), f64_conv = (\<lambda>_. int64_min),
         gtexts = \<lparr>tQuote = (\<lambda>s. s), tJson = (\<lambda>s. s), tBase64 = (\<lambda>s. s), tScan = show_nat\<rparr>\<rparr>"

definition cfg0 :: config where
  "cfg0 = \<lparr>Name = ''asset'', DefaultMaxRetries = 0, DefaultBackoff = None, WorkerID = ''w1'', ClaimTimeout = 0,
           DedupTTL = 0, FailedRetention = 0, Concurrency = 0, HandlerTimeout = 0\<rparr>"

definition store0 :: store where
  "store0 = newStore cfg0 None"

definition msg_row :: "string \<Rightarrow> int \<Rightarrow> hot_row" where
  "msg_row mid created = pending_row pg mid None ''orders'' ''{}'' ''null'' None False 5 created"

definition taken_row :: "string \<Rightarrow> string \<Rightarrow> hot_row" where
  "taken_row mid wk = claim_set wk 50 (msg_row mid 10)"

definition failed_row :: "string \<Rightarrow> int \<Rightarrow> hot_row" where
  "failed_row mid now = failed_set ''boom'' now (msg_row mid 10)"

definition tabs0 :: "hot_row list \<Rightarrow> tables" where
  "tabs0 rs = \<lparr>dedup = [], hot = rs, archive = [], arch_seq = 1\<rparr>"

definition world0 :: "tables \<Rightarrow> world" where
  "world0 t = \<lparr>tabs = t, db_now = 100, app_now = 100, tx_now = 0, aborted = False, script = [],
               randoms = [], obs = []\<rparr>"

definition m0 :: messaging where
  "m0 = \<lparr>m_store = store0, m_cfg = s_cfg store0, m_backoff = Some (LinearBackoff Second), m_metrics = Noop,
         m_logger = Noop, m_handlers = Map.empty, m_defaultHandler = None\<rparr>"

lemmas sample_defs = pg_def cfg0_def store0_def msg_row_def taken_row_def failed_row_def tabs0_def world0_def m0_def

text \<open>The rules that evaluate a call in this setting.\<close>

lemma null_headers: "json_unmarshal_headers ''null'' None = (None, True)"
  using unmarshal_marshal_headers [of None]
  by (simp add: json_marshal_headers_def by_key_def headers_ok_def)

lemmas eval_store = newStore_def Config_withDefaults_def Let_def
lemmas eval_table = ids_def row_of_def upd_where_def count_where_def insert_new_def pending_row_def
lemmas eval_exec = exec_quiet stmt_now_def poison_def begin_do_def begin_tx_def tick_def quiet_def tx_do_def
  commit_do_def commit_tx_def rollback_tx_def own_tx_def emit_def
lemmas eval_claim = claimBatch_def sql_claim_def claim_ids_def claimable_def claim_sel_def claim_set_def
  query_quiet returning_eqs scan_hot_fields row_message_def hydrate_def hydrate_fields_def null_string_value_def null_headers
lemmas eval_mark = markDoneAndArchive_def sql_mark_done_def sql_archive_insert_def sql_delete_hot_def
  owned_sel_def done_set_def archive_of_eq markRetry_def sql_mark_retry_def retry_set_def markFailed_def
  sql_mark_failed_def failed_set_def deadLetter_def sql_dead_letter_def key_sel_def
lemmas eval_simps = sample_defs eval_store eval_table eval_exec eval_claim eval_mark

lemmas eval_ok = tables_ok_def hot_ok_def row_ok_def ids_def archive_ok_def dedup_ids_def sample_defs
  pending_row_def claim_set_def failed_set_def truncateError_def maxErrorLen_def

text \<open>Two waiting messages, the younger one first in the table.\<close>

definition two_waiting :: world where
  "two_waiting = world0 (tabs0 [msg_row ''b'' 20, msg_row ''a'' 10])"

lemma two_waiting_ok: "tables_ok (tabs two_waiting)"
  by (simp add: two_waiting_def eval_ok)

lemma two_waiting_claim: "\<exists>ms w'. claimBatch pg store0 1 two_waiting = (Inr ms, w')"
  by (simp add: two_waiting_def eval_simps)

text \<open>A message that worker \<open>w1\<close> is processing, and one that another worker is.\<close>

definition one_taken :: world where
  "one_taken = world0 (tabs0 [taken_row ''a'' ''w1'', taken_row ''b'' ''w2''])"

lemma one_taken_ok: "tables_ok (tabs one_taken)"
  by (simp add: one_taken_def eval_ok)

lemma one_taken_done: "\<exists>w'. markDoneAndArchive pg store0 ''a'' 100 one_taken = (Inr True, w')"
  by (simp add: one_taken_def eval_simps)

text \<open>A cipher that prefixes its text, and a registry that holds it beside an older one.\<close>

definition toy_cipher :: "string \<Rightarrow> message_cipher" where
  "toy_cipher v = \<lparr>cVersion = v, cEncrypt = (\<lambda>rnd pt. Inr (CHR ''#'' # pt)), cDecrypt = (\<lambda>ct. Inr (tl ct))\<rparr>"

lemma toy_cipher_ok: "cipher_ok (toy_cipher v)"
  by (simp add: cipher_ok_def toy_cipher_def)

definition old_registry :: cipher_registry where
  "old_registry = \<lparr>byVersion = [''v1'' \<mapsto> toy_cipher ''v1''], current = toy_cipher ''v1''\<rparr>"

definition new_registry :: cipher_registry where
  "new_registry = \<lparr>byVersion = [''v1'' \<mapsto> toy_cipher ''v1'', ''v2'' \<mapsto> toy_cipher ''v2''], current = toy_cipher ''v2''\<rparr>"

lemma registries:
  "NewCipherRegistry (\<lambda>s. s) [toy_cipher ''v1''] ''v1'' = Inr old_registry"
  "NewCipherRegistry (\<lambda>s. s) [toy_cipher ''v1'', toy_cipher ''v2''] ''v2'' = Inr new_registry"
  by (simp_all add: NewCipherRegistry_def toy_cipher_def cipherVersionRegex_match_def is_letter_def is_digit_def
      old_registry_def new_registry_def Let_def fun_upd_twist)

end
