(* ===== verification/Store_Properties.thy ===== *)
theory Store_Properties
  imports Samples
begin

text \<open>
  The properties of the processing path of \<^verbatim>\<open>store.go\<close>, each stated on the methods themselves, with
  the witness that applies it.
\<close>

section \<open>Claiming\<close>

text \<open>The message a worker is handed for a row: headers decoded, unless the row is encrypted.\<close>

definition read_message :: "go_texts \<Rightarrow> store \<Rightarrow> hot_row \<Rightarrow> message" where
  "read_message tx s r = (if h_encrypted r then row_message r else fst (hydrate tx s (row_message r)))"

lemma MessageID_read [simp]: "MessageID (read_message tx s r) = h_message_id r"
  by (auto simp: read_message_def row_message_def hydrate_def Let_def split: sum.splits prod.splits option.splits)

lemma scanMessages_rows:
  "scanMessages tx s (map hot_fields rows) None = Inr ms \<Longrightarrow> ms = map (read_message tx s) rows"
proof (induction rows arbitrary: ms)
  case (Cons r rows)
  have "Encrypted (row_message r) = h_encrypted r" by (simp add: row_message_def)
  with Cons show ?case
    by (auto simp: scan_hot_fields read_message_def split: prod.splits option.splits sum.splits if_splits)
qed simp

lemma claimBatch_Inr:
  assumes "claimBatch x s sz w = (Inr ms, w')" and "hot_ok (hot (tabs w))"
  obtains wk locked rows where "varchar_in x 100 (WorkerID (s_cfg s)) = Some wk"
    and "claim_spec wk (nat sz) locked (db_now w') (hot (tabs w)) rows (hot (tabs w'))"
    and "ms = map (read_message (gtexts x) s) rows" and "map MessageID ms = ids rows"
    and "dedup (tabs w') = dedup (tabs w)" and "archive (tabs w') = archive (tabs w)"
proof -
  let ?st = "sql_claim x (WorkerID (s_cfg s)) sz"
  obtain rows e where q: "query x DB ?st w = (Inr (rows, e), w')"
    and sc: "scanMessages (gtexts x) s (map hot_fields rows) e = Inr ms"
    using assms(1) by (auto simp: claimBatch_def query_hot split: prod.splits sum.splits)
  note e = scanMessages_unbroken [OF sc]
  note ms = scanMessages_rows [OF sc [unfolded e]]
  obtain locked where "?st locked (db_now w') (tabs w) = Inr (rows, tabs w')"
    using exec_Inr(5) [OF query_complete [OF q [unfolded e]]] by blast
  from sql_claim_spec [OF this assms(2)] that ms show thesis by (simp add: ids_def comp_def) metis
qed



text \<open>The rows that a claim may take.\<close>

definition waiting :: "hot_row list \<Rightarrow> string \<Rightarrow> bool" where
  "waiting rs mid = (case row_of rs mid of None \<Rightarrow> False
     | Some r \<Rightarrow> h_status r = StatusPending \<or> h_status r = StatusRetry)"

lemma claim_spec_waiting:
  assumes "claim_spec wk n locked now rs rows rs'" and "distinct (ids rs)"
  shows "\<forall>mid \<in> set (ids rows). waiting rs mid \<and> \<not> waiting rs' mid"
    and "\<forall>mid. waiting rs' mid \<longrightarrow> waiting rs mid"
proof -
  have one: "waiting rs mid \<and> \<not> waiting rs' mid" if "mid \<in> set (ids rows)" for mid
  proof -
    obtain r where r: "r \<in> set rows" "h_message_id r = mid" using \<open>mid \<in> set (ids rows)\<close> by (auto simp: ids_def)
    obtain q where q: "q \<in> set (candidates locked now rs)" "r = claim_set wk now q"
      using assms(1) r(1) by (auto simp: claim_spec_def)
    have "row_of rs mid = Some q"
      using q r(2) assms(2) row_of_mem [of rs q] by (simp add: candidates_iff)
    then have "waiting rs mid" using q(1) by (simp add: waiting_def candidates_iff claimable_def)
    moreover have "row_of rows mid = Some r"
      using assms(1) r row_of_mem [of rows r] by (simp add: claim_spec_def)
    then have "row_of rs' mid = Some r" using assms(1) that by (simp add: claim_spec_def)
    then have "\<not> waiting rs' mid" by (simp add: waiting_def q(2))
    ultimately show ?thesis by blast
  qed
  then show "\<forall>mid \<in> set (ids rows). waiting rs mid \<and> \<not> waiting rs' mid" by blast
  show "\<forall>mid. waiting rs' mid \<longrightarrow> waiting rs mid"
    using assms(1) one by (auto simp: claim_spec_def waiting_def)
qed

text \<open>Several workers, claiming one after the other.\<close>

fun claim_all :: "ext \<Rightarrow> (store \<times> int) list \<Rightarrow> world \<Rightarrow> message list list" where
  "claim_all x [] w = []"
| "claim_all x ((s, n) # ss) w =
     (case claimBatch x s n w of
        (Inl e, w') \<Rightarrow> [] # claim_all x ss w'
      | (Inr ms, w') \<Rightarrow> ms # claim_all x ss w')"

lemma claim_all_waiting:
  assumes "tables_ok (tabs w)"
  shows "distinct (map MessageID (concat (claim_all x ss w)))
     \<and> (\<forall>mid \<in> set (map MessageID (concat (claim_all x ss w))). waiting (hot (tabs w)) mid)"
  using assms
proof (induction x ss w rule: claim_all.induct)
  case (2 x s n ss w)
  obtain res w' where c: "claimBatch x s n w = (res, w')" by fastforce
  have ok': "tables_ok (tabs w')" using claimBatch_runs [OF c 2(3)] tables_ok_runs 2(3) by blast
  have hok: "hot_ok (hot (tabs w))" using 2(3) by (simp add: tables_ok_def)
  show ?case
  proof (cases res)
    case (Inl e)
    have "waiting (hot (tabs w)) mid" if "waiting (hot (tabs w')) mid" for mid
    proof -
      let ?st = "sql_claim x (WorkerID (s_cfg s)) n"
      obtain r where q: "query x DB ?st w = (r, w')"
        using c by (auto simp: claimBatch_def query_hot split: prod.splits sum.splits)
      consider "tabs w' = tabs w" | locked now rows where "?st locked now (tabs w) = Inr (rows, tabs w')"
        using query_tabs [OF q] exec_tabs by metis
      then show ?thesis
      proof cases
        case 2
        then show ?thesis
          using that hok claim_spec_waiting(2) sql_claim_spec [OF 2 hok] by (metis hot_ok_def)
      qed (use that in simp)
    qed
    with 2(1) [OF c [symmetric] Inl] Inl ok' c show ?thesis by simp
  next
    case (Inr ms)
    obtain wk locked rows where spec: "claim_spec wk (nat n) locked (db_now w') (hot (tabs w)) rows (hot (tabs w'))"
      and ids: "map MessageID ms = ids rows"
      using claimBatch_Inr [OF c [unfolded Inr] hok] by metis
    note wt = claim_spec_waiting [OF spec]
    have dist: "distinct (ids (hot (tabs w)))" using hok by (simp add: hot_ok_def)
    have "distinct (map MessageID ms)" using spec by (simp add: ids claim_spec_def)
    moreover have "\<forall>mid \<in> set (map MessageID ms). waiting (hot (tabs w)) mid \<and> \<not> waiting (hot (tabs w')) mid"
      using wt(1) [OF dist] by (simp only: ids)
    moreover have "\<forall>mid. waiting (hot (tabs w')) mid \<longrightarrow> waiting (hot (tabs w)) mid"
      using wt(2) [OF dist] .
    ultimately show ?thesis using 2(2) [OF c [symmetric] Inr] ok' Inr c by (auto simp: image_iff)
  qed
qed simp

text \<open>
  (C4) Whatever workers claim, in whatever sizes and with whatever faults, one after the other without
  a release in between: no message is handed out twice.
\<close>

theorem claims_exclusive:
  assumes "tables_ok (tabs w)"
  shows "distinct (map MessageID (concat (claim_all x ss w)))"
  using claim_all_waiting [OF assms] by blast

theorem claims_exclusive_witness:
  "claim_all pg [(store0, 1), (store0, 5)] two_waiting \<noteq> [[], []]
     \<and> distinct (map MessageID (concat (claim_all pg [(store0, 1), (store0, 5)] two_waiting)))"
  using claims_exclusive [OF two_waiting_ok] by (simp add: two_waiting_def eval_simps)

section \<open>Terminal transitions\<close>

text \<open>
  (C5) \<open>markDoneAndArchive\<close> is all or nothing, whatever fails: either the message's row, owned by this
  worker, has left the hot table and the archive has gained exactly one row recording it as
  processed, or no row of any table has changed. Success with \<open>owned\<close> means the former, success
  without it the latter and that the worker did not own the row.
\<close>

theorem markDoneAndArchive_atomic:
  assumes "markDoneAndArchive x s mid ts w = (res, w')" and "tables_ok (tabs w)"
  shows "(\<exists>r now. row_of (hot (tabs w)) mid = Some r \<and> owned_by (hot (tabs w)) mid (WorkerID (s_cfg s))
           \<and> tabs w' = done_tables x mid ts now r (tabs w) \<and> res \<noteq> Inr False)
       \<or> (\<exists>k. tabs w' = (tabs w)\<lparr>arch_seq := k\<rparr>) \<and> res \<noteq> Inr True
         \<and> (res = Inr False \<longrightarrow> \<not> owned_by (hot (tabs w)) mid (WorkerID (s_cfg s)))"
proof -
  have "hot_ok (hot (tabs w))" using assms(2) by (simp add: tables_ok_def)
  with assms(1) show ?thesis
  proof (cases rule: markDoneAndArchive_cases)
    case (lost e k)
    then show ?thesis by blast
  next
    case not_owner
    then have "\<exists>k. tabs w' = (tabs w)\<lparr>arch_seq := k\<rparr>" by (intro exI [of _ "arch_seq (tabs w)"]) simp
    moreover have "\<not> owned_by (hot (tabs w)) mid (WorkerID (s_cfg s))"
      using not_owner(3) by (auto simp: owned_by_sel split: option.splits)
    ultimately show ?thesis using not_owner(1) by simp
  next
    case (moved r now)
    then have "owned_by (hot (tabs w)) mid (WorkerID (s_cfg s))" by (simp add: owned_by_sel)
    with moved show ?thesis by blast
  qed
qed

theorem markDoneAndArchive_atomic_witness:
  "\<exists>w' r now. markDoneAndArchive pg store0 ''a'' 100 one_taken = (Inr True, w')
     \<and> row_of (hot (tabs one_taken)) ''a'' = Some r
     \<and> tabs w' = done_tables pg ''a'' 100 now r (tabs one_taken)"
proof -
  obtain w' where d: "markDoneAndArchive pg store0 ''a'' 100 one_taken = (Inr True, w')"
    using one_taken_done by blast
  from markDoneAndArchive_atomic [OF d one_taken_ok] d show ?thesis by blast
qed

section \<open>Inserting\<close>


lemma batch_eval: "\<exists>w'. insertHotBatch pg store0 DB [new_message ''x'' ''orders'' ''{}'', new_message ''y'' ''orders'' ''{}'']
    (world0 (tabs0 [])) = (None, w')"
  by (simp add: insertHotBatch_def prepareFields_def hot_args_def new_message_def sql_insert_hot_def placeholder_def
      hot_row_of_args_def opt_varchar_def nullString_def json_marshal_headers_def eval_simps in_int32_def nth_Cons')


text \<open>
  (C16) What is written encrypted is what a handler gets: the row stored for a message, scanned and
  hydrated by any instance whose registry still holds the cipher it was written with (its current
  version may have moved on), yields the original payload and headers and clears the raw headers.
  Assumed: that cipher decrypts what it encrypted, the JSONB column returns plain JSON strings
  unchanged, and the headers are valid UTF-8 with distinct keys.
\<close>

theorem encrypted_roundtrip:
  assumes "prepareFields s1 (Payload msg) (Headers msg) w = (Inr f, w1)"
    and "hot_row_of_args x (hot_args s1 msg f now) = Inr q"
    and "s_cipher s1 = Some r1" and "NewCipherRegistry q1 cs1 v1 = Inr r1"
    and "s_cipher s2 = Some r2" and "NewCipherRegistry q2 cs2 v2 = Inr r2"
    and "current r1 \<in> set cs2" and "cipher_ok (current r1)"
    and "jsonb_keeps_strings x" and "headers_ok (Headers msg)"
  shows "\<exists>vs m. project (hot_values q) hotCols = Some vs \<and> scanMessageRow tx vs = Inr m
     \<and> MessageID m = MessageID msg \<and> MaxRetries m = MaxRetries msg
     \<and> hydrate tx s2 m = (m\<lparr>Payload := Payload msg, Headers := by_key (Headers msg), rawHeaders := None\<rparr>, None)"
  using encrypted_row_roundtrip [OF assms] by (simp add: project_hotCols scan_hot_fields)

lemma enc_prepare: "\<exists>f w1. prepareFields (store0\<lparr>s_cipher := Some old_registry\<rparr>) ''{}'' None (world0 (tabs0 [])) = (Inr f, w1)"
  by (simp add: prepareFields_def pop_random_def world0_def reg_Encrypt_def old_registry_def toy_cipher_def)

lemma enc_row:
  assumes "f = (a, b)" "a \<noteq> []"
  shows "\<exists>q. hot_row_of_args pg (hot_args s (new_message ''x'' ''orders'' ''{}'') f 7) = Inr q"
  using assms
  by (simp add: hot_args_def new_message_def hot_row_of_args_def opt_varchar_def nullString_def pg_def in_int32_def)

lemma prepare_nonempty: "prepareFields (store0\<lparr>s_cipher := Some r\<rparr>) pl hs w = (Inr (a, b), w1) \<Longrightarrow> a \<noteq> []"
  by (auto simp: prepareFields_def reg_Encrypt_def json_marshal_string_def Let_def split: prod.splits sum.splits)

theorem encrypted_roundtrip_witness:
  "\<exists>m. MessageID m = ''x'' \<and> hydrate (gtexts pg) (store0\<lparr>s_cipher := Some new_registry\<rparr>) m =
     (m\<lparr>Payload := ''{}'', Headers := None, rawHeaders := None\<rparr>, None)"
proof -
  let ?s1 = "store0\<lparr>s_cipher := Some old_registry\<rparr>" and ?s2 = "store0\<lparr>s_cipher := Some new_registry\<rparr>"
  let ?msg = "new_message ''x'' ''orders'' ''{}''"
  obtain a b w1 where p: "prepareFields ?s1 (Payload ?msg) (Headers ?msg) (world0 (tabs0 [])) = (Inr (a, b), w1)"
    using enc_prepare by (auto simp: new_message_def)
  obtain q where q: "hot_row_of_args pg (hot_args ?s1 ?msg (a, b) 7) = Inr q"
    using enc_row prepare_nonempty [OF p] by blast
  have "\<exists>vs m. project (hot_values q) hotCols = Some vs \<and> scanMessageRow (gtexts pg) vs = Inr m
     \<and> MessageID m = MessageID ?msg \<and> MaxRetries m = MaxRetries ?msg
     \<and> hydrate (gtexts pg) ?s2 m = (m\<lparr>Payload := Payload ?msg, Headers := by_key (Headers ?msg), rawHeaders := None\<rparr>, None)"
    by (rule encrypted_roundtrip [OF p q _ registries(1) _ registries(2)])
       (simp_all add: old_registry_def toy_cipher_ok jsonb_keeps_strings_def pg_def headers_ok_def new_message_def)
  then show ?thesis by (auto simp: new_message_def by_key_def)
qed

end
