(* ===== verification/Progress.thy ===== *)
theory Progress
  imports Store_Properties
begin

text \<open>
  What the library achieves when nothing goes wrong: on a server that answers every call, one
  \<open>ProcessBatch\<close> with handlers that succeed archives every message it claims. This is the converse of
  the safety theorems, which hold for every fault.
\<close>

section \<open>One message\<close>

lemma markDoneAndArchive_quiet:
  assumes "script w = []" and "hot_ok (hot (tabs w))" and "owned_by (hot (tabs w)) mid (WorkerID (s_cfg s))"
    and "text_ok x mid" and "text_ok x (WorkerID (s_cfg s))"
  shows "\<exists>w' r now. markDoneAndArchive x s mid ts w = (Inr True, w') \<and> script w' = []
     \<and> row_of (hot (tabs w)) mid = Some r \<and> tabs w' = done_tables x mid ts now r (tabs w)"
proof -
  have "0 < count_where (owned_sel mid (WorkerID (s_cfg s))) (hot (tabs w))"
    using count_owned_pos assms(2,3) by (simp add: hot_ok_def)
  then have "\<exists>w'. markDoneAndArchive x s mid ts w = (Inr True, w') \<and> script w' = []"
    using assms(1,4,5)
    by (simp add: markDoneAndArchive_def begin_do_def begin_tx_def tick_def quiet_def tx_do_def exec_quiet stmt_now_def
        commit_do_def commit_tx_def sql_mark_done_def sql_archive_insert_def sql_delete_hot_def Let_def)
  then obtain w' where d: "markDoneAndArchive x s mid ts w = (Inr True, w')" "script w' = []" by blast
  from d(1) assms(2) have "\<exists>r now. row_of (hot (tabs w)) mid = Some r \<and> tabs w' = done_tables x mid ts now r (tabs w)"
    by (cases rule: markDoneAndArchive_cases) auto
  with d show ?thesis by blast
qed

text \<open>A handler that succeeds and leaves the tables alone.\<close>

definition succeeds :: "handler \<Rightarrow> bool" where
  "succeeds h \<longleftrightarrow> (\<forall>c msg w. case h c msg w of (e, msg', w') \<Rightarrow>
     e = None \<and> MessageID msg' = MessageID msg \<and> tabs w' = tabs w \<and> script w' = script w)"

lemma succeedsD:
  "succeeds h \<Longrightarrow> h c msg w = (e, msg', w') \<Longrightarrow> e = None \<and> MessageID msg' = MessageID msg \<and> tabs w' = tabs w \<and> script w' = script w"
  unfolding succeeds_def by (drule spec [of _ c], drule spec [of _ msg], drule spec [of _ w]) simp

lemma process_one_quiet:
  fixes x :: ext and m :: messaging and msg :: message and w :: world and h :: handler and co :: callOptions
  assumes "script w = []" and "tables_ok (tabs w)" and "owned_by (hot (tabs w)) (MessageID msg) (WorkerID (s_cfg (m_store m)))"
    and "\<And>s. text_ok x s" and "\<not> Encrypted msg" and "succeeds h"
  defines "w' \<equiv> process_one x m (Some h) co (msg, True) w"
  shows "script w' = [] \<and> tables_ok (tabs w') \<and> hot (tabs w') = filter (\<lambda>r. h_message_id r \<noteq> MessageID msg) (hot (tabs w))
     \<and> (\<exists>a. archive (tabs w') = archive (tabs w) @ [a] \<and> a_message_id a = MessageID msg \<and> a_final_status a = FinalProcessed)"
proof -
  obtain e msg' w1 where h: "h (handlerCtx (m_cfg m) co) msg w = (e, msg', w1)" by (metis prod_cases3)
  have h1: "e = None" "MessageID msg' = MessageID msg" "tabs w1 = tabs w" "script w1 = []"
    using succeedsD [OF assms(6) h] assms(1) by simp_all
  have ok: "hot_ok (hot (tabs w1))" using assms(2) h1(3) by (simp add: tables_ok_def)
  have own: "owned_by (hot (tabs w1)) (MessageID msg') (WorkerID (s_cfg (m_store m)))" using assms(3) h1 by simp
  obtain w2 r now where d: "markDoneAndArchive x (m_store m) (MessageID msg') (app_now w1) w1 = (Inr True, w2)" "script w2 = []"
    "row_of (hot (tabs w1)) (MessageID msg') = Some r" "tabs w2 = done_tables x (MessageID msg') (app_now w1) now r (tabs w1)"
    using markDoneAndArchive_quiet [OF h1(4) ok own assms(4,4)] by blast
  have w': "tabs w' = tabs w2" "script w' = []"
    using h h1(1) d assms(5) by (simp_all add: w'_def process_one_def route_def handleOne_def handle_hydrated_def handle_result_def)
  have "tables_ok (tabs w2)"
    using markDoneAndArchive_runs [OF d(1)] tables_ok_runs assms(2) h1(3) by metis
  then show ?thesis
    using w' d(4) h1 row_of_Some [OF d(3)] by (simp add: done_tables_def archive_of_eq done_set_def)
qed

section \<open>A batch\<close>

lemma owned_by_filter: "mid \<noteq> mid' \<Longrightarrow> owned_by (filter (\<lambda>r. h_message_id r \<noteq> mid') rs) mid wk = owned_by rs mid wk"
  using row_of_filter [of mid "\<lambda>r. h_message_id r \<noteq> mid'" rs] by (simp add: owned_by_sel)

lemma process_all_quiet:
  fixes x :: ext and m :: messaging and h :: handler and co :: callOptions
  assumes "\<And>s. text_ok x s" and "succeeds h"
    and "script w = []" and "tables_ok (tabs w)" and "distinct (map MessageID msgs)"
    and "\<forall>msg \<in> set msgs. \<not> Encrypted msg \<and> owned_by (hot (tabs w)) (MessageID msg) (WorkerID (s_cfg (m_store m)))"
  defines "f \<equiv> process_one x m (Some h) co"
  shows "\<exists>bs. hot (tabs (fold f (map (\<lambda>msg. (msg, True)) msgs) w)) = filter (\<lambda>r. h_message_id r \<notin> MessageID ` set msgs) (hot (tabs w))
     \<and> archive (tabs (fold f (map (\<lambda>msg. (msg, True)) msgs) w)) = archive (tabs w) @ bs
     \<and> map a_message_id bs = map MessageID msgs \<and> list_all (\<lambda>a. a_final_status a = FinalProcessed) bs"
  using assms(3-6)
proof (induction msgs arbitrary: w)
  case (Cons msg msgs)
  let ?w1 = "f (msg, True) w"
  have one: "script ?w1 = [] \<and> tables_ok (tabs ?w1) \<and> hot (tabs ?w1) = filter (\<lambda>r. h_message_id r \<noteq> MessageID msg) (hot (tabs w))
     \<and> (\<exists>a. archive (tabs ?w1) = archive (tabs w) @ [a] \<and> a_message_id a = MessageID msg \<and> a_final_status a = FinalProcessed)"
    unfolding f_def using Cons.prems assms(1,2) by (intro process_one_quiet) auto
  then obtain a where a: "archive (tabs ?w1) = archive (tabs w) @ [a]" "a_message_id a = MessageID msg" "a_final_status a = FinalProcessed"
    by blast
  have "MessageID msg' \<noteq> MessageID msg" if "msg' \<in> set msgs" for msg'
    using Cons.prems(3) that by (auto simp: image_iff)
  then have "\<forall>msg' \<in> set msgs. \<not> Encrypted msg' \<and> owned_by (hot (tabs ?w1)) (MessageID msg') (WorkerID (s_cfg (m_store m)))"
    using one Cons.prems(4) by (simp add: owned_by_filter)
  then obtain bs where bs: "hot (tabs (fold f (map (\<lambda>msg. (msg, True)) msgs) ?w1)) = filter (\<lambda>r. h_message_id r \<notin> MessageID ` set msgs) (hot (tabs ?w1))"
    "archive (tabs (fold f (map (\<lambda>msg. (msg, True)) msgs) ?w1)) = archive (tabs ?w1) @ bs"
    "map a_message_id bs = map MessageID msgs" "list_all (\<lambda>a. a_final_status a = FinalProcessed) bs"
    using Cons.IH [of ?w1] one Cons.prems(3) by auto
  then show ?case using one a by (intro exI [of _ "a # bs"]) (simp add: conj_commute)
qed simp

text \<open>What a claim leaves behind, in the terms of the next step.\<close>

lemma claimBatch_owned:
  assumes "claimBatch x s sz w = (Inr msgs, w1)" and "tables_ok (tabs w)"
    and "varchar_in x 100 (WorkerID (s_cfg s)) = Some (WorkerID (s_cfg s))"
  shows "\<forall>msg \<in> set msgs. owned_by (hot (tabs w1)) (MessageID msg) (WorkerID (s_cfg s))"
    and "distinct (map MessageID msgs)"
    and "mid \<notin> MessageID ` set msgs \<Longrightarrow> row_of (hot (tabs w1)) mid = row_of (hot (tabs w)) mid"
    and "archive (tabs w1) = archive (tabs w)"
proof -
  let ?wk = "WorkerID (s_cfg s)"
  have hok: "hot_ok (hot (tabs w))" using assms(2) by (simp add: tables_ok_def)
  obtain locked rows where spec: "claim_spec ?wk (nat sz) locked (db_now w1) (hot (tabs w)) rows (hot (tabs w1))"
    and ids: "map MessageID msgs = ids rows" and ar: "archive (tabs w1) = archive (tabs w)"
    by (rule claimBatch_Inr [OF assms(1) hok]) (use assms(3) in auto)
  have set_ids: "MessageID ` set msgs = set (ids rows)" using arg_cong [OF ids, of set] by simp
  show "archive (tabs w1) = archive (tabs w)" by (rule ar)
  show "distinct (map MessageID msgs)" using spec by (simp add: ids claim_spec_def)
  show "row_of (hot (tabs w1)) mid = row_of (hot (tabs w)) mid" if "mid \<notin> MessageID ` set msgs"
    using spec that by (simp add: claim_spec_def set_ids)
  show "\<forall>msg \<in> set msgs. owned_by (hot (tabs w1)) (MessageID msg) ?wk"
  proof
    fix msg
    assume "msg \<in> set msgs"
    then have mem: "MessageID msg \<in> set (ids rows)" using set_ids by blast
    then obtain r where r: "r \<in> set rows" "h_message_id r = MessageID msg" by (auto simp: ids_def)
    have "row_of (hot (tabs w1)) (MessageID msg) = Some r"
      using spec mem row_of_mem [of rows r] r by (simp add: claim_spec_def)
    moreover obtain q where "r = claim_set ?wk (db_now w1) q" using spec r(1) by (auto simp: claim_spec_def)
    ultimately show "owned_by (hot (tabs w1)) (MessageID msg) ?wk" by (simp add: owned_by_def claim_set_def)
  qed
qed

lemma claimBatch_script: "script w = [] \<Longrightarrow> claimBatch x s sz w = (res, w1) \<Longrightarrow> script w1 = []"
  by (auto simp: claimBatch_def query_quiet split: prod.splits sum.splits)


definition ok_handler :: handler where
  "ok_handler c msg w = (None, msg, w)"

lemma sample_unencrypted: "claimBatch pg store0 1 two_waiting = (Inr ms, w') \<Longrightarrow> list_all (\<lambda>m. \<not> Encrypted m) ms"
  by (auto simp: two_waiting_def eval_simps)


end
