(* ===== verification/Messaging_Properties.thy ===== *)
theory Messaging_Properties
  imports Progress
begin

text \<open>
  The properties of \<^verbatim>\<open>messaging.go\<close>: construction, deduplicated receipt, all-or-nothing enqueueing, and
  what becomes of a claimed message.
\<close>

section \<open>Construction\<close>

text \<open>
  (C28) What \<open>New\<close> guarantees when it returns an instance: a configuration with every default
  filled in (positive retry budget, timeouts and concurrency, a worker id, a backoff strategy),
  shared by the store, table names that are plain identifiers of at most 63 characters, and a
  cipher registry exactly when ciphers were given.
\<close>

theorem New_establishes:
  assumes "New quote cfg opts = Inr m"
  shows "config_ok (m_cfg m) \<and> s_cfg (m_store m) = m_cfg m \<and> m_backoff m \<noteq> None
     \<and> list_all (\<lambda>t. nameRegex_match t \<and> length t \<le> 63) [dedupTbl (m_store m), hotTbl (m_store m), archTbl (m_store m)]
     \<and> (s_cipher (m_store m) = None \<longleftrightarrow> o_ciphers (applyOptions opts) = [])"
proof -
  note base = New_Inr [OF assms]
  obtain c where c: "New_cipher quote (applyOptions opts) = Inr c"
    and store: "m_store m = newStore (Config_withDefaults cfg) c"
    using assms by (auto simp: New_def Let_def split: option.splits sum.splits)
  have tbls: "s_cipher (m_store m) = c" "dedupTbl (m_store m) = tableName (Name cfg) ''dedup''"
    "hotTbl (m_store m) = tableName (Name cfg) ''hot''" "archTbl (m_store m) = tableName (Name cfg) ''archive''"
    by (simp_all add: store newStore_def Let_def Config_withDefaults_def)
  have valid: "assertValidName quote (Name cfg) = None" using base(4,5) by simp
  have "nameRegex_match (tableName (Name cfg) s)" if "s \<in> {''dedup'', ''hot'', ''archive''}" for s
    using tableName_identifier [OF valid, of s] that by (auto simp: nameRegex_match_def is_letter_def less_eq_char_def)
  moreover have "length (tableName (Name cfg) s) \<le> 63" if "s \<in> {''dedup'', ''hot'', ''archive''}" for s
    using valid that by (auto simp: assertValidName_None_iff maxNameLen_def length_tableName)
  ultimately show ?thesis
    using base New_cipher_Inr(1) [OF c] by (simp add: tbls)
qed

theorem New_establishes_witness:
  "\<exists>m. New (\<lambda>s. s) cfg0 [] = Inr m \<and> config_ok (m_cfg m) \<and> s_cipher (m_store m) = None"
proof -
  have "\<exists>m. New (\<lambda>s. s) cfg0 [] = Inr m"
    by (simp add: New_def cfg0_def assertValidName_def nameRegex_match_def is_letter_def less_eq_char_def maxNameLen_def
        New_cipher_def applyOptions_def Let_def)
  then obtain m where m: "New (\<lambda>s. s) cfg0 [] = Inr m" ..
  from New_establishes [OF m] m show ?thesis by (simp add: applyOptions_def)
qed

section \<open>Receive\<close>


abbreviation msgx :: message where
  "msgx \<equiv> new_message ''x'' ''orders'' ''{}''"

lemmas eval_receive = Receive_def receive_run_def default_retries_def insertDedup_def insertHot_def sql_insert_dedup_def
  prepareFields_def hot_args_def new_message_def sql_insert_hot_def placeholder_def
  hot_row_of_args_def opt_varchar_def nullString_def json_marshal_headers_def dedup_ids_def
  in_int32_def nth_Cons' eval_simps

lemma receive_eval: "\<exists>msg' w'. Receive pg m0 False msgx (world0 (tabs0 [])) = (Inr True, msg', w')"
  by (simp add: eval_receive)



text \<open>A caller's transaction around \<open>Receive\<close>, rolled back on an error.\<close>

definition receive_in_tx :: "ext \<Rightarrow> messaging \<Rightarrow> message \<Rightarrow> world \<Rightarrow> err option \<times> world" where
  "receive_in_tx x m msg =
     own_tx x (\<lambda>e. e) (\<lambda>w. case Receive x m True msg w of (Inl e, _, w') \<Rightarrow> (Some e, w') | (Inr _, _, w') \<Rightarrow> (None, w'))"

lemma exec_frame:
  assumes "exec x h st w = (r, w')" and "\<And>locked now t a t'. st locked now t = Inr (a, t') \<Longrightarrow> f t' = f t"
  shows "f (tabs w') = f (tabs w)"
  using exec_tabs [OF assms(1)] assms(2) by auto

lemma insert_statements_seq:
  "sql_insert_dedup x mid pk tp src ex locked now t = Inr (n, t') \<Longrightarrow> arch_seq t' = arch_seq t"
  "sql_insert_hot x rows args locked now t = Inr (k, t') \<Longrightarrow> arch_seq t' = arch_seq t"
  by (auto simp: sql_insert_dedup_def sql_insert_hot_def Let_def split: if_splits option.splits sum.splits)

lemma exec_insert_seq:
  "exec x h (sql_insert_dedup y mid pk tp src ex) w = (r1, w') \<Longrightarrow> arch_seq (tabs w') = arch_seq (tabs w)"
  "exec x h (sql_insert_hot y rows args) w = (r2, w') \<Longrightarrow> arch_seq (tabs w') = arch_seq (tabs w)"
  by (erule exec_frame, erule insert_statements_seq)+

lemma Receive_seq:
  assumes "Receive x m tx msg w = (res, msg', w')"
  shows "arch_seq (tabs w') = arch_seq (tabs w)"
proof -
  have d: "arch_seq (tabs w1) = arch_seq (tabs w0)" if "insertDedup x db mid pk tp src ex w0 = (r, w1)" for db mid pk tp src ex w0 r w1
    using that by (auto simp: insertDedup_def split: prod.splits sum.splits if_splits dest!: exec_insert_seq)
  have h: "arch_seq (tabs w1) = arch_seq (tabs w0)" if "insertHot x s db msg0 w0 = (r, w1)" for s db msg0 w0 r w1
    using that
    by (auto simp: insertHot_def Let_def split: prod.splits sum.splits dest!: exec_insert_seq prepareFields_frame(1))
  show ?thesis
    using assms by (auto simp: Receive_def receive_run_def Let_def split: prod.splits option.splits if_splits dest!: d h)
qed


lemma receive_tx_eval: "\<exists>w'. receive_in_tx pg m0 msgx (world0 (tabs0 [])) = (None, w')"
  by (simp add: receive_in_tx_def eval_receive)


text \<open>A server that does one statement and then drops the connection for one call.\<close>

definition flaky :: world where
  "flaky = (world0 (tabs0 []))\<lparr>script := [quiet, quiet\<lparr>ev_fault := Some (Fault_before ''connection lost'')\<rparr>]\<rparr>"


section \<open>Enqueue\<close>


lemma enqueue_eval: "\<exists>msg' w'. Enqueue pg m0 False msgx (world0 (tabs0 [])) = (None, msg', w')"
  by (simp add: Enqueue_def eval_receive)





section \<open>Processing\<close>

text \<open>
  (C9) After a handler that succeeded: the row that this worker owns is archived as processed and the
  metric and the log say so; or the worker no longer owns it, and then nothing is changed and
  nothing reported; or archiving failed, which is logged as an error, and the row is archived
  (the answer to the commit was lost) or all rows are as before. \<open>MessageProcessed\<close> is never
  reported for a message that was not archived.
\<close>

theorem success_outcome:
  fixes x :: ext and m :: messaging and msg :: message
  assumes "h (handlerCtx (m_cfg m) co) msg w = (None, msg', w1)" and "tables_ok (tabs w1)"
  defines "w2 \<equiv> handle_hydrated x m msg h co w" and "wk \<equiv> WorkerID (s_cfg (m_store m))"
  shows "(\<exists>r now. row_of (hot (tabs w1)) (MessageID msg') = Some r \<and> owned_by (hot (tabs w1)) (MessageID msg') wk
           \<and> tabs w2 = done_tables x (MessageID msg') (app_now w1) now r (tabs w1)
           \<and> obs w2 = obs w1 @ [Metric (MessageProcessed (Topic msg')), Log INFO ''processed'' msg'])
     \<or> (\<not> owned_by (hot (tabs w1)) (MessageID msg') wk \<and> tabs w2 = tabs w1 \<and> obs w2 = obs w1)
     \<or> (obs w2 = obs w1 @ [Log ERROR ''process.archive_error'' msg']
          \<and> ((\<exists>k. tabs w2 = (tabs w1)\<lparr>arch_seq := k\<rparr>)
             \<or> (\<exists>r now. row_of (hot (tabs w1)) (MessageID msg') = Some r
                  \<and> tabs w2 = done_tables x (MessageID msg') (app_now w1) now r (tabs w1))))"
proof -
  have "hot_ok (hot (tabs w1))" using assms(2) by (simp add: tables_ok_def)
  from assms(1) this show ?thesis
  proof (cases rule: handle_success_cases [where x = x])
    case (processed r now)
    then have "owned_by (hot (tabs w1)) (MessageID msg') (WorkerID (s_cfg (m_store m)))" by (simp add: owned_by_sel)
    with processed show ?thesis unfolding w2_def wk_def by blast
  qed (unfold w2_def wk_def, blast+)
qed

theorem success_outcome_witness:
  "\<exists>r now. tabs (handle_hydrated pg m0 (new_message ''a'' ''orders'' ''{}'') ok_handler (applyCallOptions []) one_taken)
     = done_tables pg ''a'' 100 now r (tabs one_taken)"
proof -
  let ?msg = "new_message ''a'' ''orders'' ''{}''"
  have h: "ok_handler (handlerCtx (m_cfg m0) (applyCallOptions [])) ?msg one_taken = (None, ?msg, one_taken)"
    by (simp add: ok_handler_def)
  have own: "owned_by (hot (tabs one_taken)) ''a'' (WorkerID (s_cfg (m_store m0)))"
    by (simp add: owned_by_sel one_taken_def eval_simps)
  have "last (obs (handle_hydrated pg m0 ?msg ok_handler (applyCallOptions []) one_taken)) = Log INFO ''processed'' ?msg"
    by (simp add: handle_hydrated_def handle_result_def ok_handler_def new_message_def one_taken_def eval_simps)
  with success_outcome [where h = ok_handler and m = m0 and co = "applyCallOptions []" and x = pg, OF h one_taken_ok] own
  show ?thesis by (auto simp: new_message_def one_taken_def world0_def)
qed






text \<open>
  One \<open>ProcessBatch\<close> call, under any schedule, with any faults and with handlers that keep the
  tables well-formed and do not delete from the archive: the tables stay well-formed, and every
  message that was in the hot table is still there with its data or has an archive row made from it.
\<close>

theorem processBatch_safe:
  assumes "ProcessBatch x m sched sz handler opts w = (res, w')" and "tables_ok (tabs w)"
    and "routes_keep A m handler" and "Del_archive \<notin> A" and "r \<in> set (hot (tabs w))"
  shows "tables_ok (tabs w') \<and> safe (arch_seq (tabs w)) r (tabs w')"
proof -
  have run: "runs (A \<union> {Move, Finish, Burn_ids}) (tabs w) (tabs w')"
    using ProcessBatch_runs [OF assms(1,2,3)] .
  have "Del_archive \<notin> A \<union> {Move, Finish, Burn_ids}" using assms(4) by simp
  then show ?thesis using safe_runs [OF run _ assms(2,5)] tables_ok_runs [OF run assms(2)] by blast
qed

theorem processBatch_safe_witness:
  "\<exists>res w'. ProcessBatch pg m0 (\<lambda>ms. map (\<lambda>m. (m, True)) ms) 1 (Some ok_handler) [] two_waiting = (res, w')
     \<and> tables_ok (tabs w') \<and> safe 1 (msg_row ''a'' 10) (tabs w')"
proof -
  obtain res w' where b: "ProcessBatch pg m0 (\<lambda>ms. map (\<lambda>m. (m, True)) ms) 1 (Some ok_handler) [] two_waiting = (res, w')"
    by fastforce
  have "routes_keep {} m0 (Some ok_handler)" by (auto simp: routes_keep_def route_def keeps_tables_def ok_handler_def)
  moreover have "msg_row ''a'' 10 \<in> set (hot (tabs two_waiting))" by (simp add: two_waiting_def world0_def tabs0_def)
  ultimately have "tables_ok (tabs w') \<and> safe (arch_seq (tabs two_waiting)) (msg_row ''a'' 10) (tabs w')"
    using processBatch_safe [OF b two_waiting_ok] by blast
  then show ?thesis using b by (simp add: two_waiting_def world0_def tabs0_def)
qed

end
