(* ===== verification/Drain.thy ===== *)
theory Drain
  imports Table_Spec
begin

text \<open>
  The loop that \<^verbatim>\<open>cleanup.go\<close> (\<open>purgeBatched\<close>) and \<^verbatim>\<open>messaging_admin.go\<close> (\<open>RetryAllFailed\<close>) share: run a
  bounded batch, add up the rows, and stop after a batch that was not full. In Go it is an endless
  \<open>for\<close>; here it is a partial function, for which not returning is \<open>None\<close>, and the locale says
  what of a batch makes it return.
\<close>

section \<open>The loop\<close>

partial_function (option) drain ::
  "(world \<Rightarrow> (err + int) \<times> world) \<Rightarrow> int \<Rightarrow> int \<Rightarrow> world \<Rightarrow> ((int \<times> err option) \<times> world) option" where
  "drain step batchSize tot w =
     (case step w of
        (Inl e, w') \<Rightarrow> Some ((tot, Some e), w')
      | (Inr n, w') \<Rightarrow>
          (let tot' = wrap64 (tot + n) in
           if n < batchSize then Some ((tot', None), w')
           else drain step batchSize tot' w'))"

declare drain.simps [code]

section \<open>Its contract\<close>

text \<open>
  \<open>left\<close> bounds the rows that batches can still take: a full batch takes rows away. \<open>finished\<close> is what
  a batch that was not full establishes. Everything is required only of well-formed tables.
\<close>

locale draining =
  fixes step :: "world \<Rightarrow> (err + int) \<times> world" and batchSize :: int
    and left :: "world \<Rightarrow> nat" and finished :: "world \<Rightarrow> bool" and A :: "act set"
  assumes full: "step w = (Inr n, w') \<Longrightarrow> tables_ok (tabs w) \<Longrightarrow> batchSize \<le> n \<Longrightarrow> left w' < left w"
    and partial: "step w = (Inr n, w') \<Longrightarrow> tables_ok (tabs w) \<Longrightarrow> n < batchSize \<Longrightarrow> finished w'"
    and step_runs: "step w = (res, w') \<Longrightarrow> tables_ok (tabs w) \<Longrightarrow> runs A (tabs w) (tabs w')"
begin

lemma drain_returns:
  assumes "tables_ok (tabs w)"
  shows "\<exists>tot' e w'. drain step batchSize tot w = Some ((tot', e), w')
    \<and> runs A (tabs w) (tabs w') \<and> (e = None \<longrightarrow> finished w')"
  using assms
proof (induction "left w" arbitrary: w tot rule: less_induct)
  case less
  obtain res w1 where st: "step w = (res, w1)" by fastforce
  note r1 = step_runs [OF st less.prems]
  have ok1: "tables_ok (tabs w1)" using tables_ok_runs [OF r1 less.prems] .
  show ?case
  proof (cases res)
    case (Inl e)
    then show ?thesis using st r1 by (subst drain.simps) simp
  next
    case (Inr n)
    show ?thesis
    proof (cases "n < batchSize")
      case True
      then show ?thesis using st Inr r1 partial [of w n w1] less.prems by (subst drain.simps) simp
    next
      case False
      then have "left w1 < left w" using full [of w n w1] st Inr less.prems by simp
      from less.hyps [OF this ok1, of "wrap64 (tot + n)"] False st Inr r1 show ?thesis
        by (subst drain.simps) (auto intro: runs_trans)
    qed
  qed
qed

text \<open>What every batch keeps, the loop keeps.\<close>

lemma drain_keeps:
  assumes "drain step batchSize tot w = Some (res, w')" and "tables_ok (tabs w)" and "I w"
    and inv: "\<And>v r v'. step v = (r, v') \<Longrightarrow> tables_ok (tabs v) \<Longrightarrow> I v \<Longrightarrow> I v'"
  shows "I w'"
  using assms(1-3)
proof (induction "left w" arbitrary: w tot rule: less_induct)
  case less
  obtain r w1 where st: "step w = (r, w1)" by fastforce
  note I1 = inv [OF st less.prems(2,3)]
  have ok1: "tables_ok (tabs w1)" using tables_ok_runs [OF step_runs [OF st less.prems(2)] less.prems(2)] .
  show ?case
  proof (cases "\<exists>n. r = Inr n \<and> batchSize \<le> n")
    case True
    then obtain n where n: "r = Inr n" "batchSize \<le> n" by blast
    then have "drain step batchSize (wrap64 (tot + n)) w1 = Some (res, w')"
      using less.prems(1) st by (subst (asm) drain.simps) simp
    then show ?thesis using less.hyps [of w1] full [of w n w1] st n less.prems(2) ok1 I1 by simp
  next
    case False
    then have "w' = w1" using less.prems(1) st by (subst (asm) drain.simps) (auto simp: Let_def split: sum.splits if_splits)
    then show ?thesis using I1 by simp
  qed
qed

end

end
