(* ===== verification/Admin.thy ===== *)
theory Admin
  imports Messaging_Facts Drain
begin

text \<open>
  \<^verbatim>\<open>messaging_admin.go\<close>: the builder of \<open>WHERE\<close> clauses with its positional arguments, re-queueing of
  failed messages (one, a batch, all), counting, listing, and the deduplication table's queries.
  A clause is a list of conditions that refer to arguments by number, and a row satisfies it under
  SQL's three-valued logic: a comparison with \<open>NULL\<close> is not true.
\<close>

section \<open>Conditions and their arguments\<close>

datatype column = C_topic | C_partition_key | C_status | C_final_status | C_processed_at

datatype cond = Always | Eq_lit column string | Eq_arg column nat | Le_arg column nat

fun hot_col :: "hot_row \<Rightarrow> column \<Rightarrow> sql_val" where
  "hot_col r C_topic = VText (h_topic r)"
| "hot_col r C_partition_key = opt_text (h_partition_key r)"
| "hot_col r C_status = VText (status_text (h_status r))"
| "hot_col r C_processed_at = opt_time (h_processed_at r)"
| "hot_col r C_final_status = VNull"

fun archive_col :: "archive_row \<Rightarrow> column \<Rightarrow> sql_val" where
  "archive_col r C_topic = VText (a_topic r)"
| "archive_col r C_partition_key = opt_text (a_partition_key r)"
| "archive_col r C_final_status = VText (final_text (a_final_status r))"
| "archive_col r C_processed_at = opt_time (a_processed_at r)"
| "archive_col r C_status = VNull"

fun arg_val :: "ext \<Rightarrow> sql_arg \<Rightarrow> sql_val" where
  "arg_val x (AText v) = opt_text v"
| "arg_val x (AJson s) = VText s"
| "arg_val x (ABool b) = VBool b"
| "arg_val x (AInt i) = VInt i"
| "arg_val x (ATime t) = VTime (ts_in x t)"

definition sql_eq :: "sql_val \<Rightarrow> sql_val \<Rightarrow> bool option" where
  "sql_eq a b = (if a = VNull \<or> b = VNull then None else Some (a = b))"

fun sql_le :: "sql_val \<Rightarrow> sql_val \<Rightarrow> bool option" where
  "sql_le (VTime a) (VTime b) = Some (a \<le> b)"
| "sql_le (VInt a) (VInt b) = Some (a \<le> b)"
| "sql_le _ _ = None"

definition arg_no :: "ext \<Rightarrow> sql_arg list \<Rightarrow> nat \<Rightarrow> sql_val" where
  "arg_no x args n = (case placeholder args n of None \<Rightarrow> VNull | Some a \<Rightarrow> arg_val x a)"

fun cond_value :: "ext \<Rightarrow> sql_arg list \<Rightarrow> (column \<Rightarrow> sql_val) \<Rightarrow> cond \<Rightarrow> bool option" where
  "cond_value x args col Always = Some True"
| "cond_value x args col (Eq_lit c s) = sql_eq (col c) (VText s)"
| "cond_value x args col (Eq_arg c n) = sql_eq (col c) (arg_no x args n)"
| "cond_value x args col (Le_arg c n) = sql_le (col c) (arg_no x args n)"

definition where_holds :: "ext \<Rightarrow> sql_arg list \<Rightarrow> cond list \<Rightarrow> (column \<Rightarrow> sql_val) \<Rightarrow> bool" where
  "where_holds x args cl col = list_all (\<lambda>c. cond_value x args col c = Some True) cl"

text \<open>The server refuses a statement with a text argument it cannot decode.\<close>

fun arg_ok :: "ext \<Rightarrow> sql_arg \<Rightarrow> bool" where
  "arg_ok x (AText (Some s)) = text_ok x s"
| "arg_ok x _ = True"

section \<open>The builder\<close>

record whereBuilder =
  clause :: "cond list"
  wb_args :: "sql_arg list"

text \<open>\<open>and\<close>: the condition is given the number that its argument will have.\<close>

definition wb_and :: "(nat \<Rightarrow> cond) \<Rightarrow> sql_arg \<Rightarrow> whereBuilder \<Rightarrow> whereBuilder" where
  "wb_and c val wb =
     (let args = wb_args wb @ [val] in wb\<lparr>wb_args := args, clause := clause wb @ [c (length args)]\<rparr>)"

record filterOptions =
  f_Topic :: string
  f_PartitionKey :: string

definition applyFilter :: "filterOptions \<Rightarrow> whereBuilder \<Rightarrow> whereBuilder" where
  "applyFilter opts wb =
     (let wb = (if f_Topic opts \<noteq> '''' then wb_and (Eq_arg C_topic) (AText (Some (f_Topic opts))) wb else wb) in
      if f_PartitionKey opts \<noteq> '''' then wb_and (Eq_arg C_partition_key) (AText (Some (f_PartitionKey opts))) wb
      else wb)"

section \<open>Re-queueing failed messages\<close>

definition DeadLetter :: "ext \<Rightarrow> string \<Rightarrow> string \<Rightarrow> world \<Rightarrow> err option \<times> world" where
  "DeadLetter x messageID reason w = deadLetter x messageID reason w"

record retryFailedOptions =
  r_Filter :: filterOptions
  r_Before :: "int option"
  r_Limit :: int

definition retry_failed_where :: "retryFailedOptions \<Rightarrow> whereBuilder" where
  "retry_failed_where opts =
     (let limit = (if r_Limit opts \<le> 0 then 1000 else r_Limit opts);
          wb = applyFilter (r_Filter opts)
                 \<lparr>clause = [Eq_lit C_status ''FAILED''], wb_args = [AInt limit]\<rparr> in
      case r_Before opts of
        None \<Rightarrow> wb
      | Some t \<Rightarrow> wb_and (Le_arg C_processed_at) (ATime t) wb)"

text \<open>\<open>ORDER BY\<close> of a nullable column puts \<open>NULL\<close> last.\<close>

definition nulls_last :: "('a \<Rightarrow> int option) \<Rightarrow> 'a list \<Rightarrow> 'a list" where
  "nulls_last key rs = sort_key (\<lambda>r. the (key r)) (filter (\<lambda>r. key r \<noteq> None) rs) @ filter (\<lambda>r. key r = None) rs"

definition pending_set :: "hot_row \<Rightarrow> hot_row" where
  "pending_set r =
     r\<lparr>h_status := StatusPending, h_retry_count := 0, h_next_retry_at := None, h_last_error := None,
       h_processed_at := None\<rparr>"

definition int_arg :: "sql_arg list \<Rightarrow> nat \<Rightarrow> int" where
  "int_arg args n = (case placeholder args n of Some a \<Rightarrow> arg_int a | None \<Rightarrow> 0)"

definition retry_ids :: "ext \<Rightarrow> whereBuilder \<Rightarrow> hot_row list \<Rightarrow> string list" where
  "retry_ids x wb rs =
     ids (take (nat (int_arg (wb_args wb) 1))
       (nulls_last h_processed_at (filter (\<lambda>r. where_holds x (wb_args wb) (clause wb) (hot_col r)) rs)))"

definition sql_retry_failed :: "ext \<Rightarrow> whereBuilder \<Rightarrow> int stmt" where
  "sql_retry_failed x wb locked now t =
     (if \<not> list_all (arg_ok x) (wb_args wb) then Inl Bad_value
      else if int_arg (wb_args wb) 1 < 0 then Inl Neg_limit
      else (let sel = claim_sel (retry_ids x wb (hot t)) in
            Inr (count_where sel (hot t), t\<lparr>hot := upd_where sel pending_set (hot t)\<rparr>)))"

definition RetryFailed :: "ext \<Rightarrow> retryFailedOptions \<Rightarrow> world \<Rightarrow> (err + int) \<times> world" where
  "RetryFailed x opts w =
     (case exec x DB (sql_retry_failed x (retry_failed_where opts)) w of
        (Inl e, w') \<Rightarrow> (Inl (Wrap ''message: retry failed'' e), w')
      | (Inr n, w') \<Rightarrow> (Inr n, w'))"

record retryAllFailedOptions =
  ra_Filter :: filterOptions
  ra_BatchSize :: int

definition RetryAllFailed ::
  "ext \<Rightarrow> retryAllFailedOptions \<Rightarrow> world \<Rightarrow> ((int \<times> err option) \<times> world) option" where
  "RetryAllFailed x opts w =
     (let batchSize = (if ra_BatchSize opts \<le> 0 then 500 else ra_BatchSize opts);
          cutoff = app_now w in
      drain (RetryFailed x \<lparr>r_Filter = ra_Filter opts, r_Before = Some cutoff, r_Limit = batchSize\<rparr>)
        batchSize 0 w)"

definition failed_key :: "string \<Rightarrow> hot_row \<Rightarrow> bool" where
  "failed_key mid r \<longleftrightarrow> h_message_id r = mid \<and> h_status r = StatusFailed"

definition sql_retry_one :: "ext \<Rightarrow> string \<Rightarrow> int stmt" where
  "sql_retry_one x mid locked now t =
     (if \<not> text_ok x mid then Inl Bad_value
      else Inr (count_where (failed_key mid) (hot t), t\<lparr>hot := upd_where (failed_key mid) pending_set (hot t)\<rparr>))"

definition RetryOne :: "ext \<Rightarrow> string \<Rightarrow> world \<Rightarrow> err option \<times> world" where
  "RetryOne x messageID w =
     (case exec x DB (sql_retry_one x messageID) w of
        (Inl e, w') \<Rightarrow> (Some (Wrap ''message: retry one'' e), w')
      | (Inr n, w') \<Rightarrow> (if n = 0 then Some ErrNotFound else None, w'))"

section \<open>Counting and listing\<close>

record messageCountByStatus =
  mc_Pending :: int
  mc_Processing :: int
  mc_Retry :: int
  mc_Failed :: int

text \<open>\<open>SELECT status, COUNT(*) ... GROUP BY status\<close>: one row per status that occurs, in no particular order.\<close>

definition count_row :: "hot_row list \<Rightarrow> status \<Rightarrow> sql_val list" where
  "count_row rs st = [VText (status_text st), VInt (count_where (\<lambda>r. h_status r = st) rs)]"

definition sql_count_by_status :: "ext \<Rightarrow> whereBuilder \<Rightarrow> sql_val list list stmt" where
  "sql_count_by_status x wb locked now t =
     (if \<not> list_all (arg_ok x) (wb_args wb) then Inl Bad_value
      else (let rs = filter (\<lambda>r. where_holds x (wb_args wb) (clause wb) (hot_col r)) (hot t) in
            Inr (map (count_row rs) (remdups (map h_status rs)), t)))"

text \<open>The \<open>switch\<close> over the status; other texts are ignored.\<close>

definition set_count :: "string \<Rightarrow> int \<Rightarrow> messageCountByStatus \<Rightarrow> messageCountByStatus" where
  "set_count st n out =
     (if st = status_text StatusPending then out\<lparr>mc_Pending := n\<rparr>
      else if st = status_text StatusProcessing then out\<lparr>mc_Processing := n\<rparr>
      else if st = status_text StatusRetry then out\<lparr>mc_Retry := n\<rparr>
      else if st = status_text StatusFailed then out\<lparr>mc_Failed := n\<rparr>
      else out)"

definition no_counts :: messageCountByStatus where
  "no_counts = \<lparr>mc_Pending = 0, mc_Processing = 0, mc_Retry = 0, mc_Failed = 0\<rparr>"

text \<open>The loop over the groups; the counts so far are returned beside an error of the iteration.\<close>

fun scan_counts ::
  "go_texts \<Rightarrow> sql_val list list \<Rightarrow> err option \<Rightarrow> messageCountByStatus \<Rightarrow> messageCountByStatus \<times> err option" where
  "scan_counts tx [] rowsErr out = (out, rowsErr)"
| "scan_counts tx (v # vs) rowsErr out =
     (case rows_Scan tx [DString, DInt] v of
        Some e \<Rightarrow> (no_counts, Some (Wrap ''message: scan metrics'' e))
      | None \<Rightarrow> scan_counts tx vs rowsErr (set_count (val_text (v ! 0)) (val_int (v ! 1)) out))"

definition GetMetrics :: "ext \<Rightarrow> filterOptions \<Rightarrow> world \<Rightarrow> (messageCountByStatus \<times> err option) \<times> world" where
  "GetMetrics x opts w =
     (case query x DB (sql_count_by_status x (applyFilter opts \<lparr>clause = [Always], wb_args = []\<rparr>)) w of
        (Inl e, w') \<Rightarrow> ((no_counts, Some (Wrap ''message: get metrics'' e)), w')
      | (Inr (rows, rowsErr), w') \<Rightarrow> (scan_counts (gtexts x) rows rowsErr no_counts, w'))"

text \<open>The page that \<open>LIMIT $a OFFSET $b\<close> cuts out of the ordered rows.\<close>

definition page_of :: "sql_arg list \<Rightarrow> nat \<Rightarrow> nat \<Rightarrow> 'a list \<Rightarrow> 'a list" where
  "page_of args a b rs = take (nat (int_arg args a)) (drop (nat (int_arg args b)) rs)"

definition sql_list_hot :: "ext \<Rightarrow> whereBuilder \<Rightarrow> nat \<Rightarrow> nat \<Rightarrow> hot_row list stmt" where
  "sql_list_hot x wb a b locked now t =
     (if \<not> list_all (arg_ok x) (wb_args wb) then Inl Bad_value
      else if int_arg (wb_args wb) a < 0 \<or> int_arg (wb_args wb) b < 0 then Inl Neg_limit
      else Inr (page_of (wb_args wb) a b
                  (sort_key h_created_at (filter (\<lambda>r. where_holds x (wb_args wb) (clause wb) (hot_col r)) (hot t))), t))"

definition listByStatus ::
  "ext \<Rightarrow> store \<Rightarrow> status \<Rightarrow> filterOptions \<Rightarrow> pageOptions \<Rightarrow> world \<Rightarrow> (err + message list) \<times> world" where
  "listByStatus x s st opts page w =
     (let page = PageOptions_withDefaults page;
          wb = applyFilter opts \<lparr>clause = [Eq_arg C_status 1], wb_args = [AText (Some (status_text st))]\<rparr>;
          wb = wb\<lparr>wb_args := wb_args wb @ [AInt (Limit page), AInt (Offset page)]\<rparr>;
          n = length (wb_args wb) in
      case query x DB (returning hot_values hotCols (sql_list_hot x wb (n - 1) n)) w of
        (Inl e, w') \<Rightarrow> (Inl (Wrap (''message: list '' @ status_text st) e), w')
      | (Inr (rows, rowsErr), w') \<Rightarrow> (scanMessagesSafe (gtexts x) s rows rowsErr, w'))"

definition ListFailed :: "ext \<Rightarrow> store \<Rightarrow> filterOptions \<Rightarrow> pageOptions \<Rightarrow> world \<Rightarrow> (err + message list) \<times> world" where
  "ListFailed x s opts page w = listByStatus x s StatusFailed opts page w"

definition ListPending :: "ext \<Rightarrow> store \<Rightarrow> filterOptions \<Rightarrow> pageOptions \<Rightarrow> world \<Rightarrow> (err + message list) \<times> world" where
  "ListPending x s opts page w = listByStatus x s StatusPending opts page w"

definition sql_find_hot :: "ext \<Rightarrow> string \<Rightarrow> hot_row list stmt" where
  "sql_find_hot x mid locked now t =
     (if \<not> text_ok x mid then Inl Bad_value else Inr (filter (\<lambda>r. h_message_id r = mid) (hot t), t))"

definition FindByMessageID :: "ext \<Rightarrow> store \<Rightarrow> string \<Rightarrow> world \<Rightarrow> (err + message option) \<times> world" where
  "FindByMessageID x s messageID w =
     (case query x DB (returning hot_values hotCols (sql_find_hot x messageID)) w of
        (Inl e, w') \<Rightarrow> (Inl (Wrap ''message: find by message id'' e), w')
      | (Inr (rows, rowsErr), w') \<Rightarrow>
          (case scanMessagesSafe (gtexts x) s rows rowsErr of
             Inl e \<Rightarrow> (Inl e, w')
           | Inr [] \<Rightarrow> (Inr None, w')
           | Inr (m # _) \<Rightarrow> (Inr (Some m), w')))"

record listArchivedOptions =
  la_Topic :: string
  la_FinalStatus :: string

definition sql_list_archive :: "ext \<Rightarrow> whereBuilder \<Rightarrow> nat \<Rightarrow> nat \<Rightarrow> archive_row list stmt" where
  "sql_list_archive x wb a b locked now t =
     (if \<not> list_all (arg_ok x) (wb_args wb) then Inl Bad_value
      else if int_arg (wb_args wb) a < 0 \<or> int_arg (wb_args wb) b < 0 then Inl Neg_limit
      else Inr (page_of (wb_args wb) a b
                  (sort_key (\<lambda>r. - a_archived_at r)
                    (filter (\<lambda>r. where_holds x (wb_args wb) (clause wb) (archive_col r)) (archive t))), t))"

definition archived_where :: "listArchivedOptions \<Rightarrow> whereBuilder" where
  "archived_where opts =
     (let wb = \<lparr>clause = [Always], wb_args = []\<rparr>;
          wb = (if la_Topic opts \<noteq> '''' then wb_and (Eq_arg C_topic) (AText (Some (la_Topic opts))) wb else wb) in
      if la_FinalStatus opts \<noteq> '''' then wb_and (Eq_arg C_final_status) (AText (Some (la_FinalStatus opts))) wb else wb)"

definition ListArchived ::
  "ext \<Rightarrow> store \<Rightarrow> listArchivedOptions \<Rightarrow> pageOptions \<Rightarrow> world \<Rightarrow> (archived_message list \<times> err option) \<times> world" where
  "ListArchived x s opts page w =
     (let page = PageOptions_withDefaults page;
          wb = archived_where opts;
          wb = wb\<lparr>wb_args := wb_args wb @ [AInt (Limit page), AInt (Offset page)]\<rparr>;
          n = length (wb_args wb) in
      case query x DB (returning archive_values archiveCols (sql_list_archive x wb (n - 1) n)) w of
        (Inl e, w') \<Rightarrow> (([], Some (Wrap ''message: list archived'' e)), w')
      | (Inr (rows, rowsErr), w') \<Rightarrow> (scanArchivedSafe (gtexts x) s rows rowsErr [], w'))"

section \<open>The deduplication table\<close>

definition sql_is_duplicate :: "ext \<Rightarrow> string \<Rightarrow> bool stmt" where
  "sql_is_duplicate x mid locked now t =
     (if \<not> text_ok x mid then Inl Bad_value else Inr (mid \<in> set (dedup_ids (dedup t)), t))"

definition IsDuplicate :: "ext \<Rightarrow> string \<Rightarrow> world \<Rightarrow> (err + bool) \<times> world" where
  "IsDuplicate x messageID w =
     (case exec x DB (sql_is_duplicate x messageID) w of
        (Inl e, w') \<Rightarrow> (Inl (Wrap ''message: is duplicate'' e), w')
      | (Inr b, w') \<Rightarrow> (Inr b, w'))"

definition sql_remove_dedup :: "ext \<Rightarrow> string \<Rightarrow> int stmt" where
  "sql_remove_dedup x mid locked now t =
     (if \<not> text_ok x mid then Inl Bad_value
      else Inr (int (length (filter (\<lambda>d. d_message_id d = mid) (dedup t))),
                t\<lparr>dedup := filter (\<lambda>d. d_message_id d \<noteq> mid) (dedup t)\<rparr>))"

definition RemoveDedup :: "ext \<Rightarrow> string \<Rightarrow> world \<Rightarrow> (err + bool) \<times> world" where
  "RemoveDedup x messageID w =
     (case exec x DB (sql_remove_dedup x messageID) w of
        (Inl e, w') \<Rightarrow> (Inl (Wrap ''message: remove dedup'' e), w')
      | (Inr n, w') \<Rightarrow> (Inr (n > 0), w'))"

end
