(* ===== verification/Admin_Facts.thy ===== *)
theory Admin_Facts
  imports Admin
begin

text \<open>
  Facts on \<^verbatim>\<open>messaging_admin.go\<close>: the builder's clause means what the options say, the statements keep
  the contract of the tables, a batch of \<open>RetryFailed\<close> is exact and oldest first, and the loop of
  \<open>RetryAllFailed\<close> returns with nothing left to do.
\<close>

section \<open>Clauses\<close>

text \<open>Every placeholder of a clause has its argument.\<close>

fun cond_bound :: "nat \<Rightarrow> cond \<Rightarrow> bool" where
  "cond_bound k (Eq_arg c n) = (1 \<le> n \<and> n \<le> k)"
| "cond_bound k (Le_arg c n) = (1 \<le> n \<and> n \<le> k)"
| "cond_bound k _ = True"

definition wb_ok :: "whereBuilder \<Rightarrow> bool" where
  "wb_ok wb = list_all (cond_bound (length (wb_args wb))) (clause wb)"

lemma arg_no_append: "1 \<le> n \<Longrightarrow> n \<le> length args \<Longrightarrow> arg_no x (args @ extra) n = arg_no x args n"
  by (auto simp: arg_no_def placeholder_def nth_append)

lemma arg_no_new: "arg_no x (args @ [v]) (Suc (length args)) = arg_val x v"
  by (simp add: arg_no_def placeholder_def nth_append)

lemma cond_value_append: "cond_bound (length args) c \<Longrightarrow> cond_value x (args @ extra) col c = cond_value x args col c"
  by (cases c) (auto simp: arg_no_append)

lemma where_holds_append:
  "list_all (cond_bound (length args)) cl \<Longrightarrow> where_holds x (args @ extra) cl col = where_holds x args cl col"
  by (auto simp: where_holds_def list_all_iff cond_value_append)

lemma cond_bound_mono: "cond_bound k c \<Longrightarrow> k \<le> l \<Longrightarrow> cond_bound l c"
  by (cases c) auto

lemma wb_and_ok: "wb_ok wb \<Longrightarrow> (\<And>n. 1 \<le> n \<Longrightarrow> cond_bound n (c n)) \<Longrightarrow> wb_ok (wb_and c v wb)"
  by (auto simp: wb_ok_def wb_and_def Let_def list_all_iff intro: cond_bound_mono)

definition wb_holds :: "ext \<Rightarrow> whereBuilder \<Rightarrow> (column \<Rightarrow> sql_val) \<Rightarrow> bool" where
  "wb_holds x wb col = where_holds x (wb_args wb) (clause wb) col"

lemma wb_holds_and:
  assumes "wb_ok wb"
  shows "wb_holds x (wb_and c v wb) col \<longleftrightarrow>
     wb_holds x wb col \<and> cond_value x (wb_args wb @ [v]) col (c (Suc (length (wb_args wb)))) = Some True"
  using assms where_holds_append [of "wb_args wb" "clause wb" x "[v]" col]
  by (auto simp: wb_holds_def wb_and_def Let_def wb_ok_def where_holds_def)

lemma sql_eq_True [simp]: "sql_eq a (VText s) = Some True \<longleftrightarrow> a = VText s"
  by (auto simp: sql_eq_def)

definition filter_spec :: "filterOptions \<Rightarrow> (column \<Rightarrow> sql_val) \<Rightarrow> bool" where
  "filter_spec opts col \<longleftrightarrow>
     (f_Topic opts = '''' \<or> col C_topic = VText (f_Topic opts))
     \<and> (f_PartitionKey opts = '''' \<or> col C_partition_key = VText (f_PartitionKey opts))"

lemma applyFilter_ok: "wb_ok wb \<Longrightarrow> wb_ok (applyFilter opts wb)"
  by (auto simp: applyFilter_def Let_def intro!: wb_and_ok)

lemma opt_text_Some [simp]: "opt_text (Some s) = VText s"
  by (simp add: opt_text_def)

lemma applyFilter_holds:
  assumes "wb_ok wb"
  shows "wb_holds x (applyFilter opts wb) col \<longleftrightarrow> wb_holds x wb col \<and> filter_spec opts col"
  using assms
  by (simp add: applyFilter_def filter_spec_def Let_def wb_holds_and wb_and_ok arg_no_new)

section \<open>Re-queueing\<close>

lemma pending_step: "h_status r = StatusFailed \<Longrightarrow> row_step r (pending_set r)"
  by (rule row_stepI) (auto simp: pending_set_def row_data_def row_ok_def)

lemma pending_set_simps [simp]:
  "h_message_id (pending_set r) = h_message_id r" "h_status (pending_set r) = StatusPending"
  by (simp_all add: pending_set_def)

interpretation retry_one: counted_update "sql_retry_one x mid" "\<lambda>_. failed_key mid" "\<lambda>_. pending_set" for x mid
  by unfold_locales (auto simp: sql_retry_one_def failed_key_def pending_step split: if_splits)

lemma status_text_Failed [simp]: "status_text s = ''FAILED'' \<longleftrightarrow> s = StatusFailed"
  by (cases s) auto

text \<open>What the clause of \<open>RetryFailed\<close> selects.\<close>

definition retry_spec :: "ext \<Rightarrow> retryFailedOptions \<Rightarrow> hot_row \<Rightarrow> bool" where
  "retry_spec x opts r \<longleftrightarrow>
     h_status r = StatusFailed \<and> filter_spec (r_Filter opts) (hot_col r)
     \<and> (case r_Before opts of None \<Rightarrow> True
        | Some t \<Rightarrow> (case h_processed_at r of None \<Rightarrow> False | Some p \<Rightarrow> p \<le> ts_in x t))"

lemma applyFilter_first:
  "wb_args wb = v # vs \<Longrightarrow> \<exists>us. wb_args (applyFilter opts wb) = v # us"
  by (simp add: applyFilter_def wb_and_def Let_def)

lemma retry_failed_where_holds:
  "wb_holds x (retry_failed_where opts) (hot_col r) \<longleftrightarrow> retry_spec x opts r"
proof -
  define wb0 where "wb0 = \<lparr>clause = [Eq_lit C_status ''FAILED''],
    wb_args = [AInt (if r_Limit opts \<le> 0 then 1000 else r_Limit opts)]\<rparr>"
  have ok: "wb_ok wb0" by (simp add: wb0_def wb_ok_def)
  have "wb_holds x wb0 (hot_col r) \<longleftrightarrow> h_status r = StatusFailed"
    by (simp add: wb0_def wb_holds_def where_holds_def)
  then have base: "wb_holds x (applyFilter (r_Filter opts) wb0) (hot_col r)
      \<longleftrightarrow> h_status r = StatusFailed \<and> filter_spec (r_Filter opts) (hot_col r)"
    by (simp add: applyFilter_holds [OF ok])
  show ?thesis
  proof (cases "r_Before opts")
    case None
    then show ?thesis using base by (simp add: retry_failed_where_def retry_spec_def wb0_def [symmetric])
  next
    case (Some t)
    then show ?thesis using base
      by (simp add: retry_failed_where_def retry_spec_def wb0_def [symmetric] wb_holds_and applyFilter_ok ok
          arg_no_new opt_time_def split: option.split)
  qed
qed

lemma wb_args_and: "wb_args (wb_and c v wb) = wb_args wb @ [v]"
  by (simp add: wb_and_def Let_def)

lemma int_arg_first: "wb_args wb = AInt i # us \<Longrightarrow> int_arg (wb_args wb) 1 = i"
  by (simp add: int_arg_def placeholder_def)

lemma retry_failed_limit:
  "int_arg (wb_args (retry_failed_where opts)) 1 = (if r_Limit opts \<le> 0 then 1000 else r_Limit opts)"
proof -
  define wb0 where "wb0 = \<lparr>clause = [Eq_lit C_status ''FAILED''],
    wb_args = [AInt (if r_Limit opts \<le> 0 then 1000 else r_Limit opts)]\<rparr>"
  obtain us where us: "wb_args (applyFilter (r_Filter opts) wb0) = AInt (if r_Limit opts \<le> 0 then 1000 else r_Limit opts) # us"
    using applyFilter_first [of wb0 _ "[]"] by (auto simp: wb0_def)
  show ?thesis
  proof (cases "r_Before opts")
    case None
    then have "retry_failed_where opts = applyFilter (r_Filter opts) wb0"
      by (simp add: retry_failed_where_def wb0_def Let_def)
    then show ?thesis using int_arg_first [OF us] by (simp only:)
  next
    case (Some t)
    then have "wb_args (retry_failed_where opts) = wb_args (applyFilter (r_Filter opts) wb0) @ [ATime t]"
      by (simp add: retry_failed_where_def wb0_def Let_def wb_args_and)
    with us have "wb_args (retry_failed_where opts)
        = AInt (if r_Limit opts \<le> 0 then 1000 else r_Limit opts) # us @ [ATime t]" by (simp only: append.simps)
    then show ?thesis by (rule int_arg_first)
  qed
qed

definition retry_chosen :: "ext \<Rightarrow> retryFailedOptions \<Rightarrow> hot_row list \<Rightarrow> hot_row list" where
  "retry_chosen x opts rs =
     take (nat (if r_Limit opts \<le> 0 then 1000 else r_Limit opts))
       (nulls_last h_processed_at (filter (retry_spec x opts) rs))"

lemma retry_ids_chosen: "retry_ids x (retry_failed_where opts) rs = ids (retry_chosen x opts rs)"
  using retry_failed_where_holds [of x opts]
  unfolding retry_ids_def retry_chosen_def retry_failed_limit wb_holds_def by simp

lemma mset_nulls_last: "mset (nulls_last key rs) = mset rs"
  by (simp add: nulls_last_def)

lemma retry_chosen_sub: "set (retry_chosen x opts rs) \<subseteq> {r \<in> set rs. retry_spec x opts r}"
proof -
  have "set (nulls_last h_processed_at (filter (retry_spec x opts) rs)) = {r \<in> set rs. retry_spec x opts r}"
    using mset_nulls_last [of h_processed_at "filter (retry_spec x opts) rs"]
    by (metis set_filter set_mset_mset)
  then show ?thesis using set_take_subset unfolding retry_chosen_def by fast
qed

text \<open>Selecting by the ids of rows of a table with a primary key selects those rows.\<close>

lemma claim_sel_sub:
  assumes "distinct (ids rs)" and "set sub \<subseteq> set rs" and "r \<in> set rs"
  shows "claim_sel (ids sub) r \<longleftrightarrow> r \<in> set sub"
  using assms row_of_mem [of rs] by (auto simp: claim_sel_def ids_def) (metis option.inject subsetD)

lemma count_claim_sel:
  assumes "distinct (ids rs)" and "set sub \<subseteq> set rs" and "distinct sub"
  shows "count_where (claim_sel (ids sub)) rs = int (length sub)"
proof -
  have "filter (claim_sel (ids sub)) rs = filter (\<lambda>r. r \<in> set sub) rs"
    using claim_sel_sub [OF assms(1,2)] by (metis (mono_tags, lifting) filter_cong)
  moreover have "distinct rs" using assms(1) by (simp add: ids_def distinct_map)
  moreover have "set (filter (\<lambda>r. r \<in> set sub) rs) = set sub" using assms(2) by auto
  ultimately show ?thesis
    using assms(3) by (metis count_where_def distinct_card distinct_filter)
qed

lemma retry_chosen_distinct: "distinct (ids rs) \<Longrightarrow> distinct (retry_chosen x opts rs)"
proof -
  assume "distinct (ids rs)"
  then have "distinct (filter (retry_spec x opts) rs)" by (simp add: ids_def distinct_map)
  then have "distinct (nulls_last h_processed_at (filter (retry_spec x opts) rs))"
    using mset_eq_imp_distinct_iff [OF mset_nulls_last] by blast
  then show ?thesis by (simp add: retry_chosen_def)
qed

lemma sql_retry_failed_Inr:
  assumes "sql_retry_failed x (retry_failed_where opts) locked now t = Inr (n, t')" and "hot_ok (hot t)"
  shows "n = int (length (retry_chosen x opts (hot t)))"
    and "t' = t\<lparr>hot := upd_where (\<lambda>r. r \<in> set (retry_chosen x opts (hot t))) pending_set (hot t)\<rparr>"
proof -
  let ?C = "retry_chosen x opts (hot t)"
  have dist: "distinct (ids (hot t))" using assms(2) by (simp add: hot_ok_def)
  have sub: "set ?C \<subseteq> set (hot t)" using retry_chosen_sub [of x opts "hot t"] by blast
  have eq: "n = count_where (claim_sel (ids ?C)) (hot t)"
    "t' = t\<lparr>hot := upd_where (claim_sel (ids ?C)) pending_set (hot t)\<rparr>"
    using assms(1) by (auto simp: sql_retry_failed_def retry_ids_chosen Let_def split: if_splits)
  show "n = int (length ?C)"
    using eq(1) count_claim_sel [OF dist sub retry_chosen_distinct [OF dist]] by simp
  show "t' = t\<lparr>hot := upd_where (\<lambda>r. r \<in> set ?C) pending_set (hot t)\<rparr>"
    using eq(2) claim_sel_sub [OF dist sub] by (simp add: upd_where_def)
qed

interpretation retry_failed: sound_stmt "sql_retry_failed x (retry_failed_where opts)" "{Move}" for x opts
proof
  fix t locked now t' and n :: int
  assume "tables_ok t" "sql_retry_failed x (retry_failed_where opts) locked now t = Inr (n, t')"
  then have "t' = t\<lparr>hot := upd_where (\<lambda>r. r \<in> set (retry_chosen x opts (hot t))) pending_set (hot t)\<rparr>"
    using sql_retry_failed_Inr(2) by (simp add: tables_ok_def)
  then show "runs {Move} t t'"
    using Move_upd_where [of t "\<lambda>r. r \<in> set (retry_chosen x opts (hot t))" pending_set]
      retry_chosen_sub [of x opts "hot t"] by (auto simp: retry_spec_def intro: pending_step)
qed

lemma RetryFailed_runs:
  "RetryFailed x opts w = (res, w') \<Longrightarrow> tables_ok (tabs w) \<Longrightarrow> runs {Move} (tabs w) (tabs w')"
  using retry_failed.exec_runs [of x DB x opts w]
  by (auto simp: RetryFailed_def split: prod.splits sum.splits)

lemma RetryFailed_Inr:
  assumes "RetryFailed x opts w = (Inr n, w')" and "tables_ok (tabs w)"
  shows "n = int (length (retry_chosen x opts (hot (tabs w))))"
    and "tabs w' = (tabs w)\<lparr>hot := upd_where (\<lambda>r. r \<in> set (retry_chosen x opts (hot (tabs w)))) pending_set (hot (tabs w))\<rparr>"
proof -
  have ex: "exec x DB (sql_retry_failed x (retry_failed_where opts)) w = (Inr n, w')"
    using assms(1) by (auto simp: RetryFailed_def split: prod.splits sum.splits)
  then obtain locked now where
    st: "sql_retry_failed x (retry_failed_where opts) locked now (tabs w) = Inr (n, tabs w')"
    using exec_Inr(1) [OF ex] by blast
  show "n = int (length (retry_chosen x opts (hot (tabs w))))"
    "tabs w' = (tabs w)\<lparr>hot := upd_where (\<lambda>r. r \<in> set (retry_chosen x opts (hot (tabs w)))) pending_set (hot (tabs w))\<rparr>"
    using sql_retry_failed_Inr [OF st] assms(2) by (auto simp: tables_ok_def)
qed

section \<open>The loop of RetryAllFailed\<close>

definition failed_count :: "world \<Rightarrow> nat" where
  "failed_count w = length (filter (\<lambda>r. h_status r = StatusFailed) (hot (tabs w)))"

lemma requeue_fewer:
  assumes "r \<in> set rs" "P r" "\<forall>r \<in> set rs. P r \<longrightarrow> h_status r = StatusFailed"
  shows "length (filter (\<lambda>r. h_status r = StatusFailed) (upd_where P pending_set rs))
    < length (filter (\<lambda>r. h_status r = StatusFailed) rs)"
proof -
  have "length (filter (\<lambda>r. h_status r = StatusFailed) (upd_where P pending_set rs))
      = length (filter (\<lambda>r. \<not> P r) (filter (\<lambda>r. h_status r = StatusFailed) rs))" for rs
    by (induction rs) (auto simp: upd_where_def)
  moreover have "length (filter (\<lambda>r. \<not> P r) (filter (\<lambda>r. h_status r = StatusFailed) rs))
      < length (filter (\<lambda>r. h_status r = StatusFailed) rs)"
    using assms by (intro length_filter_less [of r]) auto
  ultimately show ?thesis by simp
qed

lemma retry_chosen_all:
  assumes "length (retry_chosen x opts rs) < nat (if r_Limit opts \<le> 0 then 1000 else r_Limit opts)"
  shows "set (retry_chosen x opts rs) = {r \<in> set rs. retry_spec x opts r}"
proof -
  let ?all = "nulls_last h_processed_at (filter (retry_spec x opts) rs)"
  have "retry_chosen x opts rs = ?all"
    using assms by (simp add: retry_chosen_def min_def split: if_splits)
  then show ?thesis using mset_nulls_last [of h_processed_at "filter (retry_spec x opts) rs"]
    by (metis set_filter set_mset_mset)
qed

lemma retry_spec_pending: "\<not> retry_spec x opts (pending_set r)"
  by (simp add: retry_spec_def)

text \<open>The options of the inner call, for a batch size already defaulted.\<close>

definition drain_opts :: "filterOptions \<Rightarrow> int \<Rightarrow> int \<Rightarrow> retryFailedOptions" where
  "drain_opts f cutoff b = \<lparr>r_Filter = f, r_Before = Some cutoff, r_Limit = (if b \<le> 0 then 500 else b)\<rparr>"

lemma drain_opts_limit: "0 < r_Limit (drain_opts f c b)" "r_Limit (drain_opts f c b) = (if b \<le> 0 then 500 else b)"
  by (simp_all add: drain_opts_def)

interpretation retry_all: draining "RetryFailed x (drain_opts f c b)" "if b \<le> 0 then 500 else b" failed_count
    "\<lambda>w. list_all (\<lambda>r. \<not> retry_spec x (drain_opts f c b) r) (hot (tabs w))" "{Move}" for x f c b
proof
  let ?o = "drain_opts f c b"
  fix w n w'
  assume rf: "RetryFailed x ?o w = (Inr n, w')" and ok: "tables_ok (tabs w)"
  let ?C = "retry_chosen x ?o (hot (tabs w))"
  note eff = RetryFailed_Inr [OF rf ok]
  note sub = retry_chosen_sub [of x ?o "hot (tabs w)"]
  show "failed_count w' < failed_count w" if "(if b \<le> 0 then 500 else b) \<le> n"
  proof -
    have "?C \<noteq> []" using that eff(1) by (auto split: if_splits)
    then obtain r where "r \<in> set ?C" by (meson last_in_set)
    then show ?thesis
      using sub requeue_fewer [of r "hot (tabs w)" "\<lambda>r. r \<in> set ?C"]
      by (auto simp: failed_count_def eff(2) retry_spec_def)
  qed
  show "list_all (\<lambda>r. \<not> retry_spec x ?o r) (hot (tabs w'))" if "n < (if b \<le> 0 then 500 else b)"
  proof -
    have "length ?C < nat (if r_Limit ?o \<le> 0 then 1000 else r_Limit ?o)"
      using that eff(1) drain_opts_limit [of f c b] by (auto split: if_splits)
    from retry_chosen_all [OF this] show ?thesis
      by (auto simp: eff(2) list_all_iff upd_where_def retry_spec_pending)
  qed
next
  fix w res w'
  assume "RetryFailed x (drain_opts f c b) w = (res, w')" "tables_ok (tabs w)"
  then show "runs {Move} (tabs w) (tabs w')" by (rule RetryFailed_runs)
qed

lemma RetryAllFailed_drain:
  "RetryAllFailed x opts w
     = drain (RetryFailed x (drain_opts (ra_Filter opts) (app_now w) (ra_BatchSize opts)))
         (if ra_BatchSize opts \<le> 0 then 500 else ra_BatchSize opts) 0 w"
  by (simp add: RetryAllFailed_def drain_opts_def Let_def)

section \<open>Deduplication queries\<close>

interpretation remove_dedup: sound_stmt "sql_remove_dedup x mid" "{Del_dedup}" for x mid
proof
  fix t locked now t' and n :: int
  assume "sql_remove_dedup x mid locked now t = Inr (n, t')"
  then show "runs {Del_dedup} t t'"
    by (auto simp: sql_remove_dedup_def split: if_splits intro!: runs_step table_step.Del_dedup)
qed

lemma RemoveDedup_runs:
  "RemoveDedup x mid w = (res, w') \<Longrightarrow> tables_ok (tabs w) \<Longrightarrow> runs {Del_dedup} (tabs w) (tabs w')"
  using remove_dedup.exec_runs [of x DB x mid w]
  by (auto simp: RemoveDedup_def split: prod.splits sum.splits)

lemma RetryOne_runs:
  "RetryOne x mid w = (res, w') \<Longrightarrow> tables_ok (tabs w) \<Longrightarrow> runs {Move} (tabs w) (tabs w')"
  using retry_one.exec_runs [of x DB x mid w]
  by (auto simp: RetryOne_def split: prod.splits sum.splits)

section \<open>Queries change nothing\<close>

interpretation count_by_status: sound_query "sql_count_by_status x wb" "{}" for x wb
  by unfold_locales (auto simp: sql_count_by_status_def Let_def split: if_splits)

interpretation list_hot: sound_query "sql_list_hot x wb a b" "{}" for x wb a b
  by unfold_locales (auto simp: sql_list_hot_def split: if_splits)

interpretation find_hot: sound_query "sql_find_hot x mid" "{}" for x mid
  by unfold_locales (auto simp: sql_find_hot_def split: if_splits)

interpretation list_archive: sound_query "sql_list_archive x wb a b" "{}" for x wb a b
  by unfold_locales (auto simp: sql_list_archive_def split: if_splits)

interpretation is_duplicate: sound_stmt "sql_is_duplicate x mid" "{}" for x mid
  by unfold_locales (auto simp: sql_is_duplicate_def split: if_splits)

lemma runs_empty: "runs {} t t' \<longleftrightarrow> t' = t"
proof
  assume "runs {} t t'"
  then show "t' = t" by (rule runs_invariant [where I = "\<lambda>u. u = t"]) auto
qed simp

lemma read_only:
  "GetMetrics x f w = (r1, w') \<Longrightarrow> tables_ok (tabs w) \<Longrightarrow> tabs w' = tabs w"
  "listByStatus x s st f p w = (r2, w') \<Longrightarrow> tables_ok (tabs w) \<Longrightarrow> tabs w' = tabs w"
  "FindByMessageID x s mid w = (r3, w') \<Longrightarrow> tables_ok (tabs w) \<Longrightarrow> tabs w' = tabs w"
  "ListArchived x s la p w = (r4, w') \<Longrightarrow> tables_ok (tabs w) \<Longrightarrow> tabs w' = tabs w"
  "IsDuplicate x mid w = (r5, w') \<Longrightarrow> tables_ok (tabs w) \<Longrightarrow> tabs w' = tabs w"
  by (auto simp: GetMetrics_def listByStatus_def FindByMessageID_def ListArchived_def IsDuplicate_def Let_def
      query_hot query_archive split: prod.splits sum.splits list.splits
      dest!: count_by_status.query_runs list_hot.query_runs find_hot.query_runs list_archive.query_runs
        is_duplicate.exec_runs simp: runs_empty)

section \<open>Counting\<close>

text \<open>The number of rows with a status among those that satisfy the filter.\<close>

definition status_count :: "filterOptions \<Rightarrow> status \<Rightarrow> hot_row list \<Rightarrow> int" where
  "status_count f st rs = count_where (\<lambda>r. h_status r = st \<and> filter_spec f (hot_col r)) rs"

fun get_count :: "messageCountByStatus \<Rightarrow> status \<Rightarrow> int" where
  "get_count out StatusPending = mc_Pending out"
| "get_count out StatusProcessing = mc_Processing out"
| "get_count out StatusRetry = mc_Retry out"
| "get_count out StatusFailed = mc_Failed out"

lemma status_text_inj [simp]: "status_text a = status_text b \<longleftrightarrow> a = b"
  by (cases a; cases b) simp_all

lemma get_set_count: "get_count (set_count (status_text st) n out) st' = (if st' = st then n else get_count out st')"
  by (cases st; cases st') (simp_all add: set_count_def)

lemma scan_counts_unbroken: "scan_counts tx vs rowsErr out = (out', None) \<Longrightarrow> rowsErr = None"
  by (induction vs arbitrary: out) (auto split: option.splits)

lemma scan_counts_rows:
  "distinct sts \<Longrightarrow> scan_counts tx (map (count_row rs) sts) rowsErr out = (out', e) \<Longrightarrow>
     e = rowsErr \<and> get_count out' st =
       (if st \<in> set sts then count_where (\<lambda>r. h_status r = st) rs else get_count out st)"
  by (induction sts arbitrary: out) (auto simp: count_row_def rows_Scan_def get_set_count)

lemma get_no_counts [simp]: "get_count no_counts st = 0"
  by (cases st) (simp_all add: no_counts_def)

lemma GetMetrics_counts:
  assumes "GetMetrics x f w = ((out, None), w')"
  shows "get_count out st = status_count f st (hot (tabs w))"
proof -
  let ?wb = "applyFilter f \<lparr>clause = [Always], wb_args = []\<rparr>"
  let ?rs = "filter (\<lambda>r. filter_spec f (hot_col r)) (hot (tabs w))"
  obtain rows e where q: "query x DB (sql_count_by_status x ?wb) w = (Inr (rows, e), w')"
    and out: "scan_counts (gtexts x) rows e no_counts = (out, None)"
    using assms by (auto simp: GetMetrics_def split: prod.splits sum.splits)
  have "wb_holds x ?wb col \<longleftrightarrow> filter_spec f col" for col
    by (subst applyFilter_holds) (auto simp: wb_ok_def wb_holds_def where_holds_def)
  then have rows: "rows = map (count_row ?rs) (remdups (map h_status ?rs))"
    using exec_Inr(1) [OF query_complete [OF q [unfolded scan_counts_unbroken [OF out]]]]
    by (auto simp: sql_count_by_status_def Let_def wb_holds_def split: if_splits)
  have zero: "count_where (\<lambda>r. h_status r = st) ?rs = 0" if "st \<notin> h_status ` set ?rs"
    using that by (auto simp: count_where_def filter_empty_conv)
  have "get_count out st = count_where (\<lambda>r. h_status r = st) ?rs"
    using scan_counts_rows [OF _ out [unfolded rows], of st] zero by auto
  also have "\<dots> = status_count f st (hot (tabs w))"
    by (simp add: status_count_def count_where_def conj_commute)
  finally show ?thesis .
qed

end
