(* ===== verification/Admin_Properties.thy ===== *)
theory Admin_Properties
  imports Admin_Facts Samples
begin

text \<open>
  The properties of \<^verbatim>\<open>messaging_admin.go\<close>: re-queueing of failed messages, listing, counting, and the
  deduplication queries.
\<close>

section \<open>Re-queueing\<close>

text \<open>
  (C22) \<open>RetryFailed\<close>: the \<open>WHERE\<close> clause that the builder assembles, with its numbered arguments, selects
  exactly the \<open>FAILED\<close> rows of the given topic and partition key that failed not after the cutoff;
  the first \<open>limit\<close> of them, oldest failure first, become \<open>PENDING\<close> with a fresh budget, all other
  rows and tables are unchanged, and the result is their number.
\<close>

theorem RetryFailed_exact:
  assumes "RetryFailed x opts w = (Inr n, w')" and "tables_ok (tabs w)"
  shows "\<exists>chosen. chosen = take (nat (if r_Limit opts \<le> 0 then 1000 else r_Limit opts))
          (nulls_last h_processed_at (filter (retry_spec x opts) (hot (tabs w))))
     \<and> n = int (length chosen)
     \<and> tabs w' = (tabs w)\<lparr>hot := map (\<lambda>r. if r \<in> set chosen then pending_set r else r) (hot (tabs w))\<rparr>"
  using RetryFailed_Inr [OF assms] by (simp add: retry_chosen_def upd_where_def)

definition no_filter :: filterOptions where
  "no_filter = \<lparr>f_Topic = '''', f_PartitionKey = ''''\<rparr>"

definition one_failed :: world where
  "one_failed = world0 (tabs0 [failed_row ''a'' 50, msg_row ''b'' 20])"

lemma one_failed_ok: "tables_ok (tabs one_failed)"
  by (simp add: one_failed_def eval_ok)

definition retry_orders :: retryFailedOptions where
  "retry_orders = \<lparr>r_Filter = \<lparr>f_Topic = ''orders'', f_PartitionKey = ''''\<rparr>, r_Before = Some 60, r_Limit = 0\<rparr>"

lemmas eval_admin = sql_retry_failed_def retry_failed_where_def applyFilter_def wb_and_def no_filter_def one_failed_def
  retry_orders_def int_arg_def placeholder_def arg_no_def where_holds_def sql_eq_def opt_text_def opt_time_def retry_ids_def nulls_last_def
  pending_set_def PageOptions_withDefaults_def page_of_def eval_simps

theorem RetryFailed_exact_witness:
  "\<exists>w' chosen. RetryFailed pg retry_orders one_failed = (Inr 1, w') \<and> length chosen = 1
     \<and> tabs w' = (tabs one_failed)\<lparr>hot := map (\<lambda>r. if r \<in> set chosen then pending_set r else r) (hot (tabs one_failed))\<rparr>"
proof -
  have "\<exists>n w'. RetryFailed pg retry_orders one_failed = (Inr n, w') \<and> n = 1"
    by (simp add: RetryFailed_def eval_admin)
  then obtain w' where r: "RetryFailed pg retry_orders one_failed = (Inr 1, w')" by blast
  obtain chosen where "1 = int (length chosen)"
    "tabs w' = (tabs one_failed)\<lparr>hot := map (\<lambda>r. if r \<in> set chosen then pending_set r else r) (hot (tabs one_failed))\<rparr>"
    using RetryFailed_exact [OF r one_failed_ok] by blast
  with r show ?thesis by (intro exI [of _ w'] exI [of _ chosen]) simp
qed



lemma row_of_requeued:
  "row_of (upd_where (failed_key mid) pending_set rs) i
     = map_option (\<lambda>r. if failed_key mid r then pending_set r else r) (row_of rs i)"
  by (induction rs) (auto simp: row_of_def upd_where_def)

lemma requeue_other: "i \<noteq> mid \<Longrightarrow> row_of (upd_where (failed_key mid) pending_set rs) i = row_of rs i"
  using row_of_Some [of rs i] by (cases "row_of rs i") (auto simp: row_of_requeued failed_key_def)

lemma requeue_found:
  assumes "distinct (ids rs)" and "count_where (failed_key mid) rs \<noteq> 0"
  shows "\<exists>r. row_of rs mid = Some r \<and> h_status r = StatusFailed
    \<and> row_of (upd_where (failed_key mid) pending_set rs) mid = Some (pending_set r)"
proof -
  have count: "count_where (failed_key mid) rs = (case row_of rs mid of None \<Rightarrow> 0 | Some r \<Rightarrow> if failed_key mid r then 1 else 0)"
    by (rule count_where_key [OF assms(1)]) (simp add: failed_key_def)
  then obtain r where r: "row_of rs mid = Some r" using assms(2) by (cases "row_of rs mid") auto
  then have "failed_key mid r" using assms(2) unfolding count by (simp split: if_splits)
  with r show ?thesis by (simp add: row_of_requeued) (simp add: failed_key_def)
qed

lemma requeue_none:
  assumes "count_where (failed_key mid) rs = 0"
  shows "upd_where (failed_key mid) pending_set rs = rs" and "row_of rs mid = Some r \<Longrightarrow> h_status r \<noteq> StatusFailed"
proof -
  have none: "\<not> failed_key mid r" if "r \<in> set rs" for r
    using assms that by (auto simp: count_where_def filter_empty_conv)
  then show "upd_where (failed_key mid) pending_set rs = rs" by (simp add: upd_where_def map_idI)
  show "h_status r \<noteq> StatusFailed" if "row_of rs mid = Some r"
    using none [of r] row_of_Some [OF that] by (simp add: failed_key_def)
qed

text \<open>
  (C24) \<open>RetryOne\<close> without an error re-queues exactly the named message, which was \<open>FAILED\<close>; it answers
  \<open>ErrNotFound\<close> exactly when the statement succeeded and there is no such \<open>FAILED\<close> row, and then nothing
  has changed.
\<close>

theorem RetryOne_exact:
  assumes "RetryOne x mid w = (res, w')" and "tables_ok (tabs w)"
  shows "(res = None \<longrightarrow> (\<exists>r. row_of (hot (tabs w)) mid = Some r \<and> h_status r = StatusFailed
            \<and> row_of (hot (tabs w')) mid = Some (pending_set r)))
     \<and> (res = Some ErrNotFound \<longrightarrow> tabs w' = tabs w \<and> (\<forall>r. row_of (hot (tabs w)) mid = Some r \<longrightarrow> h_status r \<noteq> StatusFailed))
     \<and> (\<forall>other. other \<noteq> mid \<longrightarrow> row_of (hot (tabs w')) other = row_of (hot (tabs w)) other)"
proof -
  have dist: "distinct (ids (hot (tabs w)))" using assms(2) by (simp add: tables_ok_def hot_ok_def)
  obtain r where ex: "exec x DB (sql_retry_one x mid) w = (r, w')"
    and res: "res = (case r of Inl e \<Rightarrow> Some (Wrap ''message: retry one'' e) | Inr n \<Rightarrow> if n = 0 then Some ErrNotFound else None)"
    using assms(1) by (auto simp: RetryOne_def split: prod.splits sum.splits)
  note rows = requeue_found [OF dist, of mid] requeue_none [of mid "hot (tabs w)"] requeue_other
  from ex show ?thesis
  proof (cases rule: retry_one.exec_cases)
    case (unchanged e)
    then show ?thesis using res by simp
  next
    case (unacknowledged e)
    then show ?thesis using res by (simp add: requeue_other)
  next
    case applied
    then show ?thesis using res rows by (cases "count_where (failed_key mid) (hot (tabs w)) = 0") auto
  qed
qed

theorem RetryOne_exact_witness:
  "\<exists>w' r. RetryOne pg ''a'' one_failed = (None, w') \<and> row_of (hot (tabs w')) ''a'' = Some (pending_set r)"
proof -
  have "\<exists>w'. RetryOne pg ''a'' one_failed = (None, w')"
    by (simp add: RetryOne_def sql_retry_one_def failed_key_def eval_admin)
  then obtain w' where r: "RetryOne pg ''a'' one_failed = (None, w')" ..
  from RetryOne_exact [OF r one_failed_ok] r show ?thesis by blast
qed


section \<open>Listing and counting\<close>

lemma page_args:
  "int_arg (args @ [AInt l, AInt o']) (Suc (length args)) = l"
  "int_arg (args @ [AInt l, AInt o']) (Suc (Suc (length args))) = o'"
  by (simp_all add: int_arg_def placeholder_def nth_append)

lemma list_where_holds:
  "wb_holds x (applyFilter f \<lparr>clause = [Eq_arg C_status 1], wb_args = [AText (Some (status_text st))]\<rparr>) (hot_col r)
     \<longleftrightarrow> h_status r = st \<and> filter_spec f (hot_col r)"
  by (subst applyFilter_holds) (simp_all add: wb_ok_def wb_holds_def where_holds_def arg_no_def placeholder_def)

text \<open>
  (C25) \<open>listByStatus\<close> (\<open>ListFailed\<close>, \<open>ListPending\<close>): although limit and offset are appended after a varying
  number of filter arguments, the page that is returned is that of the rows with the status that
  satisfy the filter, oldest first; and no table is changed.
\<close>

theorem listByStatus_page:
  assumes "listByStatus x s st f page w = (Inr ms, w')" and "tables_ok (tabs w)"
  shows "ms = map (\<lambda>r. hydrateSafe (gtexts x) s (row_message r))
       (take (nat (Limit (PageOptions_withDefaults page))) (drop (nat (Offset page))
         (sort_key h_created_at (filter (\<lambda>r. h_status r = st \<and> filter_spec f (hot_col r)) (hot (tabs w))))))
     \<and> tabs w' = tabs w"
proof -
  define wb where "wb = applyFilter f \<lparr>clause = [Eq_arg C_status 1], wb_args = [AText (Some (status_text st))]\<rparr>"
  define args where "args = wb_args wb @ [AInt (Limit (PageOptions_withDefaults page)), AInt (Offset (PageOptions_withDefaults page))]"
  have off: "Offset (PageOptions_withDefaults page) = Offset page" by (simp add: PageOptions_withDefaults_def)
  have len: "length args - 1 = length (wb_args wb) + 1" "length args = length (wb_args wb) + 2" by (simp_all add: args_def)
  obtain rows where q: "query x DB (sql_list_hot x (wb\<lparr>wb_args := args\<rparr>) (length args - 1) (length args)) w = (Inr (rows, None), w')"
    and ms: "ms = map (\<lambda>r. hydrateSafe (gtexts x) s (row_message r)) rows"
    using assms(1)
    by (auto simp: listByStatus_def Let_def wb_def args_def query_hot scanMessagesSafe_hot split: prod.splits sum.splits option.splits)
  have ok: "wb_ok wb" unfolding wb_def by (rule applyFilter_ok) (simp add: wb_ok_def)
  have "where_holds x args (clause wb) (hot_col r) = wb_holds x wb (hot_col r)" for r
    using where_holds_append ok by (simp add: args_def wb_holds_def wb_ok_def)
  then have "where_holds x args (clause wb) (hot_col r) \<longleftrightarrow> h_status r = st \<and> filter_spec f (hot_col r)" for r
    unfolding wb_def list_where_holds .
  moreover obtain locked now where
    "sql_list_hot x (wb\<lparr>wb_args := args\<rparr>) (length args - 1) (length args) locked now (tabs w) = Inr (rows, tabs w')"
    using exec_Inr(1) [OF query_complete [OF q]] by blast
  ultimately have "rows = take (nat (Limit (PageOptions_withDefaults page))) (drop (nat (Offset page))
      (sort_key h_created_at (filter (\<lambda>r. h_status r = st \<and> filter_spec f (hot_col r)) (hot (tabs w)))))"
    unfolding len by (auto simp: sql_list_hot_def page_of_def args_def page_args off split: if_splits)
  then show ?thesis using ms read_only(2) [OF assms] by simp
qed

definition page0 :: pageOptions where
  "page0 = \<lparr>Limit = 0, Offset = 0\<rparr>"

theorem listByStatus_page_witness:
  "\<exists>ms w'. listByStatus pg store0 StatusFailed no_filter page0 one_failed = (Inr ms, w')
     \<and> ms = [hydrateSafe (gtexts pg) store0 (row_message (failed_row ''a'' 50))]"
proof -
  have "\<exists>ms w'. listByStatus pg store0 StatusFailed no_filter page0 one_failed = (Inr ms, w')"
    by (simp add: listByStatus_def sql_list_hot_def page0_def scanMessagesSafe_hot eval_admin)
  then obtain ms w' where l: "listByStatus pg store0 StatusFailed no_filter page0 one_failed = (Inr ms, w')" by blast
  from listByStatus_page [OF l one_failed_ok] l show ?thesis
    by (simp add: one_failed_def no_filter_def filter_spec_def page0_def PageOptions_withDefaults_def world0_def tabs0_def
        failed_row_def failed_set_def msg_row_def pending_row_def)
qed

text \<open>\<open>FindByMessageID\<close> returns the row of that key, hydrated as far as possible, or nil.\<close>

theorem FindByMessageID_exact:
  assumes "FindByMessageID x s mid w = (Inr res, w')" and "tables_ok (tabs w)"
  shows "res = map_option (\<lambda>r. hydrateSafe (gtexts x) s (row_message r)) (row_of (hot (tabs w)) mid) \<and> tabs w' = tabs w"
proof -
  let ?h = "\<lambda>r. hydrateSafe (gtexts x) s (row_message r)"
  have dist: "distinct (ids (hot (tabs w)))" using assms(2) by (simp add: tables_ok_def hot_ok_def)
  obtain rows where q: "query x DB (sql_find_hot x mid) w = (Inr (rows, None), w')"
    and res: "res = (case rows of [] \<Rightarrow> None | r # _ \<Rightarrow> Some (?h r))"
    using assms(1)
    by (auto simp: FindByMessageID_def query_hot scanMessagesSafe_hot split: prod.splits sum.splits option.splits list.splits)
  have rows: "rows = filter (\<lambda>r. h_message_id r = mid) (hot (tabs w))"
    using exec_Inr(1) [OF query_complete [OF q]] by (auto simp: sql_find_hot_def split: if_splits)
  have "res = map_option ?h (row_of (hot (tabs w)) mid)"
  proof (cases "row_of (hot (tabs w)) mid")
    case None
    then have "rows = []" by (auto simp: rows filter_empty_conv row_of_None_iff ids_def)
    with None res show ?thesis by simp
  next
    case (Some r)
    with res rows filter_key [OF dist Some] show ?thesis by simp
  qed
  with read_only(3) [OF assms] show ?thesis by simp
qed

text \<open>\<open>ListArchived\<close>: the page of the archive rows with that topic and final status, newest first.\<close>

definition archived_spec :: "listArchivedOptions \<Rightarrow> archive_row \<Rightarrow> bool" where
  "archived_spec la r \<longleftrightarrow>
     (la_Topic la = '''' \<or> a_topic r = la_Topic la) \<and> (la_FinalStatus la = '''' \<or> final_text (a_final_status r) = la_FinalStatus la)"

lemma archived_where_spec:
  "wb_ok (archived_where la)" "wb_holds x (archived_where la) (archive_col r) \<longleftrightarrow> archived_spec la r"
proof -
  define wb1 where "wb1 = (if la_Topic la \<noteq> '''' then wb_and (Eq_arg C_topic) (AText (Some (la_Topic la))) \<lparr>clause = [Always], wb_args = []\<rparr>
    else \<lparr>clause = [Always], wb_args = []\<rparr>)"
  have ok0: "wb_ok \<lparr>clause = [Always], wb_args = []\<rparr>" by (simp add: wb_ok_def)
  then have ok1: "wb_ok wb1" unfolding wb1_def by (auto intro!: wb_and_ok)
  have wb: "archived_where la =
      (if la_FinalStatus la \<noteq> '''' then wb_and (Eq_arg C_final_status) (AText (Some (la_FinalStatus la))) wb1 else wb1)"
    by (simp add: archived_where_def wb1_def Let_def)
  show "wb_ok (archived_where la)" unfolding wb using ok1 by (auto intro!: wb_and_ok)
  have "wb_holds x wb1 (archive_col r) \<longleftrightarrow> la_Topic la = '''' \<or> a_topic r = la_Topic la"
    using ok0 by (simp add: wb1_def wb_holds_and) (simp add: wb_holds_def where_holds_def arg_no_def placeholder_def)
  then show "wb_holds x (archived_where la) (archive_col r) \<longleftrightarrow> archived_spec la r"
    using ok1 by (auto simp: wb wb_holds_and arg_no_new archived_spec_def)
qed

theorem ListArchived_page:
  assumes "ListArchived x s la page w = ((ms, None), w')" and "tables_ok (tabs w)"
  shows "ms = map (\<lambda>r. hydrateArchivedSafe (gtexts x) s (row_archived r))
       (take (nat (Limit (PageOptions_withDefaults page))) (drop (nat (Offset page))
         (sort_key (\<lambda>r. - a_archived_at r) (filter (archived_spec la) (archive (tabs w))))))
     \<and> tabs w' = tabs w"
proof -
  define wb where "wb = archived_where la"
  define args where "args = wb_args wb @ [AInt (Limit (PageOptions_withDefaults page)), AInt (Offset (PageOptions_withDefaults page))]"
  have off: "Offset (PageOptions_withDefaults page) = Offset page" by (simp add: PageOptions_withDefaults_def)
  have len: "length args - 1 = length (wb_args wb) + 1" "length args = length (wb_args wb) + 2" by (simp_all add: args_def)
  let ?st = "sql_list_archive x (wb\<lparr>wb_args := args\<rparr>) (length args - 1) (length args)"
  obtain rows where q: "query x DB ?st w = (Inr (rows, None), w')"
    and ms: "ms = map (\<lambda>r. hydrateArchivedSafe (gtexts x) s (row_archived r)) rows"
    using assms(1)
    by (auto simp: ListArchived_def Let_def wb_def args_def query_archive scanArchivedSafe_archive split: prod.splits sum.splits)
  have ok: "wb_ok wb" and "wb_holds x wb (archive_col r) \<longleftrightarrow> archived_spec la r" for r
    unfolding wb_def by (rule archived_where_spec)+
  moreover have "where_holds x args (clause wb) (archive_col r) = wb_holds x wb (archive_col r)" for r
    using where_holds_append ok by (simp add: args_def wb_holds_def wb_ok_def)
  ultimately have "where_holds x args (clause wb) (archive_col r) \<longleftrightarrow> archived_spec la r" for r by blast
  moreover obtain locked now where "?st locked now (tabs w) = Inr (rows, tabs w')"
    using exec_Inr(1) [OF query_complete [OF q]] by blast
  ultimately have "rows = take (nat (Limit (PageOptions_withDefaults page))) (drop (nat (Offset page))
      (sort_key (\<lambda>r. - a_archived_at r) (filter (archived_spec la) (archive (tabs w)))))"
    unfolding len by (auto simp: sql_list_archive_def page_of_def args_def page_args off split: if_splits)
  then show ?thesis using ms read_only(4) [OF assms] by simp
qed

text \<open>
  (C26) \<open>GetMetrics\<close> counts exactly: every field of its result is the number of rows with that status
  that satisfy the filter, also for a status with no rows.
\<close>

theorem GetMetrics_exact:
  assumes "GetMetrics x f w = ((out, None), w')" and "tables_ok (tabs w)"
  shows "(\<forall>st. get_count out st = int (length (filter (\<lambda>r. h_status r = st \<and> filter_spec f (hot_col r)) (hot (tabs w)))))
     \<and> tabs w' = tabs w"
  using GetMetrics_counts [OF assms(1)] read_only(1) [OF assms] by (simp add: status_count_def count_where_def)

theorem GetMetrics_exact_witness:
  "\<exists>out w'. GetMetrics pg no_filter one_failed = ((out, None), w') \<and> mc_Failed out = 1 \<and> mc_Retry out = 0"
proof -
  have "\<exists>out w'. GetMetrics pg no_filter one_failed = ((out, None), w')"
    by (simp add: GetMetrics_def sql_count_by_status_def count_row_def rows_Scan_def eval_admin)
  then obtain out w' where g: "GetMetrics pg no_filter one_failed = ((out, None), w')" by blast
  note c = GetMetrics_exact [OF g one_failed_ok, THEN conjunct1, rule_format]
  have "get_count out StatusFailed = 1 \<and> get_count out StatusRetry = 0"
    by (simp add: c del: get_count.simps) (simp add: one_failed_def no_filter_def filter_spec_def world0_def tabs0_def failed_row_def failed_set_def msg_row_def pending_row_def)
  with g show ?thesis by simp
qed

section \<open>The deduplication table\<close>

text \<open>
  (C27) The three operations on the deduplication table agree: \<open>IsDuplicate\<close> predicts the answer of a
  \<open>Receive\<close> that follows it, and after \<open>RemoveDedup\<close> a \<open>Receive\<close> of that id says \<open>true\<close>.
\<close>

theorem dedup_queries_agree:
  assumes "IsDuplicate x mid w = (Inr b, w1)" and "RemoveDedup x mid w1 = (Inr removed, w2)"
    and "Receive x m tx msg w1 = (Inr isNew1, msg1, v1)" and "Receive x m tx msg w2 = (Inr isNew2, msg2, v2)"
    and "MessageID msg = mid" and "tables_ok (tabs w)"
  shows "(isNew1 \<longleftrightarrow> \<not> b) \<and> removed = b \<and> isNew2"
proof -
  have t1: "tabs w1 = tabs w" using read_only(5) [OF assms(1,6)] .
  have b: "b \<longleftrightarrow> mid \<in> set (dedup_ids (dedup (tabs w)))"
    using assms(1) by (auto simp: IsDuplicate_def sql_is_duplicate_def split: prod.splits sum.splits if_splits dest!: exec_Inr(1))
  obtain n locked now where st: "sql_remove_dedup x mid locked now (tabs w1) = Inr (n, tabs w2)" and n: "removed \<longleftrightarrow> n > 0"
    using assms(2) by (auto simp: RemoveDedup_def split: prod.splits sum.splits dest!: exec_Inr(1))
  then have d2: "dedup (tabs w2) = filter (\<lambda>d. d_message_id d \<noteq> mid) (dedup (tabs w))"
    and cnt: "n = int (length (filter (\<lambda>d. d_message_id d = mid) (dedup (tabs w))))"
    by (auto simp: sql_remove_dedup_def t1 split: if_splits dest!: sym [of _ "tabs w2"])
  have "mid \<notin> set (dedup_ids (dedup (tabs w2)))" by (auto simp: d2 dedup_ids_def)
  moreover have "removed \<longleftrightarrow> mid \<in> set (dedup_ids (dedup (tabs w)))"
    using n cnt by (auto simp: dedup_ids_def filter_empty_conv)
  moreover obtain ex1 ex2 where
    "receive_run x m (if tx then TX else DB) (default_retries m msg) ex1 w1 = (Inr isNew1, v1)"
    "receive_run x m (if tx then TX else DB) (default_retries m msg) ex2 w2 = (Inr isNew2, v2)"
    using assms(3,4) by (auto simp: Receive_def Let_def split: prod.splits)
  ultimately show ?thesis using receive_run_Inr(1) b t1 assms(5) by fastforce
qed

theorem dedup_queries_agree_witness:
  "\<exists>w1 w2 msg1 v1. IsDuplicate pg ''x'' (world0 (tabs0 [])) = (Inr False, w1) \<and> RemoveDedup pg ''x'' w1 = (Inr False, w2)
     \<and> Receive pg m0 False (new_message ''x'' ''orders'' ''{}'') w2 = (Inr True, msg1, v1)"
proof -
  let ?w = "world0 (tabs0 [])" and ?m = "new_message ''x'' ''orders'' ''{}''"
  have "IsDuplicate pg ''x'' ?w = (Inr False, ?w) \<and> RemoveDedup pg ''x'' ?w = (Inr False, ?w)"
    by (simp add: IsDuplicate_def RemoveDedup_def sql_is_duplicate_def sql_remove_dedup_def dedup_ids_def eval_simps)
  moreover obtain msg1 v1 isNew where r: "Receive pg m0 False ?m ?w = (Inr isNew, msg1, v1)"
    by (simp add: Receive_def receive_run_def default_retries_def insertDedup_def insertHot_def sql_insert_dedup_def
        prepareFields_def hot_args_def new_message_def sql_insert_hot_def placeholder_def hot_row_of_args_def
        opt_varchar_def nullString_def json_marshal_headers_def dedup_ids_def in_int32_def nth_Cons' eval_simps)
  moreover have "tables_ok (tabs ?w)" by (simp add: eval_ok)
  ultimately show ?thesis
    using dedup_queries_agree [of pg "''x''" ?w False ?w False ?w m0 False ?m isNew msg1 v1 isNew msg1 v1]
    by (simp add: new_message_def)
qed

end
