(* ===== verification/Cleanup.thy ===== *)
theory Cleanup
  imports Messaging_Facts Drain
begin

text \<open>
  \<^verbatim>\<open>cleanup.go\<close>: purging in batches, recovery of messages stuck in \<open>PROCESSING\<close>, moving exhausted
  messages from the hot table to the archive, and \<open>RunAll\<close>.
\<close>

section \<open>Purging in batches\<close>

text \<open>
  \<open>DELETE ... WHERE ctid IN (SELECT ctid ... WHERE p LIMIT n)\<close>: the first \<open>n\<close> rows, in the order in
  which they are scanned, that satisfy the predicate.
\<close>

fun delete_first :: "('a \<Rightarrow> bool) \<Rightarrow> nat \<Rightarrow> 'a list \<Rightarrow> 'a list" where
  "delete_first p n [] = []"
| "delete_first p n (r # rs) =
     (if p r \<and> 0 < n then delete_first p (n - 1) rs else r # delete_first p n rs)"

text \<open>
  \<open>st batchSize\<close> is the statement that \<open>purgeBatched\<close> builds from a table and a predicate.
\<close>

definition purgeBatched ::
  "ext \<Rightarrow> string \<Rightarrow> (int \<Rightarrow> int stmt) \<Rightarrow> int \<Rightarrow> world \<Rightarrow> ((int \<times> err option) \<times> world) option" where
  "purgeBatched x table st batchSize w =
     drain (\<lambda>w. case exec x DB (st batchSize) w of
                  (Inl e, w') \<Rightarrow> (Inl (Wrap (''message: purge '' @ table) e), w')
                | (Inr n, w') \<Rightarrow> (Inr n, w'))
       batchSize 0 w"

definition expired :: "int \<Rightarrow> dedup_row \<Rightarrow> bool" where
  "expired now d = (case d_expire_at d of None \<Rightarrow> False | Some t \<Rightarrow> t < now)"

definition sql_purge_dedup :: "int \<Rightarrow> int stmt" where
  "sql_purge_dedup batchSize locked now t =
     (if batchSize < 0 then Inl Neg_limit
      else (let ds = delete_first (expired now) (nat batchSize) (dedup t) in
            Inr (int (length (dedup t)) - int (length ds), t\<lparr>dedup := ds\<rparr>)))"

definition PurgeExpiredDedup :: "ext \<Rightarrow> messaging \<Rightarrow> int \<Rightarrow> world \<Rightarrow> ((int \<times> err option) \<times> world) option" where
  "PurgeExpiredDedup x m batchSize w =
     (let batchSize = (if batchSize \<le> 0 then 1000 else batchSize) in
      purgeBatched x (dedupTbl (m_store m)) sql_purge_dedup batchSize w)"

definition old_archive :: "int \<Rightarrow> int \<Rightarrow> archive_row \<Rightarrow> bool" where
  "old_archive retentionMillis now a \<longleftrightarrow> a_archived_at a < now - retentionMillis * Millisecond"

definition sql_purge_archive :: "ext \<Rightarrow> int \<Rightarrow> int \<Rightarrow> int stmt" where
  "sql_purge_archive x retentionMillis batchSize locked now t =
     (if batchSize < 0 then Inl Neg_limit
      else if \<not> interval_ok x retentionMillis then Inl Int_range
      else (let as = delete_first (old_archive retentionMillis now) (nat batchSize) (archive t) in
            Inr (int (length (archive t)) - int (length as), t\<lparr>archive := as\<rparr>)))"

definition PurgeOldArchive ::
  "ext \<Rightarrow> messaging \<Rightarrow> int \<Rightarrow> int \<Rightarrow> world \<Rightarrow> ((int \<times> err option) \<times> world) option" where
  "PurgeOldArchive x m retentionMillis batchSize w =
     (let batchSize = (if batchSize \<le> 0 then 1000 else batchSize) in
      purgeBatched x (archTbl (m_store m)) (sql_purge_archive x retentionMillis) batchSize w)"

section \<open>Recovery of stuck messages\<close>

definition stuck :: "int \<Rightarrow> int \<Rightarrow> hot_row \<Rightarrow> bool" where
  "stuck timeoutMillis now r \<longleftrightarrow>
     h_status r = StatusProcessing
     \<and> (case h_processing_at r of None \<Rightarrow> False | Some t \<Rightarrow> t < now - timeoutMillis * Millisecond)"

text \<open>All right-hand sides of the \<open>SET\<close> list refer to the row before the update.\<close>

definition recover_set :: "int \<Rightarrow> hot_row \<Rightarrow> hot_row" where
  "recover_set now r =
     (let exhausted = h_retry_count r + 1 > h_max_retry r in
      r\<lparr>h_retry_count := h_retry_count r + 1,
        h_status := if exhausted then StatusFailed else StatusRetry,
        h_last_error := if exhausted then Some ''stuck recovery exhausted'' else h_last_error r,
        h_processed_at := if exhausted then Some now else h_processed_at r,
        h_next_retry_at := if exhausted then h_next_retry_at r else Some now,
        h_processing_by := None, h_processing_at := None\<rparr>)"

text \<open>
  \<open>retry_count + 1\<close> is computed in \<open>INT\<close>; when it overflows for one row the whole statement fails.
  The answer is one row per recovered message.
\<close>

definition sql_recover_stuck :: "ext \<Rightarrow> int \<Rightarrow> hot_row list stmt" where
  "sql_recover_stuck x timeoutMillis locked now t =
     (if \<not> interval_ok x timeoutMillis then Inl Int_range
      else if \<not> list_all (\<lambda>r. stuck timeoutMillis now r \<longrightarrow> in_int32 (h_retry_count r + 1)) (hot t) then Inl Int_range
      else Inr (map (recover_set now) (filter (stuck timeoutMillis now) (hot t)),
                t\<lparr>hot := upd_where (stuck timeoutMillis now) (recover_set now) (hot t)\<rparr>))"

text \<open>The program counts the rows that arrive; the count so far is returned beside an error of the iteration.\<close>

definition RecoverStuck :: "ext \<Rightarrow> messaging \<Rightarrow> world \<Rightarrow> (int \<times> err option) \<times> world" where
  "RecoverStuck x m w =
     (case query x DB (returning hot_values ''message_id'' (sql_recover_stuck x (milliseconds (ClaimTimeout (m_cfg m))))) w of
        (Inl e, w') \<Rightarrow> ((0, Some (Wrap ''message: recover stuck'' e)), w')
      | (Inr (rows, rowsErr), w') \<Rightarrow> ((int (length rows), rowsErr), w'))"

section \<open>Archiving exhausted messages\<close>

definition exhausted :: "int \<Rightarrow> int \<Rightarrow> hot_row \<Rightarrow> bool" where
  "exhausted retentionMillis now r \<longleftrightarrow>
     h_status r = StatusFailed
     \<and> (case h_processed_at r of None \<Rightarrow> False | Some t \<Rightarrow> t < now - retentionMillis * Millisecond)"

definition exhausted_rows :: "string list \<Rightarrow> int \<Rightarrow> int \<Rightarrow> nat \<Rightarrow> hot_row list \<Rightarrow> hot_row list" where
  "exhausted_rows locked retentionMillis now n rs =
     take n (sort_key (\<lambda>r. the (h_processed_at r))
       (filter (\<lambda>r. exhausted retentionMillis now r \<and> h_message_id r \<notin> set locked) rs))"

definition sql_select_exhausted :: "ext \<Rightarrow> int \<Rightarrow> int \<Rightarrow> hot_row list stmt" where
  "sql_select_exhausted x retentionMillis batchSize locked now t =
     (if \<not> interval_ok x retentionMillis then Inl Int_range
      else if batchSize < 0 then Inl Neg_limit
      else Inr (exhausted_rows locked retentionMillis now (nat batchSize) (hot t), t))"

text \<open>The loop over the selected keys.\<close>

fun scan_ids :: "go_texts \<Rightarrow> sql_val list list \<Rightarrow> err option \<Rightarrow> err + string list" where
  "scan_ids tx [] rowsErr = (case rowsErr of None \<Rightarrow> Inr [] | Some e \<Rightarrow> Inl e)"
| "scan_ids tx (v # vs) rowsErr =
     (case rows_Scan tx [DString] v of
        Some e \<Rightarrow> Inl (Wrap ''message: archive exhausted: scan'' e)
      | None \<Rightarrow> (case scan_ids tx vs rowsErr of Inl e \<Rightarrow> Inl e | Inr mids \<Rightarrow> Inr (val_text (v ! 0) # mids)))"

definition ArchiveExhausted :: "ext \<Rightarrow> messaging \<Rightarrow> int \<Rightarrow> world \<Rightarrow> (err + int) \<times> world" where
  "ArchiveExhausted x m batchSize =
     (let batchSize = (if batchSize \<le> 0 then 500 else batchSize) in
      begin_do (Wrap ''message: archive exhausted: begin tx'')
        (\<lambda>saved. tx_query x saved (Wrap ''message: archive exhausted: select'')
           (returning hot_values ''message_id''
              (sql_select_exhausted x (milliseconds (FailedRetention (m_cfg m))) batchSize))
           (\<lambda>rows rowsErr w1.
              case scan_ids (gtexts x) rows rowsErr of
                Inl e \<Rightarrow> (Inl e, rollback_tx saved w1)
              | Inr mids \<Rightarrow>
                  if mids = [] then (Inr 0, rollback_tx saved w1)
                  else tx_do x saved (Wrap ''message: archive exhausted: insert'') (sql_archive_insert x FinalFailed mids)
                    (\<lambda>_. tx_do x saved (Wrap ''message: archive exhausted: delete'') (sql_delete_hot x mids)
                      (\<lambda>_. commit_do x saved (Wrap ''message: archive exhausted: commit'') (int (length mids)))) w1)))"

section \<open>RunAll\<close>

record cleanupResult =
  cr_DedupPurged :: int
  cr_Recovered :: int
  cr_ExhaustedArchived :: int

text \<open>On an error the counts reached so far are returned with it; a failed step counts what it returned.\<close>

definition sum_result :: "err + int \<Rightarrow> int \<times> err option" where
  "sum_result r = (case r of Inl e \<Rightarrow> (0, Some e) | Inr n \<Rightarrow> (n, None))"

definition RunAll :: "ext \<Rightarrow> messaging \<Rightarrow> world \<Rightarrow> ((cleanupResult \<times> err option) \<times> world) option" where
  "RunAll x m w =
     (case PurgeExpiredDedup x m 0 w of
        None \<Rightarrow> None
      | Some ((n1, e1), w1) \<Rightarrow>
          (let res = \<lparr>cr_DedupPurged = n1, cr_Recovered = 0, cr_ExhaustedArchived = 0\<rparr> in
           if e1 \<noteq> None then Some ((res, e1), w1)
           else
             (let ((n2, e2), w2) = RecoverStuck x m w1;
                  res = res\<lparr>cr_Recovered := n2\<rparr> in
              if e2 \<noteq> None then Some ((res, e2), w2)
              else
                (let (r3, w3) = ArchiveExhausted x m 0 w2;
                     (n3, e3) = sum_result r3;
                     res = res\<lparr>cr_ExhaustedArchived := n3\<rparr> in
                 Some ((res, e3), w3)))))"

end
