(* ===== verification/Cleanup_Facts.thy ===== *)
theory Cleanup_Facts
  imports Cleanup Admin_Facts
begin

text \<open>
  Facts on \<^verbatim>\<open>cleanup.go\<close>: the purge loops return and leave nothing expired, recovery follows the life
  cycle and respects the retry budget, archiving exhausted messages is all or nothing, and all of
  it are runs of the atomic changes of the tables.
\<close>

section \<open>Deleting the first matching rows\<close>

lemma delete_first_sub: "set (delete_first p n xs) \<subseteq> set xs"
  by (induction p n xs rule: delete_first.induct) auto

lemma delete_first_filter:
  "distinct xs \<Longrightarrow> delete_first p n xs = filter (\<lambda>x. x \<in> set (delete_first p n xs)) xs"
proof (induction p n xs rule: delete_first.induct)
  case (2 p n r rs)
  have sub: "set (delete_first p k rs) \<subseteq> set rs" for k by (rule delete_first_sub)
  show ?case
  proof (cases "p r \<and> 0 < n")
    case True
    then have "r \<notin> set (delete_first p (n - 1) rs)" using 2(3) sub by auto
    with True 2 show ?thesis by simp
  next
    case False
    have "filter (\<lambda>x. x = r \<or> x \<in> set (delete_first p n rs)) rs = filter (\<lambda>x. x \<in> set (delete_first p n rs)) rs"
      using 2(3) by (intro filter_cong) auto
    with False 2 show ?thesis by (simp only: delete_first.simps) (simp add: if_False)
  qed
qed simp

lemma delete_first_length: "length (delete_first p n xs) + min n (length (filter p xs)) = length xs"
  by (induction p n xs rule: delete_first.induct) (auto simp: min_def split: if_splits)

lemma delete_first_all: "length (filter p xs) \<le> n \<Longrightarrow> delete_first p n xs = filter (\<lambda>x. \<not> p x) xs"
  by (induction p n xs rule: delete_first.induct) auto

text \<open>What a purge statement that deleted fewer rows than it might has left.\<close>

lemma delete_first_partial:
  assumes "length xs - length (delete_first p n xs) < n"
  shows "list_all (\<lambda>x. \<not> p x) (delete_first p n xs)"
proof -
  have "length (filter p xs) \<le> n" using assms delete_first_length [of p n xs] by simp
  then show ?thesis by (simp add: delete_first_all list_all_iff)
qed

section \<open>The purge loops\<close>

lemma Del_dedup_first:
  assumes "tables_ok t"
  shows "runs {Del_dedup} t (t\<lparr>dedup := delete_first p n (dedup t)\<rparr>)"
proof -
  have "distinct (dedup t)" using assms by (simp add: tables_ok_def dedup_ids_def distinct_map)
  then have "delete_first p n (dedup t) = filter (\<lambda>d. d \<in> set (delete_first p n (dedup t))) (dedup t)"
    by (rule delete_first_filter)
  then show ?thesis using table_step.Del_dedup runs_step by (metis insertI1)
qed

lemma Del_archive_first:
  assumes "tables_ok t"
  shows "runs {Del_archive} t (t\<lparr>archive := delete_first p n (archive t)\<rparr>)"
proof -
  have "distinct (archive t)" using assms by (simp add: tables_ok_def archive_ok_def distinct_map)
  then have "delete_first p n (archive t) = filter (\<lambda>d. d \<in> set (delete_first p n (archive t))) (archive t)"
    by (rule delete_first_filter)
  then show ?thesis using table_step.Del_archive runs_step by (metis insertI1)
qed

interpretation purge_dedup_stmt: sound_stmt "sql_purge_dedup b" "{Del_dedup}" for b
  by unfold_locales (auto simp: sql_purge_dedup_def Let_def Del_dedup_first split: if_splits)

interpretation purge_archive_stmt: sound_stmt "sql_purge_archive x ms b" "{Del_archive}" for x ms b
  by unfold_locales (auto simp: sql_purge_archive_def Let_def Del_archive_first split: if_splits)

text \<open>One turn of the loop.\<close>

definition purge_step :: "ext \<Rightarrow> string \<Rightarrow> (int \<Rightarrow> int stmt) \<Rightarrow> int \<Rightarrow> world \<Rightarrow> (err + int) \<times> world" where
  "purge_step x table st b w =
     (case exec x DB (st b) w of
        (Inl e, w') \<Rightarrow> (Inl (Wrap (''message: purge '' @ table) e), w')
      | (Inr n, w') \<Rightarrow> (Inr n, w'))"

lemma purgeBatched_drain: "purgeBatched x table st b w = drain (purge_step x table st b) b 0 w"
  by (simp add: purgeBatched_def purge_step_def [abs_def])

lemma purge_step_Inr:
  "purge_step x table st b w = (Inr n, w') \<Longrightarrow> \<exists>locked. st b locked (db_now w') (tabs w) = Inr (n, tabs w')"
  by (auto simp: purge_step_def split: prod.splits sum.splits dest!: exec_Inr(5))

lemma purge_step_exec:
  "purge_step x table st b w = (res, w') \<Longrightarrow> \<exists>r. exec x DB (st b) w = (r, w')"
  by (auto simp: purge_step_def split: prod.splits sum.splits)

interpretation purge_dedup: draining "purge_step x table sql_purge_dedup (if b \<le> 0 then 1000 else b)"
    "if b \<le> 0 then 1000 else b" "\<lambda>w. length (dedup (tabs w))"
    "\<lambda>w. list_all (\<lambda>d. \<not> expired (db_now w) d) (dedup (tabs w))" "{Del_dedup}" for x table b
proof
  let ?b = "if b \<le> 0 then 1000 else b"
  fix w n w'
  assume "purge_step x table sql_purge_dedup ?b w = (Inr n, w')"
  then obtain locked where "sql_purge_dedup ?b locked (db_now w') (tabs w) = Inr (n, tabs w')"
    using purge_step_Inr by blast
  then have d: "dedup (tabs w') = delete_first (expired (db_now w')) (nat ?b) (dedup (tabs w))"
    and n: "n = int (length (dedup (tabs w))) - int (length (dedup (tabs w')))"
    by (auto simp: sql_purge_dedup_def Let_def split: if_splits dest!: sym [of _ "tabs w'"])
  show "length (dedup (tabs w')) < length (dedup (tabs w))" if "?b \<le> n"
    using that n by (auto split: if_splits)
  show "list_all (\<lambda>d. \<not> expired (db_now w') d) (dedup (tabs w'))" if "n < ?b"
    using that n delete_first_partial [of "dedup (tabs w)" "expired (db_now w')" "nat ?b"] d
    by (auto split: if_splits)
next
  fix w res w'
  assume "purge_step x table sql_purge_dedup (if b \<le> 0 then 1000 else b) w = (res, w')" "tables_ok (tabs w)"
  then show "runs {Del_dedup} (tabs w) (tabs w')"
    using purge_step_exec purge_dedup_stmt.exec_runs by blast
qed

interpretation purge_archive: draining "purge_step x table (sql_purge_archive y ms) (if b \<le> 0 then 1000 else b)"
    "if b \<le> 0 then 1000 else b" "\<lambda>w. length (archive (tabs w))"
    "\<lambda>w. list_all (\<lambda>a. \<not> old_archive ms (db_now w) a) (archive (tabs w))" "{Del_archive}" for x table y ms b
proof
  let ?b = "if b \<le> 0 then 1000 else b"
  fix w n w'
  assume "purge_step x table (sql_purge_archive y ms) ?b w = (Inr n, w')"
  then obtain locked where "sql_purge_archive y ms ?b locked (db_now w') (tabs w) = Inr (n, tabs w')"
    using purge_step_Inr by blast
  then have d: "archive (tabs w') = delete_first (old_archive ms (db_now w')) (nat ?b) (archive (tabs w))"
    and n: "n = int (length (archive (tabs w))) - int (length (archive (tabs w')))"
    by (auto simp: sql_purge_archive_def Let_def split: if_splits dest!: sym [of _ "tabs w'"])
  show "length (archive (tabs w')) < length (archive (tabs w))" if "?b \<le> n"
    using that n by (auto split: if_splits)
  show "list_all (\<lambda>a. \<not> old_archive ms (db_now w') a) (archive (tabs w'))" if "n < ?b"
    using that n delete_first_partial [of "archive (tabs w)" "old_archive ms (db_now w')" "nat ?b"] d
    by (auto split: if_splits)
next
  fix w res w'
  assume "purge_step x table (sql_purge_archive y ms) (if b \<le> 0 then 1000 else b) w = (res, w')" "tables_ok (tabs w)"
  then show "runs {Del_archive} (tabs w) (tabs w')"
    using purge_step_exec purge_archive_stmt.exec_runs by blast
qed

lemma PurgeExpiredDedup_drain:
  "PurgeExpiredDedup x m b w
     = drain (purge_step x (dedupTbl (m_store m)) sql_purge_dedup (if b \<le> 0 then 1000 else b))
         (if b \<le> 0 then 1000 else b) 0 w"
  by (simp add: PurgeExpiredDedup_def purgeBatched_drain Let_def)

lemma PurgeOldArchive_drain:
  "PurgeOldArchive x m ms b w
     = drain (purge_step x (archTbl (m_store m)) (sql_purge_archive x ms) (if b \<le> 0 then 1000 else b))
         (if b \<le> 0 then 1000 else b) 0 w"
  by (simp add: PurgeOldArchive_def purgeBatched_drain Let_def)

section \<open>Recovery\<close>

lemma recover_step: "h_status r = StatusProcessing \<Longrightarrow> row_step r (recover_set now r)"
  by (rule row_stepI; cases "h_retry_count r + 1 > h_max_retry r")
     (auto simp: recover_set_def Let_def row_data_def row_ok_def maxErrorLen_def)

interpretation recover: sound_query "sql_recover_stuck x ms" "{Move}" for x ms
proof
  fix t locked now v t'
  assume "sql_recover_stuck x ms locked now t = Inr (v, t')"
  then have "t' = t\<lparr>hot := upd_where (stuck ms now) (recover_set now) (hot t)\<rparr>"
    by (auto simp: sql_recover_stuck_def split: if_splits)
  then show "runs {Move} t t'"
    using Move_upd_where [of t "stuck ms now" "recover_set now"] recover_step by (simp add: stuck_def)
qed

lemma RecoverStuck_runs:
  "RecoverStuck x m w = (res, w') \<Longrightarrow> tables_ok (tabs w) \<Longrightarrow> runs {Move} (tabs w) (tabs w')"
  using recover.query_runs by (auto simp: RecoverStuck_def query_key split: prod.splits sum.splits)

text \<open>Without an error all of the rows were counted; with one, the update happened or it did not.\<close>

lemma RecoverStuck_effect:
  assumes "RecoverStuck x m w = ((n, e), w')"
  defines "ms \<equiv> milliseconds (ClaimTimeout (m_cfg m))"
  shows "e = None \<Longrightarrow> n = count_where (stuck ms (db_now w')) (hot (tabs w))"
    and "tabs w' = tabs w \<and> e \<noteq> None
       \<or> tabs w' = (tabs w)\<lparr>hot := upd_where (stuck ms (db_now w')) (recover_set (db_now w')) (hot (tabs w))\<rparr>"
proof -
  let ?st = "sql_recover_stuck x ms"
  have st: "rows = map (recover_set now) (filter (stuck ms now) (hot t))
      \<and> t' = t\<lparr>hot := upd_where (stuck ms now) (recover_set now) (hot t)\<rparr>"
    if "?st locked now t = Inr (rows, t')" for locked now rows t t'
    using that by (auto simp: sql_recover_stuck_def split: if_splits)
  obtain r where q: "query x DB ?st w = (r, w')"
    and r: "(n, e) = (case r of Inl e \<Rightarrow> (0, Some (Wrap ''message: recover stuck'' e)) | Inr (rows, e) \<Rightarrow> (int (length rows), e))"
    using assms by (auto simp: RecoverStuck_def query_key split: prod.splits sum.splits)
  show "n = count_where (stuck ms (db_now w')) (hot (tabs w))" if none: "e = None"
  proof -
    obtain rows where "query x DB ?st w = (Inr (rows, None), w')" and n: "n = int (length rows)"
      using q r unfolding none by (auto split: sum.splits prod.splits)
    from exec_Inr(5) [OF query_complete [OF this(1)]] show ?thesis by (auto simp: n count_where_def dest: st)
  qed
  show "tabs w' = tabs w \<and> e \<noteq> None
       \<or> tabs w' = (tabs w)\<lparr>hot := upd_where (stuck ms (db_now w')) (recover_set (db_now w')) (hot (tabs w))\<rparr>"
    using query_DB_tabs [OF q] r by (auto dest!: st split: sum.splits prod.splits)
qed

section \<open>Archiving exhausted messages\<close>

lemma archive_rows_archived:
  "list_all (\<lambda>r. h_processed_at r \<noteq> None) rs \<Longrightarrow> list_all2 (archived fs) rs (archive_rows fs now n rs)"
  by (induction rs arbitrary: n) (auto simp: archive_of_archived)

lemma length_archive_rows [simp]: "length (archive_rows fs now n rs) = length rs"
  by (induction rs arbitrary: n) auto

lemma archive_rows_ids: "map a_id (archive_rows fs now n rs) = map (\<lambda>i. n + int i) [0..<length rs]"
proof (induction rs arbitrary: n)
  case (Cons r rs)
  have "map (\<lambda>i. n + 1 + int i) [0..<length rs] = map (\<lambda>i. n + int i) (map Suc [0..<length rs])" by simp
  with Cons show ?case by (simp add: archive_of_eq map_Suc_upt upt_conv_Cons del: upt_Suc)
qed simp

text \<open>The tables after the messages \<open>mids\<close> have been archived as failed.\<close>

definition failed_tables :: "string list \<Rightarrow> int \<Rightarrow> tables \<Rightarrow> tables" where
  "failed_tables mids now t =
     (let rs = filter (claim_sel mids) (hot t) in
      t\<lparr>hot := filter (\<lambda>r. \<not> claim_sel mids r) (hot t),
        archive := archive t @ archive_rows FinalFailed now (arch_seq t) rs,
        arch_seq := arch_seq t + int (length rs)\<rparr>)"

lemma failed_tables_step:
  assumes "hot_ok (hot t)" and "\<And>r. r \<in> set (hot t) \<Longrightarrow> claim_sel mids r \<Longrightarrow> h_status r = StatusFailed"
  shows "table_step Finish t (failed_tables mids now t)"
proof -
  let ?rs = "filter (claim_sel mids) (hot t)"
  have "list_all (\<lambda>r. claim_sel mids r \<longrightarrow> finishes FinalFailed (h_status r)) (hot t)"
    using assms(2) by (simp add: list_all_iff)
  moreover have "list_all (\<lambda>r. h_processed_at r \<noteq> None) ?rs"
    using assms by (auto simp: list_all_iff hot_ok_def row_ok_def)
  then have "list_all2 (archived FinalFailed) ?rs (archive_rows FinalFailed now (arch_seq t) ?rs)"
    by (rule archive_rows_archived)
  moreover have "map a_id (archive_rows FinalFailed now (arch_seq t) ?rs)
      = map (\<lambda>i. arch_seq t + int i) [0..<length (archive_rows FinalFailed now (arch_seq t) ?rs)]"
    by (simp add: archive_rows_ids)
  ultimately show ?thesis
    using table_step.Finish [of "claim_sel mids" FinalFailed t] by (fastforce simp: failed_tables_def Let_def)
qed

lemma exhausted_rows_sub:
  "set (exhausted_rows locked ms now n rs) \<subseteq> {r \<in> set rs. exhausted ms now r \<and> h_message_id r \<notin> set locked}"
  using set_take_subset by (fastforce simp: exhausted_rows_def)

lemma exhausted_rows_distinct: "distinct (ids rs) \<Longrightarrow> distinct (exhausted_rows locked ms now n rs)"
  by (simp add: exhausted_rows_def ids_def distinct_map)

lemma archive_statements:
  assumes "sql_archive_insert x FinalFailed mids l2 n2 t = Inr (u2, t2)"
    and "sql_delete_hot x mids l3 n3 t2 = Inr (u3, t3)"
  shows "t3 = failed_tables mids n2 t"
  using assms by (auto simp: sql_archive_insert_def sql_delete_hot_def failed_tables_def Let_def split: if_splits)

lemma scan_ids_key:
  "scan_ids tx (map (\<lambda>r. [VText (h_message_id r)]) rs) rowsErr =
     (case rowsErr of None \<Rightarrow> Inr (ids rs) | Some e \<Rightarrow> Inl e)"
  by (induction rs) (auto simp: rows_Scan_def ids_def split: option.split)

lemma ArchiveExhausted_cases:
  fixes x :: ext and m :: messaging and b :: int
  assumes run: "ArchiveExhausted x m b w = (res, w')" and ok: "hot_ok (hot (tabs w))"
  defines "rows \<equiv> \<lambda>locked now. exhausted_rows locked (milliseconds (FailedRetention (m_cfg m))) now
      (nat (if b \<le> 0 then 500 else b)) (hot (tabs w))"
  obtains
    (lost) e k where "res = Inl e" "tabs w' = (tabs w)\<lparr>arch_seq := k\<rparr>" "arch_seq (tabs w) \<le> k"
  | (none) locked now where "res = Inr 0" "tabs w' = tabs w" "rows locked now = []"
  | (moved) locked now where "tabs w' = failed_tables (ids (rows locked now)) now (tabs w)"
      "res = Inr (int (length (rows locked now))) \<or> (\<exists>e. res = Inl e)"
proof -
  let ?b = "if b \<le> 0 then 500 else b" and ?ms = "milliseconds (FailedRetention (m_cfg m))"
  have rb: thesis if "res = Inl e" "w' = rollback_tx (tabs w) v" "arch_seq (tabs w) \<le> arch_seq (tabs v)" for e v
    using lost [of e "arch_seq (tabs v)"] that by (simp add: rollback_tx_def)
  from run show thesis unfolding ArchiveExhausted_def Let_def tx_query_key scan_ids_key
  proof (cases rule: begin_do_cases)
    case failed
    then show ?thesis using lost [of _ "arch_seq (tabs w)"] by simp
  next
    case (go w0)
    from go(1) show ?thesis
    proof (cases rule: tx_query_cases)
      case failed
      then show ?thesis using rb go(2) by simp
    next
      case broken
      then show ?thesis using rb go(2) by fastforce
    next
      case s1: (go sel w1 locked)
      let ?R = "rows locked (tx_now w0)"
      define mids where "mids = ids sel"
      have sel: "sel = ?R" and t1: "tabs w1 = tabs w"
        using s1(2) go(2) by (auto simp: sql_select_exhausted_def rows_def split: if_splits)
      then have mids: "mids = ids ?R" by (simp add: mids_def)
      show ?thesis
      proof (cases "mids = []")
        case True
        then have "?R = []" by (simp add: mids ids_def)
        with True s1(1) t1 show ?thesis
          using none [of locked "tx_now w0"] by (auto simp: rollback_tx_def mids_def)
      next
        case False
        with s1(1) have "tx_do x (tabs w) (Wrap ''message: archive exhausted: insert'') (sql_archive_insert x FinalFailed mids)
            (\<lambda>_. tx_do x (tabs w) (Wrap ''message: archive exhausted: delete'') (sql_delete_hot x mids)
              (\<lambda>_. commit_do x (tabs w) (Wrap ''message: archive exhausted: commit'') (int (length mids)))) w1 = (res, w')"
          by (simp add: mids_def)
        then show ?thesis
        proof (cases rule: tx_do_cases)
          case failed
          then show ?thesis using rb t1 by simp
        next
          case s2: (go u2 w2)
          note q2 = seq_statements(2) [OF s2(2)]
          from s2(1) show ?thesis
          proof (cases rule: tx_do_cases)
            case failed
            then show ?thesis using rb q2 t1 by simp
          next
            case s3: (go u3 w3)
            note q3 = seq_statements(3) [OF s3(2)]
            have t3: "tabs w3 = failed_tables (ids ?R) (tx_now w0) (tabs w)"
              using archive_statements [OF s2(2) s3(2)] s1(4) t1 by (simp add: mids)
            from s3(1) show ?thesis
              by (cases rule: commit_do_cases)
                 (use t3 moved [of locked "tx_now w0"] lost q2 q3 t1 mids in \<open>auto simp: ids_def\<close>)
          qed
        qed
      qed
    qed
  qed
qed

lemma exhausted_selected:
  assumes "hot_ok rs" and "r \<in> set rs" and "claim_sel (ids (exhausted_rows locked ms now n rs)) r"
  shows "exhausted ms now r"
proof -
  have "set (exhausted_rows locked ms now n rs) \<subseteq> set rs" using exhausted_rows_sub by fastforce
  then have "r \<in> set (exhausted_rows locked ms now n rs)"
    using assms claim_sel_sub [of rs "exhausted_rows locked ms now n rs" r] by (simp add: hot_ok_def)
  then show ?thesis using exhausted_rows_sub by fastforce
qed

lemma ArchiveExhausted_runs:
  assumes "ArchiveExhausted x m b w = (res, w')" and ok: "tables_ok (tabs w)"
  shows "runs {Finish, Burn_ids} (tabs w) (tabs w')"
proof -
  have hok: "hot_ok (hot (tabs w))" using ok by (simp add: tables_ok_def)
  from assms(1) hok show ?thesis
  proof (cases rule: ArchiveExhausted_cases)
    case (lost e k)
    then show ?thesis by (auto intro!: runs_step [of Burn_ids] table_step.Burn_ids)
  next
    case (none locked now)
    then show ?thesis by simp
  next
    case (moved locked now)
    have "table_step Finish (tabs w) (tabs w')"
      unfolding moved(1) using hok exhausted_selected [OF hok]
      by (intro failed_tables_step) (auto simp: exhausted_def)
    then show ?thesis by (rule runs_step) simp
  qed
qed

section \<open>RunAll\<close>

lemma RunAll_returns:
  assumes "tables_ok (tabs w)"
  shows "\<exists>res e w'. RunAll x m w = Some ((res, e), w') \<and> runs {Del_dedup, Move, Finish, Burn_ids} (tabs w) (tabs w')"
proof -
  let ?A = "{Del_dedup, Move, Finish, Burn_ids}"
  obtain n1 e1 w1 where p: "PurgeExpiredDedup x m 0 w = Some ((n1, e1), w1)" and r1: "runs {Del_dedup} (tabs w) (tabs w1)"
    using purge_dedup.drain_returns [OF assms, of x "dedupTbl (m_store m)" 0 0]
    by (auto simp: PurgeExpiredDedup_drain)
  obtain r2 w2 where s: "RecoverStuck x m w1 = (r2, w2)" by fastforce
  obtain r3 w3 where a: "ArchiveExhausted x m 0 w2 = (r3, w3)" by fastforce
  have ok1: "tables_ok (tabs w1)" using tables_ok_runs [OF r1 assms] .
  have r2: "runs {Move} (tabs w1) (tabs w2)" using RecoverStuck_runs [OF s ok1] .
  have r3: "runs {Finish, Burn_ids} (tabs w2) (tabs w3)"
    using ArchiveExhausted_runs [OF a] tables_ok_runs [OF r2 ok1] by blast
  have A1: "runs ?A (tabs w) (tabs w1)" using r1 by (rule runs_mono) blast
  moreover have "runs ?A (tabs w1) (tabs w2)" using r2 by (rule runs_mono) blast
  ultimately have A2: "runs ?A (tabs w) (tabs w2)" by (rule runs_trans)
  moreover have "runs ?A (tabs w2) (tabs w3)" using r3 by (rule runs_mono) blast
  ultimately have A3: "runs ?A (tabs w) (tabs w3)" by (rule runs_trans)
  show ?thesis
    using A1 A2 A3 p s a by (auto simp: RunAll_def Let_def split: prod.splits)
qed

end
