(* ===== verification/Cleanup_Properties.thy ===== *)
theory Cleanup_Properties
  imports Cleanup_Facts Samples
begin

text \<open>
  The properties of \<^verbatim>\<open>cleanup.go\<close>: purging, recovery of stuck messages with its bound on the number of
  crashes, archiving of exhausted messages, and \<open>RunAll\<close>.
\<close>

section \<open>Purging\<close>

text \<open>A server clock that does not go back.\<close>

definition clock_ok :: "world \<Rightarrow> bool" where
  "clock_ok w = list_all (\<lambda>e. 0 \<le> ev_db e) (script w)"

lemma exec_clock:
  assumes "exec x h st w = (r, w')" and "clock_ok w"
  shows "clock_ok w' \<and> db_now w \<le> db_now w'"
proof -
  obtain ev w1 where t: "tick w = (ev, w1)" by fastforce
  have "clock_ok w1 \<and> db_now w \<le> db_now w1"
    using t assms(2) by (cases "script w") (auto simp: tick_def clock_ok_def simp del: tick_simps)
  moreover have "script w' = script w1 \<and> db_now w' = db_now w1"
    using assms(1) unfolding exec_def t poison_def Let_def
    by (auto split: if_splits option.splits fault.splits sum.splits prod.splits)
  ultimately show ?thesis by (simp add: clock_ok_def)
qed

lemma delete_first_keeps: "d \<in> set xs \<Longrightarrow> \<not> p d \<Longrightarrow> d \<in> set (delete_first p n xs)"
  by (induction p n xs rule: delete_first.induct) auto

lemma delete_first_rest:
  assumes "\<forall>d \<in> D. \<not> p d \<longrightarrow> d \<in> set xs" and "\<And>d. p d \<Longrightarrow> q d"
  shows "\<forall>d \<in> D. \<not> q d \<longrightarrow> d \<in> set (delete_first q n xs)"
proof (intro ballI impI)
  fix d
  assume "d \<in> D" "\<not> q d"
  then have "d \<in> set xs" using assms by blast
  then show "d \<in> set (delete_first q n xs)" using \<open>\<not> q d\<close> by (rule delete_first_keeps)
qed

lemma expired_mono: "expired a d \<Longrightarrow> a \<le> b \<Longrightarrow> expired b d"
  by (auto simp: expired_def split: option.splits)

lemma old_archive_mono: "old_archive ms a r \<Longrightarrow> a \<le> b \<Longrightarrow> old_archive ms b r"
  by (auto simp: old_archive_def)

lemma exec_DB_tabs:
  "exec x DB st w = (r, w') \<Longrightarrow> tabs w' = tabs w \<or> (\<exists>locked a. st locked (db_now w') (tabs w) = Inr (a, tabs w'))"
  by (cases r) (auto dest: exec_Inl(1) exec_Inr(5))

text \<open>
  (C21) \<open>PurgeExpiredDedup\<close> returns, whatever the batch size, and when it returns without an error it
  has deleted exactly the entries whose expiry has passed: none of them is left and every other
  entry is still there.
\<close>

theorem PurgeExpiredDedup_exact:
  assumes "tables_ok (tabs w)" and "clock_ok w"
  shows "\<exists>n e w'. PurgeExpiredDedup x m b w = Some ((n, e), w') \<and> hot (tabs w') = hot (tabs w)
     \<and> (e = None \<longrightarrow> set (dedup (tabs w')) = {d \<in> set (dedup (tabs w)). \<forall>t. d_expire_at d = Some t \<longrightarrow> db_now w' \<le> t})"
proof -
  let ?b = "if b \<le> 0 then 1000 else b" and ?t = "dedupTbl (m_store m)"
  obtain n e w' where d: "drain (purge_step x ?t sql_purge_dedup ?b) ?b 0 w = Some ((n, e), w')"
    and left: "e = None \<longrightarrow> list_all (\<lambda>d. \<not> expired (db_now w') d) (dedup (tabs w'))"
    using purge_dedup.drain_returns [OF assms(1), of x ?t b 0] by blast
  let ?I = "\<lambda>v. clock_ok v \<and> hot (tabs v) = hot (tabs w) \<and> set (dedup (tabs v)) \<subseteq> set (dedup (tabs w))
      \<and> (\<forall>d \<in> set (dedup (tabs w)). \<not> expired (db_now v) d \<longrightarrow> d \<in> set (dedup (tabs v)))"
  have "?I w'"
  proof (rule purge_dedup.drain_keeps [OF d assms(1)])
    fix v r v'
    assume st: "purge_step x ?t sql_purge_dedup ?b v = (r, v')" and I: "?I v"
    obtain r' where ex: "exec x DB (sql_purge_dedup ?b) v = (r', v')" using purge_step_exec [OF st] by blast
    have c: "clock_ok v' \<and> db_now v \<le> db_now v'" using exec_clock [OF ex] I by blast
    have "tabs v' = tabs v \<or> tabs v' = (tabs v)\<lparr>dedup := delete_first (expired (db_now v')) (nat ?b) (dedup (tabs v))\<rparr>"
      using exec_DB_tabs [OF ex] by (auto simp: sql_purge_dedup_def Let_def split: if_splits)
    then show "?I v'"
      using I c delete_first_sub [of "expired (db_now v')" "nat ?b" "dedup (tabs v)"] expired_mono [of "db_now v" _ "db_now v'"]
        delete_first_rest [of "set (dedup (tabs w))" "expired (db_now v)" "dedup (tabs v)" "expired (db_now v')" "nat ?b"]
      by (elim disjE) auto
  qed (use assms(2) in simp)
  moreover have "\<not> expired now d \<longleftrightarrow> (\<forall>t. d_expire_at d = Some t \<longrightarrow> now \<le> t)" for now d
    by (auto simp: expired_def split: option.splits)
  ultimately show ?thesis using d left by (auto simp: PurgeExpiredDedup_drain list_all_iff)
qed

definition old_entry :: dedup_row where
  "old_entry = \<lparr>d_message_id = ''x'', d_partition_key = None, d_topic = ''orders'', d_source = None, d_first_seen_at = 0, d_expire_at = Some 50\<rparr>"

definition entries :: world where
  "entries = world0 ((tabs0 [])\<lparr>dedup := [old_entry]\<rparr>)"

lemma entries_ok: "tables_ok (tabs entries)" "clock_ok entries"
  by (simp_all add: entries_def old_entry_def clock_ok_def eval_ok)

theorem PurgeExpiredDedup_exact_witness:
  "\<exists>n e w'. PurgeExpiredDedup pg m0 0 entries = Some ((n, e), w')
     \<and> (e = None \<longrightarrow> set (dedup (tabs w')) = {d \<in> {old_entry}. \<forall>t. d_expire_at d = Some t \<longrightarrow> db_now w' \<le> t})"
  using PurgeExpiredDedup_exact [OF entries_ok, of pg m0 0] by (auto simp: entries_def world0_def tabs0_def)

text \<open>
  \<open>PurgeOldArchive\<close> likewise: it returns, and without an error the archive has exactly the rows that
  are within the retention.
\<close>

theorem PurgeOldArchive_exact:
  assumes "tables_ok (tabs w)" and "clock_ok w"
  shows "\<exists>n e w'. PurgeOldArchive x m ms b w = Some ((n, e), w') \<and> hot (tabs w') = hot (tabs w)
     \<and> (e = None \<longrightarrow> set (archive (tabs w')) = {a \<in> set (archive (tabs w)). \<not> old_archive ms (db_now w') a})"
proof -
  let ?b = "if b \<le> 0 then 1000 else b" and ?t = "archTbl (m_store m)"
  obtain n e w' where d: "drain (purge_step x ?t (sql_purge_archive x ms) ?b) ?b 0 w = Some ((n, e), w')"
    and left: "e = None \<longrightarrow> list_all (\<lambda>a. \<not> old_archive ms (db_now w') a) (archive (tabs w'))"
    using purge_archive.drain_returns [OF assms(1), of x ?t x ms b 0] by blast
  let ?I = "\<lambda>v. clock_ok v \<and> hot (tabs v) = hot (tabs w) \<and> set (archive (tabs v)) \<subseteq> set (archive (tabs w))
      \<and> (\<forall>a \<in> set (archive (tabs w)). \<not> old_archive ms (db_now v) a \<longrightarrow> a \<in> set (archive (tabs v)))"
  have "?I w'"
  proof (rule purge_archive.drain_keeps [OF d assms(1)])
    fix v r v'
    assume st: "purge_step x ?t (sql_purge_archive x ms) ?b v = (r, v')" and I: "?I v"
    obtain r' where ex: "exec x DB (sql_purge_archive x ms ?b) v = (r', v')" using purge_step_exec [OF st] by blast
    have c: "clock_ok v' \<and> db_now v \<le> db_now v'" using exec_clock [OF ex] I by blast
    have "tabs v' = tabs v \<or> tabs v' = (tabs v)\<lparr>archive := delete_first (old_archive ms (db_now v')) (nat ?b) (archive (tabs v))\<rparr>"
      using exec_DB_tabs [OF ex] by (auto simp: sql_purge_archive_def Let_def split: if_splits)
    then show "?I v'"
      using I c delete_first_sub [of "old_archive ms (db_now v')" "nat ?b" "archive (tabs v)"]
        old_archive_mono [of ms "db_now v" _ "db_now v'"]
        delete_first_rest [of "set (archive (tabs w))" "old_archive ms (db_now v)" "archive (tabs v)" "old_archive ms (db_now v')" "nat ?b"]
      by (elim disjE) auto
  qed (use assms(2) in simp)
  with d left show ?thesis by (auto simp: PurgeOldArchive_drain list_all_iff)
qed

theorem PurgeOldArchive_exact_witness:
  "\<exists>n e w'. PurgeOldArchive pg m0 1000 0 entries = Some ((n, e), w') \<and> hot (tabs w') = []"
  using PurgeOldArchive_exact [OF entries_ok, of pg m0 1000 0] by (auto simp: entries_def world0_def tabs0_def)


section \<open>Recovery\<close>

text \<open>
  (C17) \<open>RecoverStuck\<close> touches exactly the rows that have been \<open>PROCESSING\<close> for longer than the claim
  timeout and returns their number. Each has one more retry on its count and has lost its owner;
  it goes back to \<open>RETRY\<close>, due now, or, when the count exceeds its budget, to \<open>FAILED\<close> with an error.
\<close>

theorem RecoverStuck_exact:
  fixes m :: messaging
  assumes "RecoverStuck x m w = ((n, None), w')" and "tables_ok (tabs w)"
  defines "hit \<equiv> \<lambda>r. h_status r = StatusProcessing
     \<and> (\<exists>t. h_processing_at r = Some t \<and> t < db_now w' - milliseconds (ClaimTimeout (m_cfg m)) * Millisecond)"
  shows "n = int (length (filter hit (hot (tabs w))))
     \<and> (\<forall>r \<in> set (hot (tabs w)). \<exists>r'. row_of (hot (tabs w')) (h_message_id r) = Some r'
          \<and> (\<not> hit r \<longrightarrow> r' = r)
          \<and> (hit r \<longrightarrow> h_retry_count r' = h_retry_count r + 1 \<and> h_processing_by r' = None
               \<and> row_data r' = row_data r
               \<and> (if h_retry_count r + 1 > h_max_retry r
                  then h_status r' = StatusFailed \<and> h_last_error r' = Some ''stuck recovery exhausted''
                  else h_status r' = StatusRetry \<and> h_next_retry_at r' = Some (db_now w'))))"
proof -
  have "stuck (milliseconds (ClaimTimeout (m_cfg m))) (db_now w') = hit"
    by (auto simp: fun_eq_iff stuck_def hit_def split: option.splits)
  note eff = RecoverStuck_effect [OF assms(1), unfolded this, simplified]
  have dist: "distinct (ids (hot (tabs w)))" using assms(2) by (simp add: tables_ok_def hot_ok_def)
  have rid: "h_message_id (recover_set now r) = h_message_id r" for now r by (simp add: recover_set_def Let_def)
  have upd: "row_of (upd_where hit (recover_set now) rs) i = map_option (\<lambda>r. if hit r then recover_set now r else r) (row_of rs i)" for now rs i
    by (induction rs) (auto simp: row_of_def upd_where_def rid)
  have "row_of (hot (tabs w')) (h_message_id r) = Some (if hit r then recover_set (db_now w') r else r)" if "r \<in> set (hot (tabs w))" for r
    using row_of_mem [OF dist that] by (simp add: eff(2) upd)
  then show ?thesis
    using eff(1) by (auto simp: count_where_def recover_set_def row_data_def Let_def)
qed

definition crashed :: world where
  "crashed = (world0 (tabs0 [taken_row ''a'' ''w1'']))\<lparr>db_now := 400000000000\<rparr>"

lemma crashed_ok: "tables_ok (tabs crashed)" "clock_ok crashed"
  by (simp_all add: crashed_def clock_ok_def eval_ok)

lemmas eval_recover = RecoverStuck_def sql_recover_stuck_def stuck_def crashed_def in_int32_def recover_set_def
  eval_simps milliseconds_def trunc_div_nonneg

theorem RecoverStuck_exact_witness:
  "\<exists>w' r'. RecoverStuck pg m0 crashed = ((1, None), w') \<and> row_of (hot (tabs w')) ''a'' = Some r' \<and> h_retry_count r' = 1"
proof -
  have "\<exists>n w'. RecoverStuck pg m0 crashed = ((n, None), w') \<and> n = 1" by (simp add: eval_recover)
  then obtain w' where r: "RecoverStuck pg m0 crashed = ((1, None), w')" by blast
  then have "db_now w' = 400000000000" by (auto simp: eval_recover)
  then have hit: "h_status (taken_row ''a'' ''w1'') = StatusProcessing
      \<and> (\<exists>t. h_processing_at (taken_row ''a'' ''w1'') = Some t \<and> t < db_now w' - milliseconds (ClaimTimeout (m_cfg m0)) * Millisecond)"
    by (simp add: milliseconds_def trunc_div_nonneg eval_simps)
  have mem: "taken_row ''a'' ''w1'' \<in> set (hot (tabs crashed))" by (simp add: crashed_def world0_def tabs0_def)
  have "h_message_id (taken_row ''a'' ''w1'') = ''a''" "h_retry_count (taken_row ''a'' ''w1'') = 0" by (simp_all add: eval_simps)
  with RecoverStuck_exact [OF r crashed_ok(1), THEN conjunct2, rule_format, OF mem] hit
  obtain r' where "row_of (hot (tabs w')) ''a'' = Some r'" "h_retry_count r' = 1" by auto
  with r show ?thesis by blast
qed

section \<open>Archiving exhausted messages\<close>

text \<open>
  (C19) \<open>ArchiveExhausted\<close> is all or nothing, whatever call fails: a set of rows that were \<open>FAILED\<close> for
  longer than the retention has moved from the hot table to the archive, at most a batch and each
  with one archive row, or no row of any table has changed. The count it returns is exact.
\<close>

theorem ArchiveExhausted_atomic:
  fixes m :: messaging
  assumes "ArchiveExhausted x m b w = (res, w')" and "tables_ok (tabs w)"
  defines "old \<equiv> \<lambda>now r. h_status r = StatusFailed
     \<and> (\<exists>t. h_processed_at r = Some t \<and> t < now - milliseconds (FailedRetention (m_cfg m)) * Millisecond)"
  shows "(\<exists>k. tabs w' = (tabs w)\<lparr>arch_seq := k\<rparr> \<and> (\<forall>n. res = Inr n \<longrightarrow> n = 0))
     \<or> (\<exists>mids now. tabs w' = failed_tables mids now (tabs w) \<and> distinct mids
          \<and> int (length mids) \<le> (if b \<le> 0 then 500 else b)
          \<and> (\<forall>mid \<in> set mids. \<exists>r. row_of (hot (tabs w)) mid = Some r \<and> old now r)
          \<and> (\<forall>n. res = Inr n \<longrightarrow> n = int (length mids)))"
proof -
  have ok: "hot_ok (hot (tabs w))" and dist: "distinct (ids (hot (tabs w)))"
    using assms(2) by (simp_all add: tables_ok_def hot_ok_def)
  from assms(1) ok show ?thesis
  proof (cases rule: ArchiveExhausted_cases)
    case (lost e k)
    then show ?thesis by (intro disjI1 exI [of _ k]) simp
  next
    case (none locked now)
    then show ?thesis by (intro disjI1 exI [of _ "arch_seq (tabs w)"]) simp
  next
    case (moved locked now)
    let ?rows = "exhausted_rows locked (milliseconds (FailedRetention (m_cfg m))) now (nat (if b \<le> 0 then 500 else b)) (hot (tabs w))"
    note sub = exhausted_rows_sub [of locked "milliseconds (FailedRetention (m_cfg m))" now
        "nat (if b \<le> 0 then 500 else b)" "hot (tabs w)"]
    have "inj_on h_message_id (set (hot (tabs w)))" using dist by (simp add: ids_def distinct_map)
    then have "inj_on h_message_id (set ?rows)" by (rule inj_on_subset) (use sub in blast)
    then have "distinct (ids ?rows)" using exhausted_rows_distinct [OF dist] by (simp add: ids_def distinct_map)
    moreover have "\<forall>mid \<in> set (ids ?rows). \<exists>r. row_of (hot (tabs w)) mid = Some r \<and> old now r"
      using sub row_of_mem [OF dist] by (fastforce simp: ids_def old_def exhausted_def split: option.splits)
    moreover have "int (length (ids ?rows)) \<le> (if b \<le> 0 then 500 else b)"
      by (auto simp: ids_def exhausted_rows_def)
    moreover have "\<forall>n. res = Inr n \<longrightarrow> n = int (length (ids ?rows))" using moved(2) by (auto simp: ids_def)
    ultimately show ?thesis using moved(1) by (intro disjI2) blast
  qed
qed

definition long_failed :: world where
  "long_failed = (world0 (tabs0 [failed_row ''a'' 50]))\<lparr>db_now := 700000000000000\<rparr>"

lemma long_failed_ok: "tables_ok (tabs long_failed)" "clock_ok long_failed"
  by (simp_all add: long_failed_def clock_ok_def eval_ok)

lemmas eval_archive = ArchiveExhausted_def tx_query_def rows_Scan_def sql_select_exhausted_def exhausted_rows_def exhausted_def long_failed_def
  milliseconds_def trunc_div_nonneg eval_simps

theorem ArchiveExhausted_atomic_witness:
  "\<exists>w' mids now. ArchiveExhausted pg m0 0 long_failed = (Inr 1, w') \<and> length mids = 1
     \<and> tabs w' = failed_tables mids now (tabs long_failed)"
proof -
  have "\<exists>n w'. ArchiveExhausted pg m0 0 long_failed = (Inr n, w') \<and> n = 1" by (simp add: eval_archive)
  then obtain w' where r: "ArchiveExhausted pg m0 0 long_failed = (Inr 1, w')" by blast
  from ArchiveExhausted_atomic [OF r long_failed_ok(1)] r show ?thesis by auto
qed



end
