(* ===== verification/Runner.thy ===== *)
theory Runner
  imports Messaging
begin

text \<open>
  \<^verbatim>\<open>runner.go\<close>: the background loop around \<open>ProcessBatch\<close>. First the body of the loop (one poll and
  the delay it chooses), then \<open>Start\<close>, \<open>Stop\<close> and the goroutine as a transition system in which the
  unsynchronised read of the field \<open>done\<close> by \<open>defer close(r.done)\<close> is a step of its own.
\<close>

section \<open>The body of the loop\<close>

record runner_cfg =
  rn_opts :: runnerOptions
  rn_handler :: "handler option"

definition NewRunner :: "runnerOptions \<Rightarrow> handler option \<Rightarrow> runner_cfg" where
  "NewRunner opts handler = \<lparr>rn_opts = RunnerOptions_withDefaults opts, rn_handler = handler\<rparr>"

definition poll_delay :: "runnerOptions \<Rightarrow> err + int \<Rightarrow> int" where
  "poll_delay opts res =
     (case res of
        Inr n \<Rightarrow> if n > 0 then PollInterval opts else IdleInterval opts
      | Inl e \<Rightarrow> IdleInterval opts)"

text \<open>
  The loop, for at most \<open>k\<close> polls: \<open>ctx_done\<close> says whether the context is found done at the check before a
  poll, \<open>woken\<close> whether it ends during the sleep after it. The result is the sequence of delays slept
  and whether the loop has returned.
\<close>

fun runner_loop ::
  "nat \<Rightarrow> ext \<Rightarrow> messaging \<Rightarrow> runner_cfg \<Rightarrow> (message list \<Rightarrow> (message \<times> bool) list) \<Rightarrow> (nat \<Rightarrow> bool) \<Rightarrow> (nat \<Rightarrow> bool)
     \<Rightarrow> world \<Rightarrow> int list \<times> bool \<times> world" where
  "runner_loop 0 x m r sched ctx_done woken w = ([], False, w)"
| "runner_loop (Suc k) x m r sched ctx_done woken w =
     (if ctx_done k then ([], True, w)
      else
        (let (res, w1) = ProcessBatch x m sched (BatchSize (rn_opts r)) (rn_handler r) [] w;
             delay = poll_delay (rn_opts r) res in
         if delay \<le> 0 then runner_loop k x m r sched ctx_done woken w1
         else if woken k then ([delay], True, w1)
         else (let (ds, returned, w2) = runner_loop k x m r sched ctx_done woken w1 in (delay # ds, returned, w2))))"

section \<open>Start, Stop and the goroutine\<close>

text \<open>
  Contexts, channels and goroutines are numbered by the call of \<open>Start\<close> that made them. A goroutine
  is first \<open>Spawned\<close>; its first statement reads the field \<open>done\<close> and makes the deferred call with that
  value (\<open>Looping d\<close>); when it returns it closes \<open>d\<close> and is \<open>Returned\<close>. Closing a nil or a closed
  channel panics.
\<close>

datatype goroutine = Spawned | Looping "nat option" | Returned

datatype stopper = Waiting nat | Stopped

record runner =
  r_cancel :: "nat option"
  r_done :: "nat option"
  next_id :: nat
  cancelled :: "nat list"
  closed :: "nat list"
  loops :: "(nat \<times> goroutine) list"
  stops :: "stopper list"
  panicked :: bool

definition runner_init :: runner where
  "runner_init = \<lparr>r_cancel = None, r_done = None, next_id = 0, cancelled = [], closed = [], loops = [], stops = [], panicked = False\<rparr>"

text \<open>Both run under the mutex up to the unlock, so each is one step.\<close>

definition Start :: "runner \<Rightarrow> runner" where
  "Start r =
     (case r_cancel r of
        Some _ \<Rightarrow> r
      | None \<Rightarrow>
          r\<lparr>r_cancel := Some (next_id r), r_done := Some (next_id r), next_id := next_id r + 1,
            loops := loops r @ [(next_id r, Spawned)]\<rparr>)"

definition Stop :: "runner \<Rightarrow> runner" where
  "Stop r =
     (let r' = r\<lparr>r_cancel := None, r_done := None\<rparr> in
      case (r_cancel r, r_done r) of
        (Some c, Some d) \<Rightarrow> r'\<lparr>cancelled := c # cancelled r, stops := stops r @ [Waiting d]\<rparr>
      | (Some c, None) \<Rightarrow> r'\<lparr>cancelled := c # cancelled r\<rparr>
      | (None, _) \<Rightarrow> r')"

definition set_loop :: "nat \<Rightarrow> goroutine \<Rightarrow> runner \<Rightarrow> runner" where
  "set_loop k g r = r\<lparr>loops := map (\<lambda>(i, h). if i = k then (i, g) else (i, h)) (loops r)\<rparr>"

definition begin_loop :: "nat \<Rightarrow> runner \<Rightarrow> runner" where
  "begin_loop k r = set_loop k (Looping (r_done r)) r"

definition close_chan :: "nat option \<Rightarrow> runner \<Rightarrow> runner" where
  "close_chan d r =
     (case d of
        None \<Rightarrow> r\<lparr>panicked := True\<rparr>
      | Some c \<Rightarrow> if c \<in> set (closed r) then r\<lparr>panicked := True\<rparr> else r\<lparr>closed := c # closed r\<rparr>)"

definition return_loop :: "nat \<Rightarrow> nat option \<Rightarrow> runner \<Rightarrow> runner" where
  "return_loop k d r = set_loop k Returned (close_chan d r)"

text \<open>
  The steps. \<open>loop\<close> returns only when its context is cancelled (by \<open>Stop\<close>, or because the
  caller's context ended: \<open>parent\<close>); the receive of \<open>Stop\<close> completes when the channel is closed.
\<close>

inductive runner_step :: "runner \<Rightarrow> runner \<Rightarrow> bool" where
  start: "\<not> panicked r \<Longrightarrow> runner_step r (Start r)"
| stop: "\<not> panicked r \<Longrightarrow> runner_step r (Stop r)"
| begin_loop: "\<not> panicked r \<Longrightarrow> (k, Spawned) \<in> set (loops r) \<Longrightarrow> runner_step r (begin_loop k r)"
| parent: "\<not> panicked r \<Longrightarrow> k < next_id r \<Longrightarrow> runner_step r (r\<lparr>cancelled := k # cancelled r\<rparr>)"
| return_loop: "\<not> panicked r \<Longrightarrow> (k, Looping d) \<in> set (loops r) \<Longrightarrow> k \<in> set (cancelled r) \<Longrightarrow> runner_step r (return_loop k d r)"
| stopped: "\<not> panicked r \<Longrightarrow> i < length (stops r) \<Longrightarrow> stops r ! i = Waiting d \<Longrightarrow> d \<in> set (closed r)
     \<Longrightarrow> runner_step r (r\<lparr>stops := (stops r)[i := Stopped]\<rparr>)"

inductive_cases runner_stepE: "runner_step r r'"

section \<open>Sleeping\<close>

lemma poll_delay_idle:
  "poll_delay (RunnerOptions_withDefaults o') (Inl e) > 0"
  "n \<le> 0 \<Longrightarrow> poll_delay (RunnerOptions_withDefaults o') (Inr n) > 0"
  by (simp_all add: poll_delay_def RunnerOptions_withDefaults_def)

section \<open>When the goroutine has begun before Stop\<close>

text \<open>A run in which nobody calls \<open>Stop\<close> before the goroutine has executed its first statement.\<close>

inductive careful_step :: "runner \<Rightarrow> runner \<Rightarrow> bool" where
  any: "runner_step r r' \<Longrightarrow> r' \<noteq> Stop r \<Longrightarrow> careful_step r r'"
| stop: "\<not> panicked r \<Longrightarrow> (\<forall>k. (k, Spawned) \<notin> set (loops r)) \<Longrightarrow> careful_step r (Stop r)"

definition goroutines_ok :: "runner \<Rightarrow> bool" where
  "goroutines_ok r \<longleftrightarrow>
     (\<forall>k. (k, Spawned) \<in> set (loops r) \<longrightarrow> r_done r = Some k \<and> k \<notin> set (closed r))
     \<and> (\<forall>k d. (k, Looping d) \<in> set (loops r) \<longrightarrow> d = Some k \<and> k \<notin> set (closed r))
     \<and> (\<forall>k. (k, Returned) \<in> set (loops r) \<longrightarrow> k \<in> set (closed r))"

definition runner_ok :: "runner \<Rightarrow> bool" where
  "runner_ok r \<longleftrightarrow>
     \<not> panicked r
     \<and> map fst (loops r) = [0..<next_id r]
     \<and> goroutines_ok r
     \<and> list_all (\<lambda>c. c < next_id r) (closed r)
     \<and> r_cancel r = r_done r
     \<and> (case r_done r of None \<Rightarrow> True | Some k \<Rightarrow> k < next_id r)
     \<and> list_all (\<lambda>s. case s of Waiting d \<Rightarrow> d < next_id r \<and> d \<in> set (cancelled r) | Stopped \<Rightarrow> True) (stops r)"

lemma runner_init_ok: "runner_ok runner_init"
  by (simp add: runner_ok_def runner_init_def goroutines_ok_def)

lemma loops_distinct: "map fst gs = [0..<n] \<Longrightarrow> (k, g) \<in> set gs \<Longrightarrow> (k, h) \<in> set gs \<Longrightarrow> g = h"
  using eq_key_imp_eq_value [of gs k g h] by simp

lemma set_loop_fst: "map fst (loops (set_loop k g r)) = map fst (loops r)"
  by (auto simp: set_loop_def)

lemma set_loop_mem: "(i, h) \<in> set (loops (set_loop k g r)) \<longleftrightarrow>
    (if i = k then h = g \<and> (\<exists>h'. (k, h') \<in> set (loops r)) else (i, h) \<in> set (loops r))"
  by (force simp: set_loop_def split: if_splits)

lemma set_loop_simps [simp]:
  "r_cancel (set_loop k g r) = r_cancel r" "r_done (set_loop k g r) = r_done r" "next_id (set_loop k g r) = next_id r"
  "cancelled (set_loop k g r) = cancelled r" "closed (set_loop k g r) = closed r" "stops (set_loop k g r) = stops r"
  "panicked (set_loop k g r) = panicked r"
  by (simp_all add: set_loop_def)

lemma loop_bound: "map fst (loops r) = [0..<next_id r] \<Longrightarrow> (k, g) \<in> set (loops r) \<Longrightarrow> k < next_id r"
  by (metis atLeastLessThan_iff fst_conv image_eqI list.set_map set_upt)

lemma Start_ok: "runner_ok r \<Longrightarrow> runner_ok (Start r)"
proof (cases "r_cancel r")
  case None
  assume ok: "runner_ok r"
  then have "next_id r \<notin> set (closed r)" by (auto simp: runner_ok_def list_all_iff)
  with ok None show ?thesis
    by (auto simp: runner_ok_def Start_def goroutines_ok_def list_all_iff less_Suc_eq split: stopper.splits)
qed (simp add: Start_def)

lemma Stop_ok: "runner_ok r \<Longrightarrow> \<forall>k. (k, Spawned) \<notin> set (loops r) \<Longrightarrow> runner_ok (Stop r)"
  by (cases "r_done r")
     (auto simp: runner_ok_def Stop_def goroutines_ok_def list_all_iff split: stopper.splits)

lemma begin_loop_ok:
  assumes "runner_ok r" and "(k, Spawned) \<in> set (loops r)"
  shows "runner_ok (begin_loop k r)"
proof -
  have k: "r_done r = Some k" "k \<notin> set (closed r)" using assms by (auto simp: runner_ok_def goroutines_ok_def)
  have only: "j = k" if "(j, Spawned) \<in> set (loops r)" for j
    using that assms(1) k(1) by (auto simp: runner_ok_def goroutines_ok_def)
  show ?thesis
    using assms(1) k only
    by (auto simp: runner_ok_def goroutines_ok_def begin_loop_def set_loop_fst set_loop_mem split: if_splits)
qed

lemma return_loop_ok:
  assumes "runner_ok r" and "(k, Looping d) \<in> set (loops r)"
  shows "runner_ok (return_loop k d r)"
proof -
  have ids: "map fst (loops r) = [0..<next_id r]" using assms(1) by (simp add: runner_ok_def)
  have d: "d = Some k" "k \<notin> set (closed r)"
    using assms by (auto simp: runner_ok_def goroutines_ok_def)
  have eq: "return_loop k d r = set_loop k Returned (r\<lparr>closed := k # closed r\<rparr>)"
    using d by (simp add: return_loop_def close_chan_def)
  note same = loops_distinct [OF ids assms(2)]
  have g: "goroutines_ok r" using assms(1) by (simp add: runner_ok_def)
  have "goroutines_ok (return_loop k d r)"
    unfolding goroutines_ok_def eq set_loop_mem
    using g same d by (auto simp: goroutines_ok_def split: if_splits)
  moreover have "list_all (\<lambda>c. c < next_id r) (k # closed r)"
    using assms(1) loop_bound [OF ids assms(2)] by (simp add: runner_ok_def)
  ultimately show ?thesis
    using assms(1) unfolding runner_ok_def eq set_loop_fst by (simp cong: option.case_cong stopper.case_cong)
qed

lemma careful_step_ok: "careful_step r r' \<Longrightarrow> runner_ok r \<Longrightarrow> runner_ok r'"
proof (induction rule: careful_step.induct)
  case (any r r')
  from any(1) any(2,3) show ?case
  proof (induction rule: runner_step.induct)
    case (parent r k)
    then show ?case by (auto simp: runner_ok_def list_all_iff goroutines_ok_def split: stopper.splits option.splits)
  next
    case (stopped r i d)
    let ?ok = "\<lambda>s. case s of Waiting d \<Rightarrow> d < next_id r \<and> d \<in> set (cancelled r) | Stopped \<Rightarrow> True"
    have "set ((stops r)[i := Stopped]) \<subseteq> insert Stopped (set (stops r))" by (rule set_update_subset_insert)
    then have "list_all ?ok ((stops r)[i := Stopped])"
      using stopped(6) by (auto simp: runner_ok_def list_all_iff)
    moreover have "goroutines_ok (r\<lparr>stops := (stops r)[i := Stopped]\<rparr>)"
      using stopped(6) by (simp add: runner_ok_def goroutines_ok_def)
    ultimately show ?case
      using stopped(6) unfolding runner_ok_def by (simp cong: option.case_cong stopper.case_cong)
  qed (auto intro: Start_ok begin_loop_ok return_loop_ok)
qed (simp add: Stop_ok)

lemma careful_run_ok: "careful_step\<^sup>*\<^sup>* runner_init r \<Longrightarrow> runner_ok r"
  by (induction rule: rtranclp_induct) (auto intro: runner_init_ok careful_step_ok)

text \<open>A \<open>Stop\<close> that is waiting can always complete.\<close>

lemma stop_finish:
  assumes "runner_ok r" and "i < length (stops r)" and "stops r ! i = Waiting d" and "d \<in> set (closed r)"
  shows "\<exists>r'. runner_step\<^sup>*\<^sup>* r r' \<and> stops r' ! i = Stopped"
proof -
  have "runner_step r (r\<lparr>stops := (stops r)[i := Stopped]\<rparr>)"
    using assms by (intro runner_step.stopped) (auto simp: runner_ok_def)
  moreover have "stops (r\<lparr>stops := (stops r)[i := Stopped]\<rparr>) ! i = Stopped" using assms(2) by simp
  ultimately show ?thesis by blast
qed

lemma stop_from_looping:
  assumes ok: "runner_ok r" and st: "i < length (stops r)" "stops r ! i = Waiting d"
    and lp: "(d, Looping e) \<in> set (loops r)" and c: "d \<in> set (cancelled r)"
  shows "\<exists>r'. runner_step\<^sup>*\<^sup>* r r' \<and> stops r' ! i = Stopped"
proof -
  have e: "e = Some d" "d \<notin> set (closed r)" using ok lp by (auto simp: runner_ok_def goroutines_ok_def)
  let ?r1 = "return_loop d e r"
  have step: "runner_step r ?r1" using ok lp c by (intro runner_step.return_loop) (auto simp: runner_ok_def)
  have "stops ?r1 = stops r" "d \<in> set (closed ?r1)" using e by (simp_all add: return_loop_def close_chan_def)
  then obtain r' where "runner_step\<^sup>*\<^sup>* ?r1 r'" "stops r' ! i = Stopped"
    using stop_finish [OF return_loop_ok [OF ok lp], of i d] st by auto
  then show ?thesis using step by (meson converse_rtranclp_into_rtranclp)
qed

lemma stop_completes:
  assumes ok: "runner_ok r" and st: "i < length (stops r)" "stops r ! i = Waiting d"
  shows "\<exists>r'. runner_step\<^sup>*\<^sup>* r r' \<and> stops r' ! i = Stopped"
proof -
  have "Waiting d \<in> set (stops r)" using st by (metis nth_mem)
  then have d: "d < next_id r" "d \<in> set (cancelled r)"
    using ok by (auto simp: runner_ok_def list_all_iff split: stopper.splits)
  have "d \<in> set (map fst (loops r))" using ok d(1) by (simp only: runner_ok_def) simp
  then obtain g where g: "(d, g) \<in> set (loops r)" by auto
  show ?thesis
  proof (cases g)
    case (Looping e)
    then show ?thesis using stop_from_looping [OF ok st] g d(2) by blast
  next
    case Returned
    then have "d \<in> set (closed r)" using ok g by (auto simp: runner_ok_def goroutines_ok_def)
    then show ?thesis by (rule stop_finish [OF ok st])
  next
    case Spawned
    let ?r1 = "begin_loop d r"
    have step: "runner_step r ?r1" using ok g Spawned by (intro runner_step.begin_loop) (auto simp: runner_ok_def)
    have "(d, Looping (r_done r)) \<in> set (loops ?r1)" "stops ?r1 = stops r" "cancelled ?r1 = cancelled r"
      using g by (auto simp: begin_loop_def set_loop_mem)
    then obtain r' where "runner_step\<^sup>*\<^sup>* ?r1 r'" "stops r' ! i = Stopped"
      using stop_from_looping [of ?r1 i d "r_done r"] begin_loop_ok [OF ok] g Spawned st d(2) by auto
    then show ?thesis using step by (meson converse_rtranclp_into_rtranclp)
  qed
qed

end
