(* ===== verification/Pool.thy ===== *)
theory Pool
  imports Messaging
begin

text \<open>
  The goroutines of one \<open>ProcessBatch\<close> call: a wait group and a channel used as a semaphore of capacity
  \<open>Config.Concurrency\<close>. A transition system over the messages that are still waiting for a slot, those
  being handled and those finished, in the order in which they finish; its complete runs are the
  schedules that \<open>ProcessBatch\<close> takes as an argument.
\<close>

section \<open>The transition system\<close>

record pool =
  p_waiting :: "message list"
  p_running :: "message list"
  p_finished :: "(message \<times> bool) list"
  p_cancelled :: bool

definition pool_init :: "message list \<Rightarrow> pool" where
  "pool_init ms = \<lparr>p_waiting = ms, p_running = [], p_finished = [], p_cancelled = False\<rparr>"

text \<open>
  \<open>Acquire\<close>: the send on the channel succeeds while it has room. \<open>Give_up\<close>: the other branch of the
  \<open>select\<close>, possible once the context is done. \<open>Release\<close>: \<open>handleOne\<close> returned and the deferred
  receive frees the slot. \<open>Cancel\<close>: the context ends, at any time.
\<close>

inductive pool_step :: "int \<Rightarrow> pool \<Rightarrow> pool \<Rightarrow> bool" for cap where
  Acquire: "m \<in> set (p_waiting p) \<Longrightarrow> int (length (p_running p)) < cap
     \<Longrightarrow> pool_step cap p (p\<lparr>p_waiting := remove1 m (p_waiting p), p_running := m # p_running p\<rparr>)"
| Give_up: "m \<in> set (p_waiting p) \<Longrightarrow> p_cancelled p
     \<Longrightarrow> pool_step cap p (p\<lparr>p_waiting := remove1 m (p_waiting p), p_finished := p_finished p @ [(m, False)]\<rparr>)"
| Release: "m \<in> set (p_running p)
     \<Longrightarrow> pool_step cap p (p\<lparr>p_running := remove1 m (p_running p), p_finished := p_finished p @ [(m, True)]\<rparr>)"
| Cancel: "\<not> p_cancelled p \<Longrightarrow> pool_step cap p (p\<lparr>p_cancelled := True\<rparr>)"

inductive_cases pool_stepE: "pool_step cap p p'"

text \<open>\<open>wg.Wait()\<close> returns when no goroutine is left.\<close>

definition pool_done :: "pool \<Rightarrow> bool" where
  "pool_done p \<longleftrightarrow> p_waiting p = [] \<and> p_running p = []"

section \<open>Invariants and progress\<close>

definition pool_all :: "pool \<Rightarrow> message multiset" where
  "pool_all p = mset (p_waiting p) + mset (p_running p) + mset (map fst (p_finished p))"

lemma pool_step_all: "pool_step cap p p' \<Longrightarrow> pool_all p' = pool_all p"
  by (induction rule: pool_step.induct) (auto simp: pool_all_def)

lemma pool_step_bound:
  "pool_step cap p p' \<Longrightarrow> int (length (p_running p)) \<le> cap \<Longrightarrow> int (length (p_running p')) \<le> cap"
  by (induction rule: pool_step.induct) (auto simp: length_remove1)

text \<open>Every step brings the end nearer.\<close>

definition pool_measure :: "pool \<Rightarrow> nat" where
  "pool_measure p = 2 * length (p_waiting p) + length (p_running p) + (if p_cancelled p then 0 else 1)"

lemma length_remove1_Suc: "m \<in> set xs \<Longrightarrow> length xs = Suc (length (remove1 m xs))"
  by (induction xs) auto

lemma pool_step_measure: "pool_step cap p p' \<Longrightarrow> pool_measure p' < pool_measure p"
  by (induction rule: pool_step.induct) (auto simp: pool_measure_def dest: length_remove1_Suc)

lemma pool_not_stuck:
  assumes "0 < cap" and "\<not> pool_done p"
  shows "\<exists>p'. pool_step cap p p'"
proof (cases "p_running p")
  case Nil
  then obtain m where "m \<in> set (p_waiting p)" using assms(2) by (cases "p_waiting p") (auto simp: pool_done_def)
  then show ?thesis using pool_step.Acquire [of m p cap] Nil assms(1) by auto
next
  case (Cons m rest)
  then show ?thesis using pool_step.Release [of m p cap] by auto
qed

text \<open>Runs of the pool.\<close>

abbreviation pool_run :: "int \<Rightarrow> pool \<Rightarrow> pool \<Rightarrow> bool" where
  "pool_run cap \<equiv> (pool_step cap)\<^sup>*\<^sup>*"

lemma pool_run_invariant:
  assumes "pool_run cap (pool_init ms) p" and "0 \<le> cap"
  shows "pool_all p = mset ms \<and> int (length (p_running p)) \<le> cap"
  using assms(1)
proof (induction rule: rtranclp_induct)
  case base
  then show ?case using assms(2) by (simp add: pool_init_def pool_all_def)
next
  case (step p p')
  then show ?case using pool_step_all pool_step_bound by metis
qed

lemma pool_terminates: "wfP (\<lambda>p' p. pool_step cap p p')"
  by (rule wfp_if_convertible_to_nat [of _ pool_measure]) (rule pool_step_measure)

lemma pool_finishes:
  assumes "0 < cap"
  shows "\<exists>p'. pool_run cap p p' \<and> pool_done p'"
proof (induction "pool_measure p" arbitrary: p rule: less_induct)
  case less
  show ?case
  proof (cases "pool_done p")
    case False
    then obtain q where q: "pool_step cap p q" using pool_not_stuck [OF assms] by blast
    then obtain p' where "pool_run cap q p'" "pool_done p'" using less pool_step_measure by blast
    then show ?thesis using q by (meson converse_rtranclp_into_rtranclp)
  qed blast
qed

end
