(* ===== verification/Runner_Properties.thy ===== *)
theory Runner_Properties
  imports Runner Pool Samples
begin

text \<open>
  The properties of the background loop of \<^verbatim>\<open>runner.go\<close> and of the goroutines of one \<open>ProcessBatch\<close>
  call: what the semaphore bounds, that the wait group is always released, when \<open>Stop\<close> returns, and
  the interleaving in which the runner panics.
\<close>

section \<open>The worker pool\<close>

lemma pool_slots: "pool_step cap p p' \<Longrightarrow> (\<not> p_cancelled p \<longrightarrow> list_all snd (p_finished p))
    \<Longrightarrow> \<not> p_cancelled p' \<longrightarrow> list_all snd (p_finished p')"
  by (induction rule: pool_step.induct) auto

lemma pool_run_slots:
  "pool_run cap (pool_init ms) p \<Longrightarrow> \<not> p_cancelled p \<longrightarrow> list_all snd (p_finished p)"
  by (induction rule: rtranclp_induct) (simp add: pool_init_def, rule pool_slots)



lemma pool_run_length: "(pool_step cap ^^ n) p p' \<Longrightarrow> n + pool_measure p' \<le> pool_measure p"
proof (induction n arbitrary: p')
  case (Suc n)
  then obtain q where "(pool_step cap ^^ n) p q" "pool_step cap q p'" by auto
  then show ?case using Suc.IH [of q] pool_step_measure [of cap q p'] by simp
qed simp

text \<open>
  No run of the pool is longer than two steps per message and one cancellation: whatever the
  scheduler does, \<open>wg.Wait()\<close> is reached (given that the handlers return).
\<close>

theorem pool_bounded:
  assumes "(pool_step cap ^^ n) (pool_init ms) p"
  shows "n \<le> 2 * length ms + 1"
  using pool_run_length [OF assms] by (simp add: pool_measure_def pool_init_def)

theorem pool_bounded_witness:
  "(pool_step 1 ^^ 1) (pool_init []) ((pool_init [])\<lparr>p_cancelled := True\<rparr>) \<and> (1::nat) \<le> 2 * length ([] :: message list) + 1"
proof -
  have run: "(pool_step 1 ^^ 1) (pool_init []) ((pool_init [])\<lparr>p_cancelled := True\<rparr>)"
    using pool_step.Cancel [of "pool_init []" 1] by (simp add: pool_init_def relcompp_apply)
  from pool_bounded [OF run] run show ?thesis by blast
qed

section \<open>Polling\<close>

lemma runner_loop_step:
  assumes "runner_loop (Suc k) x m r sched cd wk w = (ds, ret, w')" and "\<not> cd k"
  obtains res w1 where "ProcessBatch x m sched (BatchSize (rn_opts r)) (rn_handler r) [] w = (res, w1)"
    and "(poll_delay (rn_opts r) res \<le> 0 \<and> runner_loop k x m r sched cd wk w1 = (ds, ret, w'))
      \<or> (0 < poll_delay (rn_opts r) res \<and> ds = [poll_delay (rn_opts r) res] \<and> ret \<and> w' = w1)
      \<or> (0 < poll_delay (rn_opts r) res \<and> (\<exists>es. ds = poll_delay (rn_opts r) res # es
           \<and> runner_loop k x m r sched cd wk w1 = (es, ret, w')))"
  using assms by (auto simp: Let_def split: prod.splits if_splits)

lemma runner_loop_invariant:
  assumes "runner_loop k x m r sched cd wk w = (ds, ret, w')" and "tables_ok (tabs w)"
    and "routes_keep A m (rn_handler r)"
  shows "runs (A \<union> {Move, Finish, Burn_ids}) (tabs w) (tabs w') \<and> list_all (\<lambda>d. 0 < d) ds
     \<and> ((\<exists>j < k. cd j) \<longrightarrow> ret)"
  using assms(1,2)
proof (induction k arbitrary: w ds)
  case (Suc k)
  show ?case
  proof (cases "cd k")
    case True
    then show ?thesis using Suc.prems by auto
  next
    case False
    from Suc.prems(1) False obtain res w1 where
      pb: "ProcessBatch x m sched (BatchSize (rn_opts r)) (rn_handler r) [] w = (res, w1)"
      and alt: "(poll_delay (rn_opts r) res \<le> 0 \<and> runner_loop k x m r sched cd wk w1 = (ds, ret, w'))
      \<or> (0 < poll_delay (rn_opts r) res \<and> ds = [poll_delay (rn_opts r) res] \<and> ret \<and> w' = w1)
      \<or> (0 < poll_delay (rn_opts r) res \<and> (\<exists>es. ds = poll_delay (rn_opts r) res # es
           \<and> runner_loop k x m r sched cd wk w1 = (es, ret, w')))"
      by (rule runner_loop_step)
    have one: "runs (A \<union> {Move, Finish, Burn_ids}) (tabs w) (tabs w1)"
      using ProcessBatch_runs [OF pb Suc.prems(2) assms(3)] .
    note IH = Suc.IH [OF _ tables_ok_runs [OF one Suc.prems(2)]]
    have j: "(\<exists>j < Suc k. cd j) \<longleftrightarrow> (\<exists>j < k. cd j)" using False less_Suc_eq by auto
    from alt one j show ?thesis by (auto dest!: IH intro: runs_trans)
  qed
qed simp


definition idle_opts :: runnerOptions where
  "idle_opts = \<lparr>BatchSize = 0, PollInterval = 0, IdleInterval = 0\<rparr>"

definition empty_world :: world where
  "empty_world = world0 (tabs0 [])"

lemma empty_world_ok: "tables_ok (tabs empty_world)"
  by (simp add: empty_world_def eval_ok)


section \<open>Starting and stopping\<close>

text \<open>
  (C33) If nobody calls \<open>Stop\<close> before the goroutine of the last \<open>Start\<close> has executed its first statement,
  the runner never panics, and every \<open>Stop\<close> that is waiting for its loop can complete.
\<close>

theorem careful_stop:
  assumes "careful_step\<^sup>*\<^sup>* runner_init r"
  shows "\<not> panicked r
     \<and> (\<forall>i d. i < length (stops r) \<and> stops r ! i = Waiting d \<longrightarrow> (\<exists>r'. runner_step\<^sup>*\<^sup>* r r' \<and> stops r' ! i = Stopped))"
  using careful_run_ok [OF assms] stop_completes [of r] by (auto simp: runner_ok_def)

theorem careful_stop_witness:
  "\<exists>r. careful_step\<^sup>*\<^sup>* runner_init r \<and> stops r = [Waiting 0] \<and> \<not> panicked r
     \<and> (\<exists>r'. runner_step\<^sup>*\<^sup>* r r' \<and> stops r' ! 0 = Stopped)"
proof -
  let ?r1 = "Start runner_init"
  let ?r2 = "begin_loop 0 ?r1"
  let ?r3 = "Stop ?r2"
  note defs = Start_def Stop_def runner_init_def begin_loop_def set_loop_def
  have "careful_step runner_init ?r1"
    by (rule careful_step.any, rule runner_step.start) (simp_all add: defs)
  moreover have "careful_step ?r1 ?r2"
    by (rule careful_step.any, rule runner_step.begin_loop) (simp_all add: defs)
  moreover have "careful_step ?r2 ?r3"
    by (rule careful_step.stop) (simp_all add: defs)
  ultimately have run: "careful_step\<^sup>*\<^sup>* runner_init ?r3"
    by (blast intro: rtranclp.rtrancl_into_rtrancl)
  have "stops ?r3 = [Waiting 0]" by (simp add: defs)
  with careful_stop [OF run] run show ?thesis by fastforce
qed

text \<open>
  (C34) Without that care the runner can panic: one \<open>Start\<close> and one \<open>Stop\<close> suffice, when the goroutine
  evaluates the deferred \<open>close(r.done)\<close> only after \<open>Stop\<close> has set the field to nil. When its loop
  returns it closes the nil channel, while \<open>Stop\<close> is still waiting for the channel it took.
\<close>

theorem stop_race_panics:
  "\<exists>r. runner_step\<^sup>*\<^sup>* (Stop (Start runner_init)) r \<and> panicked r \<and> stops r = [Waiting 0] \<and> closed r = []"
proof -
  let ?r2 = "Stop (Start runner_init)"
  let ?r3 = "begin_loop 0 ?r2"
  let ?r4 = "return_loop 0 None ?r3"
  note defs = Start_def Stop_def runner_init_def begin_loop_def set_loop_def return_loop_def close_chan_def
  have "runner_step ?r2 ?r3" by (rule runner_step.begin_loop) (simp_all add: defs)
  moreover have "runner_step ?r3 ?r4" by (rule runner_step.return_loop) (simp_all add: defs)
  ultimately have "runner_step\<^sup>*\<^sup>* ?r2 ?r4"
    by (blast intro: rtranclp.rtrancl_into_rtrancl)
  moreover have "panicked ?r4 \<and> stops ?r4 = [Waiting 0] \<and> closed ?r4 = []" by (simp add: defs)
  ultimately show ?thesis by blast
qed

end
