(* ===== verification/Schema.thy ===== *)
theory Schema
  imports Config
begin

text \<open>
  \<^verbatim>\<open>schema.go\<close> and \<^verbatim>\<open>migrate.go\<close>: the DDL that creates and drops the three tables and their indexes, as
  text, and what executing it does to the relations of the database. A server shortens an
  identifier to 63 bytes, tables and indexes share one name space, and \<open>IF NOT EXISTS\<close> skips a
  statement whose name is taken.
\<close>

section \<open>Statements\<close>

datatype ddl = Create_table string string | Create_index string string string | Drop_table string

fun render :: "ddl \<Rightarrow> string" where
  "render (Create_table name body) = ''CREATE TABLE IF NOT EXISTS '' @ name @ '' ('' @ body @ '')''"
| "render (Create_index idx table rest) =
     ''CREATE INDEX IF NOT EXISTS '' @ idx @ ''\<newline>    ON '' @ table @ rest"
| "render (Drop_table name) = ''DROP TABLE IF EXISTS '' @ name"

definition dedup_body :: string where
  "dedup_body =
     ''\<newline>    message_id     TEXT NOT NULL PRIMARY KEY,'' @
     ''\<newline>    partition_key  VARCHAR(100),'' @
     ''\<newline>    topic          VARCHAR(255) NOT NULL,'' @
     ''\<newline>    source         VARCHAR(100),'' @
     ''\<newline>    first_seen_at  TIMESTAMPTZ NOT NULL DEFAULT now(),'' @
     ''\<newline>    expire_at      TIMESTAMPTZ\<newline>''"

definition hot_body :: string where
  "hot_body =
     ''\<newline>    message_id     TEXT NOT NULL PRIMARY KEY,'' @
     ''\<newline>    partition_key  VARCHAR(100),'' @
     ''\<newline>    topic          VARCHAR(255) NOT NULL,'' @
     ''\<newline>    payload        JSONB NOT NULL,'' @
     ''\<newline>    headers        JSONB,'' @
     ''\<newline>    source         VARCHAR(100),'' @
     ''\<newline>    encrypted      BOOLEAN NOT NULL DEFAULT false,'' @
     ''\<newline>    status         VARCHAR(20) NOT NULL DEFAULT 'PENDING','' @
     ''\<newline>    retry_count    INT NOT NULL DEFAULT 0,'' @
     ''\<newline>    max_retry      INT NOT NULL DEFAULT 0,'' @
     ''\<newline>    next_retry_at  TIMESTAMPTZ,'' @
     ''\<newline>    processing_by  VARCHAR(100),'' @
     ''\<newline>    processing_at  TIMESTAMPTZ,'' @
     ''\<newline>    created_at     TIMESTAMPTZ NOT NULL DEFAULT now(),'' @
     ''\<newline>    processed_at   TIMESTAMPTZ,'' @
     ''\<newline>    last_error     TEXT\<newline>''"

definition archive_body :: string where
  "archive_body =
     ''\<newline>    id             BIGINT GENERATED ALWAYS AS IDENTITY PRIMARY KEY,'' @
     ''\<newline>    message_id     TEXT NOT NULL,'' @
     ''\<newline>    partition_key  VARCHAR(100),'' @
     ''\<newline>    topic          VARCHAR(255) NOT NULL,'' @
     ''\<newline>    payload        JSONB NOT NULL,'' @
     ''\<newline>    headers        JSONB,'' @
     ''\<newline>    source         VARCHAR(100),'' @
     ''\<newline>    encrypted      BOOLEAN NOT NULL DEFAULT false,'' @
     ''\<newline>    final_status   VARCHAR(20) NOT NULL,'' @
     ''\<newline>    retry_count    INT NOT NULL DEFAULT 0,'' @
     ''\<newline>    created_at     TIMESTAMPTZ NOT NULL,'' @
     ''\<newline>    processed_at   TIMESTAMPTZ,'' @
     ''\<newline>    archived_at    TIMESTAMPTZ NOT NULL DEFAULT now(),'' @
     ''\<newline>    last_error     TEXT\<newline>''"

definition index_name :: "string \<Rightarrow> string \<Rightarrow> string" where
  "index_name table suffix = ''idx_'' @ table @ ''_'' @ suffix"

definition schema_ddl :: "string \<Rightarrow> ddl list" where
  "schema_ddl name =
     (let dedup = tableName name ''dedup''; hot = tableName name ''hot''; archive = tableName name ''archive'' in
      [Create_table dedup dedup_body,
       Create_index (index_name dedup ''expire'') dedup '' (expire_at) WHERE expire_at IS NOT NULL'',
       Create_table hot hot_body,
       Create_index (index_name hot ''claim'') hot
         '' (status, next_retry_at, created_at)\<newline>    WHERE status IN ('PENDING', 'RETRY')'',
       Create_index (index_name hot ''failed'') hot ('' (status, processed_at) WHERE status = 'FAILED'' @ [CHR 0x27]),
       Create_table archive archive_body,
       Create_index (index_name archive ''message_id'') archive '' (message_id)'',
       Create_index (index_name archive ''topic'') archive '' (topic, created_at)'',
       Create_index (index_name archive ''archived'') archive '' (archived_at)''])"

definition Schema :: "(string \<Rightarrow> string) \<Rightarrow> string \<Rightarrow> err + string list" where
  "Schema quote name =
     (case assertValidName quote name of
        Some e \<Rightarrow> Inl e
      | None \<Rightarrow> Inr (map render (schema_ddl name)))"

definition drop_ddl :: "string \<Rightarrow> ddl list" where
  "drop_ddl name = [Drop_table (tableName name ''archive''), Drop_table (tableName name ''hot''), Drop_table (tableName name ''dedup'')]"

definition dropSchema :: "(string \<Rightarrow> string) \<Rightarrow> string \<Rightarrow> err + string list" where
  "dropSchema quote name =
     (case assertValidName quote name of
        Some e \<Rightarrow> Inl e
      | None \<Rightarrow> Inr (map render (drop_ddl name)))"

section \<open>Executing them\<close>

text \<open>The relations of a database: tables, and indexes with the table they are on.\<close>

datatype relation = Table string | Index string string

type_synonym catalog = "(string \<times> relation) list"

text \<open>An identifier that is not quoted is folded to lower case before it is shortened.\<close>

definition lower :: "char \<Rightarrow> char" where
  "lower c = (if CHR ''A'' \<le> c \<and> c \<le> CHR ''Z'' then char_of (of_char c + 32 :: nat) else c)"

definition pg_ident :: "string \<Rightarrow> string" where
  "pg_ident s = take 63 (map lower s)"

definition taken :: "catalog \<Rightarrow> string \<Rightarrow> bool" where
  "taken cat s \<longleftrightarrow> pg_ident s \<in> set (map fst cat)"

fun on_table :: "string \<Rightarrow> relation \<Rightarrow> bool" where
  "on_table t (Index u _) = (u = t)"
| "on_table t (Table _) = False"

fun exec_ddl :: "ddl \<Rightarrow> catalog \<Rightarrow> catalog" where
  "exec_ddl (Create_table name body) cat = (if taken cat name then cat else cat @ [(pg_ident name, Table body)])"
| "exec_ddl (Create_index idx table rest) cat =
     (if taken cat idx then cat else cat @ [(pg_ident idx, Index (pg_ident table) rest)])"
| "exec_ddl (Drop_table name) cat = filter (\<lambda>(n, r). n \<noteq> pg_ident name \<and> \<not> on_table (pg_ident name) r) cat"

text \<open>
  The loop of \<open>Migrate\<close> and \<open>DropSchema\<close>: \<open>fault i\<close> is the error the driver reports at statement \<open>i\<close>, if any;
  the statements before it have taken effect.
\<close>

fun run_ddl :: "string \<Rightarrow> (nat \<Rightarrow> string option) \<Rightarrow> nat \<Rightarrow> ddl list \<Rightarrow> catalog \<Rightarrow> err option \<times> catalog" where
  "run_ddl what fault i [] cat = (None, cat)"
| "run_ddl what fault i (st # sts) cat =
     (case fault i of
        Some t \<Rightarrow> (Some (Wrap (what @ '' '' @ show_nat i) (External t)), cat)
      | None \<Rightarrow> run_ddl what fault (Suc i) sts (exec_ddl st cat))"

definition Migrate :: "(string \<Rightarrow> string) \<Rightarrow> (nat \<Rightarrow> string option) \<Rightarrow> string \<Rightarrow> catalog \<Rightarrow> err option \<times> catalog" where
  "Migrate quote fault name cat =
     (case assertValidName quote name of
        Some e \<Rightarrow> (Some e, cat)
      | None \<Rightarrow> run_ddl ''message: migrate statement'' fault 0 (schema_ddl name) cat)"

definition DropSchema :: "(string \<Rightarrow> string) \<Rightarrow> (nat \<Rightarrow> string option) \<Rightarrow> string \<Rightarrow> catalog \<Rightarrow> err option \<times> catalog" where
  "DropSchema quote fault name cat =
     (case assertValidName quote name of
        Some e \<Rightarrow> (Some e, cat)
      | None \<Rightarrow> run_ddl ''message: drop schema statement'' fault 0 (drop_ddl name) cat)"

section \<open>Facts\<close>

text \<open>With a valid name the table names fit, so nothing is cut off them.\<close>

lemma table_identifier:
  assumes "assertValidName q name = None" and "length suffix \<le> 7"
  shows "pg_ident (tableName name suffix) = map lower (tableName name suffix)"
proof -
  have "length (tableName name suffix) \<le> 63"
    using assms by (auto simp: assertValidName_None_iff length_tableName maxNameLen_def)
  then show ?thesis by (simp add: pg_ident_def)
qed

text \<open>Executing a creating statement when its name is taken changes nothing, and takes the name otherwise.\<close>

definition ddl_name :: "ddl \<Rightarrow> string" where
  "ddl_name st = (case st of Create_table n _ \<Rightarrow> n | Create_index n _ _ \<Rightarrow> n | Drop_table n \<Rightarrow> n)"

definition creates :: "ddl \<Rightarrow> bool" where
  "creates st = (case st of Drop_table _ \<Rightarrow> False | _ \<Rightarrow> True)"

lemma exec_taken: "creates st \<Longrightarrow> taken cat (ddl_name st) \<Longrightarrow> exec_ddl st cat = cat"
  by (cases st) (auto simp: creates_def ddl_name_def)

lemma exec_takes: "creates st \<Longrightarrow> taken (exec_ddl st cat) (ddl_name st)"
  by (cases st) (auto simp: creates_def ddl_name_def taken_def)

lemma exec_keeps: "creates st \<Longrightarrow> taken cat n \<Longrightarrow> taken (exec_ddl st cat) n"
  by (cases st) (auto simp: creates_def taken_def)

lemma run_all: "(\<And>j. fault j = None) \<Longrightarrow> run_ddl what fault i sts cat = (None, fold exec_ddl sts cat)"
  by (induction sts arbitrary: i cat) auto

lemma fold_keeps: "list_all creates sts \<Longrightarrow> taken cat n \<Longrightarrow> taken (fold exec_ddl sts cat) n"
  by (induction sts arbitrary: cat) (auto intro: exec_keeps)

lemma fold_takes: "list_all creates sts \<Longrightarrow> st \<in> set sts \<Longrightarrow> taken (fold exec_ddl sts cat) (ddl_name st)"
  by (induction sts arbitrary: cat) (auto intro: fold_keeps exec_takes)

lemma fold_all_taken:
  "list_all creates sts \<Longrightarrow> (\<And>st. st \<in> set sts \<Longrightarrow> taken cat (ddl_name st)) \<Longrightarrow> fold exec_ddl sts cat = cat"
  by (induction sts) (auto simp: exec_taken)

lemma schema_creates: "list_all creates (schema_ddl name)"
  by (simp add: schema_ddl_def creates_def Let_def)

text \<open>A run that stops at a fault has executed a prefix.\<close>

lemma run_prefix: "\<exists>k. snd (run_ddl what fault i sts cat) = fold exec_ddl (take k sts) cat"
proof (induction sts arbitrary: i cat)
  case (Cons st sts)
  show ?case
  proof (cases "fault i")
    case None
    with Cons [of "Suc i" "exec_ddl st cat"] obtain k where
      "snd (run_ddl what fault (Suc i) sts (exec_ddl st cat)) = fold exec_ddl (take k sts) (exec_ddl st cat)" by blast
    with None show ?thesis by (intro exI [of _ "Suc k"]) simp
  next
    case (Some t)
    then show ?thesis by (intro exI [of _ 0]) simp
  qed
qed simp

lemma fold_restart:
  assumes "list_all creates sts"
  shows "fold exec_ddl sts (fold exec_ddl (take k sts) cat) = fold exec_ddl sts cat"
proof -
  have pre: "list_all creates (take k sts)" using assms by (auto simp: list_all_iff dest: in_set_takeD)
  have "fold exec_ddl (take k sts) (fold exec_ddl (take k sts) cat) = fold exec_ddl (take k sts) cat"
    using pre by (intro fold_all_taken) (auto intro: fold_takes)
  then have "fold exec_ddl (take k sts @ drop k sts) (fold exec_ddl (take k sts) cat)
      = fold exec_ddl (take k sts @ drop k sts) cat"
    by (simp only: fold_append comp_apply)
  then show ?thesis by simp
qed

text \<open>
  Names of at most 41 characters leave the nine identifiers different after shortening; then every
  statement creates its relation.
\<close>

definition table_prefix :: "string \<Rightarrow> string" where
  "table_prefix name = (if name = '''' then ''message_'' else ''message_'' @ name @ ''_'')"

lemma tableName_prefix: "tableName name suffix = table_prefix name @ suffix"
  by (simp add: tableName_def table_prefix_def)

lemma index_name_prefix: "index_name (tableName name suffix) s = ''idx_'' @ table_prefix name @ suffix @ ''_'' @ s"
  by (simp add: tableName_prefix index_name_def)

lemma lower_simps [simp]:
  "lower CHR ''a'' = CHR ''a''" "lower CHR ''c'' = CHR ''c''" "lower CHR ''d'' = CHR ''d''" "lower CHR ''e'' = CHR ''e''"
  "lower CHR ''f'' = CHR ''f''" "lower CHR ''h'' = CHR ''h''" "lower CHR ''i'' = CHR ''i''" "lower CHR ''m'' = CHR ''m''"
  "lower CHR ''o'' = CHR ''o''" "lower CHR ''x'' = CHR ''x''" "lower CHR ''p'' = CHR ''p''" "lower CHR ''r'' = CHR ''r''" "lower CHR ''v'' = CHR ''v''" "lower CHR ''u'' = CHR ''u''" "lower CHR ''s'' = CHR ''s''" "lower CHR ''g'' = CHR ''g''" "lower CHR ''t'' = CHR ''t''" "lower CHR ''_'' = CHR ''_''"
  by (simp_all add: lower_def less_eq_char_def)

lemma pg_ident_prefix: "length pre \<le> 63 \<Longrightarrow> pg_ident (pre @ cs) = map lower pre @ take (63 - length pre) (map lower cs)"
  by (simp add: pg_ident_def)

lemma pg_ident_index:
  fixes name suffix :: string and c :: char
  assumes "length name \<le> 41" and "length suffix \<le> 7"
  defines "pre \<equiv> ''idx_'' @ table_prefix name @ suffix @ ''_'' @ [c]"
  shows "pg_ident (index_name (tableName name suffix) (c # cs)) = map lower pre @ take (63 - length pre) (map lower cs)"
proof -
  have "length pre \<le> 63" using assms(1,2) by (simp add: pre_def table_prefix_def)
  then have "pg_ident (pre @ cs) = map lower pre @ take (63 - length pre) (map lower cs)" by (rule pg_ident_prefix)
  moreover have "index_name (tableName name suffix) (c # cs) = pre @ cs" by (simp add: index_name_prefix pre_def)
  ultimately show ?thesis by simp
qed

lemma schema_distinct:
  assumes "assertValidName q name = None" and "length name \<le> 41"
  shows "distinct (map (pg_ident \<circ> ddl_name) (schema_ddl name))"
proof -
  obtain pre where pre: "map lower (table_prefix name) = CHR ''m'' # pre"
    by (cases "name = []") (simp_all add: table_prefix_def)
  have tab: "pg_ident (tableName name suffix) = CHR ''m'' # pre @ map lower suffix" if "length suffix \<le> 7" for suffix
    using table_identifier [OF assms(1) that] by (simp add: tableName_prefix pre)
  define R where "R suffix c cs = take (63 - length (''idx_'' @ table_prefix name @ suffix @ ''_'' @ [c])) (map lower cs)"
    for suffix :: string and c :: char and cs :: string
  have idx: "pg_ident (index_name (tableName name suffix) (c # cs))
      = ''idx_m'' @ pre @ map lower suffix @ CHR ''_'' # lower c # R suffix c cs" if "length suffix \<le> 7" for suffix c cs
    unfolding pg_ident_index [OF assms(2) that] R_def by (simp add: pre)
  show ?thesis by (simp add: schema_ddl_def ddl_name_def Let_def tab idx)
qed

lemma fold_exec_fresh:
  assumes "list_all creates sts" and "distinct (map (pg_ident \<circ> ddl_name) sts)"
    and "\<And>st. st \<in> set sts \<Longrightarrow> \<not> taken cat (ddl_name st)"
  shows "map fst (fold exec_ddl sts cat) = map fst cat @ map (pg_ident \<circ> ddl_name) sts"
  using assms
proof (induction sts arbitrary: cat)
  case (Cons st sts)
  have e: "map fst (exec_ddl st cat) = map fst cat @ [pg_ident (ddl_name st)]"
    using Cons.prems(1) Cons.prems(3) [of st] by (cases st) (auto simp: creates_def ddl_name_def)
  have "\<not> taken (exec_ddl st cat) (ddl_name st')" if "st' \<in> set sts" for st'
  proof -
    have "pg_ident (ddl_name st') \<noteq> pg_ident (ddl_name st)" using that Cons.prems(2) by (auto simp: image_iff)
    then show ?thesis using Cons.prems(3) [of st'] that e by (simp add: taken_def)
  qed
  with Cons e show ?case by simp
qed simp


text \<open>What a run of creating statements adds, and that dropping the tables takes it away again.\<close>

definition belongs :: "string list \<Rightarrow> string \<times> relation \<Rightarrow> bool" where
  "belongs ts e \<longleftrightarrow> (case e of (n, Table _) \<Rightarrow> n \<in> set ts | (n, Index t _) \<Rightarrow> t \<in> set ts)"

fun ddl_table :: "ddl \<Rightarrow> string" where
  "ddl_table (Create_table n _) = n"
| "ddl_table (Create_index _ t _) = t"
| "ddl_table (Drop_table n) = n"

lemma fold_exec_adds:
  "list_all (\<lambda>st. creates st \<and> pg_ident (ddl_table st) \<in> set ts) sts
     \<Longrightarrow> \<exists>new. fold exec_ddl sts cat = cat @ new \<and> list_all (belongs ts) new"
proof (induction sts arbitrary: cat)
  case (Cons st sts)
  have "\<exists>new. exec_ddl st cat = cat @ new \<and> list_all (belongs ts) new"
    using Cons.prems by (cases st) (auto simp: creates_def belongs_def)
  then obtain a where a: "exec_ddl st cat = cat @ a" "list_all (belongs ts) a" by blast
  obtain b where "fold exec_ddl sts (cat @ a) = (cat @ a) @ b" "list_all (belongs ts) b"
    using Cons.IH [of "cat @ a"] Cons.prems by auto
  then show ?case using a by (intro exI [of _ "a @ b"]) simp
qed simp

definition untouched :: "string list \<Rightarrow> string \<times> relation \<Rightarrow> bool" where
  "untouched ts e \<longleftrightarrow> fst e \<notin> set ts \<and> \<not> belongs ts e"

lemma fold_drop: "fold exec_ddl (map Drop_table ns) cat = filter (untouched (map pg_ident ns)) cat"
proof (induction ns arbitrary: cat)
  case (Cons n ns)
  have "(case e of (m, r) \<Rightarrow> m \<noteq> pg_ident n \<and> \<not> on_table (pg_ident n) r) \<and> untouched (map pg_ident ns) e
      \<longleftrightarrow> untouched (map pg_ident (n # ns)) e" for e
    by (cases e; cases "snd e") (auto simp: untouched_def belongs_def)
  with Cons show ?case by (simp add: conj_commute)
qed (simp add: untouched_def belongs_def split: relation.split prod.split)

definition tables_of :: "string \<Rightarrow> string list" where
  "tables_of name = map pg_ident [tableName name ''archive'', tableName name ''hot'', tableName name ''dedup'']"

lemma schema_belongs: "list_all (\<lambda>st. creates st \<and> pg_ident (ddl_table st) \<in> set (tables_of name)) (schema_ddl name)"
  by (simp add: schema_ddl_def creates_def tables_of_def Let_def)

lemma drop_fold: "fold exec_ddl (drop_ddl name) cat = filter (untouched (tables_of name)) cat"
  using fold_drop [of "[tableName name ''archive'', tableName name ''hot'', tableName name ''dedup'']" cat]
  by (simp only: drop_ddl_def tables_of_def list.map)

end
