(* ===== verification/Schema_Properties.thy ===== *)
theory Schema_Properties
  imports Schema
begin

text \<open>
  The properties of \<^verbatim>\<open>schema.go\<close> and \<^verbatim>\<open>migrate.go\<close>: what \<open>Migrate\<close> creates, that it can be repeated and
  resumed, that \<open>DropSchema\<close> undoes it, and what happens to the indexes of long names.
\<close>

abbreviation no_fault :: "nat \<Rightarrow> string option" where
  "no_fault \<equiv> \<lambda>_. None"

lemma Migrate_run:
  assumes "assertValidName q name = None"
  shows "Migrate q no_fault name cat = (None, fold exec_ddl (schema_ddl name) cat)"
  using assms by (simp add: Migrate_def run_all)

lemma DropSchema_run:
  assumes "assertValidName q name = None"
  shows "DropSchema q no_fault name cat = (None, filter (untouched (tables_of name)) cat)"
  using assms by (simp add: DropSchema_def run_all drop_fold)

lemma valid_asset: "assertValidName (\<lambda>s. s) ''asset'' = None"
  by (simp add: assertValidName_def nameRegex_match_def is_letter_def maxNameLen_def less_eq_char_def)

text \<open>
  (C35) For a valid name of at most 41 characters, \<open>Migrate\<close> on a database where none of the nine
  names is taken creates nine relations with nine different names, in the order of the statements.
\<close>

theorem migrate_creates_all:
  assumes "assertValidName q name = None" and "length name \<le> 41"
    and "list_all (\<lambda>st. \<not> taken cat (ddl_name st)) (schema_ddl name)"
  shows "\<exists>cat'. Migrate q no_fault name cat = (None, cat')
     \<and> map fst cat' = map fst cat @ map (pg_ident \<circ> ddl_name) (schema_ddl name)
     \<and> distinct (map (pg_ident \<circ> ddl_name) (schema_ddl name)) \<and> length cat' = length cat + 9"
proof -
  let ?cat = "fold exec_ddl (schema_ddl name) cat"
  have names: "map fst ?cat = map fst cat @ map (pg_ident \<circ> ddl_name) (schema_ddl name)"
    using assms(3) by (intro fold_exec_fresh schema_creates schema_distinct [OF assms(1,2)]) (auto simp: list_all_iff)
  moreover have "length (schema_ddl name) = 9" by (simp add: schema_ddl_def Let_def)
  ultimately have "length ?cat = length cat + 9" by (metis length_append length_map)
  then show ?thesis using names schema_distinct [OF assms(1,2)] Migrate_run [OF assms(1)] by simp
qed

theorem migrate_creates_all_witness:
  "\<exists>cat'. Migrate (\<lambda>s. s) no_fault ''asset'' [] = (None, cat') \<and> length cat' = 9"
  using migrate_creates_all [OF valid_asset, of "[]"] by (auto simp: taken_def list_all_iff)


text \<open>
  (C37) \<open>DropSchema\<close> undoes \<open>Migrate\<close>: on a database without relations of this instance, migrating and
  dropping gives back the database as it was, relations of other instances included.
\<close>

theorem drop_undoes_migrate:
  assumes "assertValidName q name = None" and "list_all (untouched (tables_of name)) cat"
  shows "DropSchema q no_fault name (snd (Migrate q no_fault name cat)) = (None, cat)"
proof -
  obtain new where new: "fold exec_ddl (schema_ddl name) cat = cat @ new" "list_all (belongs (tables_of name)) new"
    using fold_exec_adds [OF schema_belongs] by blast
  have "filter (untouched (tables_of name)) new = []"
    using new(2) by (auto simp: filter_empty_conv list_all_iff untouched_def)
  moreover have "filter (untouched (tables_of name)) cat = cat" using assms(2) by (simp add: list_all_iff filter_id_conv)
  ultimately show ?thesis by (simp add: Migrate_run [OF assms(1)] DropSchema_run [OF assms(1)] new(1))
qed

theorem drop_undoes_migrate_witness:
  "DropSchema (\<lambda>s. s) no_fault ''asset'' (snd (Migrate (\<lambda>s. s) no_fault ''asset'' [(''other'', Table ''x'')]))
     = (None, [(''other'', Table ''x'')])"
  by (rule drop_undoes_migrate [OF valid_asset])
     (simp add: untouched_def belongs_def tables_of_def tableName_def pg_ident_def lower_def less_eq_char_def)

text \<open>The three indexes of the archive of a name of 42 or more characters have one identifier.\<close>

lemma long_archive_index:
  assumes "42 \<le> length name"
  shows "pg_ident (index_name (tableName name ''archive'') s) = take 63 (map lower (''idx_'' @ tableName name ''archive_''))"
proof -
  have "index_name (tableName name ''archive'') s = (''idx_'' @ tableName name ''archive_'') @ s"
    by (simp add: index_name_def tableName_prefix)
  moreover have "63 \<le> length (''idx_'' @ tableName name ''archive_'')"
    using assms by (auto simp: tableName_def)
  ultimately show ?thesis by (simp add: pg_ident_def)
qed

lemma long_index_skipped:
  assumes "42 \<le> length name"
  shows "exec_ddl (Create_index (index_name (tableName name ''archive'') s) t r)
      (exec_ddl (Create_index (index_name (tableName name ''archive'') s') t' r') cat)
    = exec_ddl (Create_index (index_name (tableName name ''archive'') s') t' r') cat"
  by (simp add: taken_def long_archive_index [OF assms])

text \<open>
  (C38) A valid name of 42 to 47 characters: \<open>Migrate\<close> succeeds, but the indexes on \<open>topic\<close> and on
  \<open>archived_at\<close> of the archive are never created, because their identifiers, shortened to 63
  bytes, are that of the index on \<open>message_id\<close>.
\<close>

theorem long_name_loses_indexes:
  assumes "assertValidName q name = None" and "42 \<le> length name"
  shows "\<exists>cat'. Migrate q no_fault name [] = (None, cat')
     \<and> (\<forall>n t. (n, Index t '' (archived_at)'') \<notin> set cat' \<and> (n, Index t '' (topic, created_at)'') \<notin> set cat')"
proof -
  let ?cat = "fold exec_ddl (schema_ddl name) []"
  have "\<exists>c. ?cat = exec_ddl (Create_index (index_name (tableName name ''archive'') ''message_id'')
      (tableName name ''archive'') '' (message_id)'') c \<and> (\<forall>n t. (n, Index t '' (archived_at)'') \<notin> set c
        \<and> (n, Index t '' (topic, created_at)'') \<notin> set c)"
    by (simp add: schema_ddl_def Let_def long_index_skipped [OF assms(2)] del: exec_ddl.simps)
       (intro exI conjI, rule refl, auto)
  then show ?thesis by (auto simp: Migrate_run [OF assms(1)] split: if_splits)
qed

lemma valid_long: "assertValidName (\<lambda>s. s) (replicate 42 CHR ''a'') = None"
  by (simp add: assertValidName_def nameRegex_match_def is_letter_def maxNameLen_def less_eq_char_def list_all_iff)

theorem long_name_loses_indexes_witness:
  "\<exists>cat'. Migrate (\<lambda>s. s) no_fault (replicate 42 CHR ''a'') [] = (None, cat')
     \<and> (\<forall>n t. (n, Index t '' (archived_at)'') \<notin> set cat')"
  using long_name_loses_indexes [OF valid_long] by auto

end
