(* ===== verification/Lifecycle.thy ===== *)
theory Lifecycle
  imports Cleanup_Facts Samples
begin

text \<open>
  The whole system: any number of instances of the library on the same tables, each with any
  configuration and handlers. A state is the world together with the messages that have been
  claimed and whose goroutines have not begun (\<open>in_flight\<close>), and those whose handler has returned and
  whose result has not been recorded yet (\<open>returned\<close>). The steps are the exported operations
  themselves and the parts of \<open>handleOne\<close>, in any order, with faults, crashes and the passage of time
  in between; so a message may be recovered and claimed by another worker while a handler runs.
\<close>

section \<open>The transition system\<close>

record system =
  sys_world :: world
  in_flight :: "(messaging \<times> message) list"
  returned :: "(messaging \<times> message \<times> err option) list"

text \<open>
  \<open>A\<close> limits the run: purging the archive and deleting deduplication entries are steps only when \<open>A\<close>
  has that kind of change, and the handlers' own changes of the tables are of the kinds in \<open>A\<close>.
\<close>

inductive sys_step :: "ext \<Rightarrow> act set \<Rightarrow> system \<Rightarrow> system \<Rightarrow> bool" for x A where
  receive: "Receive x m False msg (sys_world s) = (r, msg', w) \<Longrightarrow> sys_step x A s (s\<lparr>sys_world := w\<rparr>)"
| enqueue: "Enqueue x m False msg (sys_world s) = (e, msg', w) \<Longrightarrow> sys_step x A s (s\<lparr>sys_world := w\<rparr>)"
| enqueue_batch: "EnqueueBatch x m False msgs (sys_world s) = (e, msgs', w) \<Longrightarrow> sys_step x A s (s\<lparr>sys_world := w\<rparr>)"
| claim: "claimBatch x (m_store m) sz (sys_world s) = (Inr ms, w)
     \<Longrightarrow> sys_step x A s (s\<lparr>sys_world := w, in_flight := in_flight s @ map (Pair m) ms\<rparr>)"
| claim_failed: "claimBatch x (m_store (m :: messaging)) sz (sys_world s) = (Inl e, w) \<Longrightarrow> sys_step x A s (s\<lparr>sys_world := w\<rparr>)"
| handle: "(m, msg) \<in> set (in_flight s) \<Longrightarrow> routes_keep A m h
     \<Longrightarrow> sys_step x A s (s\<lparr>sys_world := process_one x m h co (msg, slot) (sys_world s),
           in_flight := remove1 (m, msg) (in_flight s)\<rparr>)"
| run_handler: "(m, msg) \<in> set (in_flight s) \<Longrightarrow> route m h co msg = Some reg \<Longrightarrow> keeps_tables A (t_handler reg)
     \<Longrightarrow> (if Encrypted msg then hydrate (gtexts x) (m_store m) msg else (msg, None)) = (msg1, None)
     \<Longrightarrow> t_handler reg (handlerCtx (m_cfg m) (t_opts reg)) msg1 (sys_world s) = (e, msg', w)
     \<Longrightarrow> sys_step x A s (s\<lparr>sys_world := w, in_flight := remove1 (m, msg) (in_flight s),
           returned := returned s @ [(m, msg', e)]\<rparr>)"
| record_result: "(m, msg, e) \<in> set (returned s)
     \<Longrightarrow> sys_step x A s (s\<lparr>sys_world := handle_result x m msg e (sys_world s),
           returned := remove1 (m, msg, e) (returned s)\<rparr>)"
| crash: "sys_step x A s (s\<lparr>in_flight := filter P (in_flight s), returned := filter Q (returned s)\<rparr>)"
| dead_letter: "DeadLetter x mid reason (sys_world s) = (e, w) \<Longrightarrow> sys_step x A s (s\<lparr>sys_world := w\<rparr>)"
| retry_failed: "RetryFailed x o1 (sys_world s) = (r, w) \<Longrightarrow> sys_step x A s (s\<lparr>sys_world := w\<rparr>)"
| retry_all: "RetryAllFailed x o2 (sys_world s) = Some (r, w) \<Longrightarrow> sys_step x A s (s\<lparr>sys_world := w\<rparr>)"
| retry_one: "RetryOne x mid (sys_world s) = (e, w) \<Longrightarrow> sys_step x A s (s\<lparr>sys_world := w\<rparr>)"
| recover: "RecoverStuck x m (sys_world s) = (r, w) \<Longrightarrow> sys_step x A s (s\<lparr>sys_world := w\<rparr>)"
| archive_exhausted: "ArchiveExhausted x m b (sys_world s) = (r, w) \<Longrightarrow> sys_step x A s (s\<lparr>sys_world := w\<rparr>)"
| remove_dedup: "Del_dedup \<in> A \<Longrightarrow> RemoveDedup x mid (sys_world s) = (r, w) \<Longrightarrow> sys_step x A s (s\<lparr>sys_world := w\<rparr>)"
| purge_dedup: "Del_dedup \<in> A \<Longrightarrow> PurgeExpiredDedup x m b (sys_world s) = Some (r, w) \<Longrightarrow> sys_step x A s (s\<lparr>sys_world := w\<rparr>)"
| run_all: "Del_dedup \<in> A \<Longrightarrow> RunAll x m (sys_world s) = Some (r, w) \<Longrightarrow> sys_step x A s (s\<lparr>sys_world := w\<rparr>)"
| purge_archive: "Del_archive \<in> A \<Longrightarrow> PurgeOldArchive x m ms b (sys_world s) = Some (r, w) \<Longrightarrow> sys_step x A s (s\<lparr>sys_world := w\<rparr>)"
| environment: "tabs w = tabs (sys_world s) \<Longrightarrow> sys_step x A s (s\<lparr>sys_world := w\<rparr>)"

abbreviation stabs :: "system \<Rightarrow> tables" where
  "stabs s \<equiv> tabs (sys_world s)"

section \<open>Every step is a run of atomic changes\<close>

definition sys_acts :: "act set \<Rightarrow> act set" where
  "sys_acts A = A \<union> {Add_hot, Add_dedup, Move, Finish, Burn_ids}"

lemma Enqueue_runs:
  assumes "Enqueue x m False msg w = (res, msg', w')"
  shows "runs {Add_hot} (tabs w) (tabs w')"
  using assms
proof (cases rule: Enqueue_outcome)
  case (inserted f q now)
  note p = hot_row_of_args_pending [OF inserted(1)]
  have "table_step Add_hot (tabs w) ((tabs w)\<lparr>hot := hot (tabs w) @ [q]\<rparr>)" if "h_message_id q \<notin> set (ids (hot (tabs w)))"
    using that p by (intro table_step.Add_hot) auto
  then show ?thesis unfolding inserted(2) insert_new_def by (auto intro: runs_step)
qed simp

lemma runs_insert_all:
  "list_all (\<lambda>q. row_ok q \<and> h_status q = StatusPending) qs \<Longrightarrow> runs {Add_hot} t (t\<lparr>hot := fold insert_new qs (hot t)\<rparr>)"
proof (induction qs arbitrary: t)
  case (Cons q qs)
  have "runs {Add_hot} t (t\<lparr>hot := insert_new q (hot t)\<rparr>)"
    using Cons.prems table_step.Add_hot [of q t] by (auto simp: insert_new_def intro: runs_step)
  moreover have "runs {Add_hot} (t\<lparr>hot := insert_new q (hot t)\<rparr>) (t\<lparr>hot := fold insert_new (q # qs) (hot t)\<rparr>)"
    using Cons.IH [of "t\<lparr>hot := insert_new q (hot t)\<rparr>"] Cons.prems by simp
  ultimately show ?case by (rule runs_trans)
qed simp

lemma EnqueueBatch_runs:
  assumes "EnqueueBatch x m False msgs w = (res, msgs', w')"
  shows "runs {Add_hot} (tabs w) (tabs w')"
  using assms
proof (cases rule: EnqueueBatch_outcome)
  case (inserted fs qs now)
  have "\<exists>m' f. hot_row_of_args x (hot_args (m_store m) m' f now) = Inr q" if "q \<in> set qs" for q
    using list_all2_member [OF inserted(2) that] by auto
  then have "list_all (\<lambda>q. row_ok q \<and> h_status q = StatusPending) qs"
    using hot_row_of_args_pending by (fastforce simp: list_all_iff)
  then show ?thesis unfolding inserted(3) by (rule runs_insert_all)
qed simp

lemma loops_run:
  assumes "tables_ok (tabs w)"
  shows "RetryAllFailed x o2 w = Some (r, w') \<Longrightarrow> runs {Move} (tabs w) (tabs w')"
    and "PurgeExpiredDedup x m b w = Some (r, w') \<Longrightarrow> runs {Del_dedup} (tabs w) (tabs w')"
    and "PurgeOldArchive x m ms b w = Some (r, w') \<Longrightarrow> runs {Del_archive} (tabs w) (tabs w')"
    and "RunAll x m w = Some (r', w') \<Longrightarrow> runs {Del_dedup, Move, Finish, Burn_ids} (tabs w) (tabs w')"
  using retry_all.drain_returns [OF assms, of x "ra_Filter o2" "app_now w" "ra_BatchSize o2" 0]
    purge_dedup.drain_returns [OF assms, of x "dedupTbl (m_store m)" b 0]
    purge_archive.drain_returns [OF assms, of x "archTbl (m_store m)" x ms b 0]
    RunAll_returns [OF assms, of x m]
  by (auto simp: RetryAllFailed_drain PurgeExpiredDedup_drain PurgeOldArchive_drain)

lemma DeadLetter_runs: "DeadLetter x mid reason w = (e, w') \<Longrightarrow> tables_ok (tabs w) \<Longrightarrow> runs {Move} (tabs w) (tabs w')"
  unfolding DeadLetter_def by (rule deadLetter_runs)

lemma handler_runs:
  "keeps_tables A h \<Longrightarrow> h c msg w = (e, msg', w') \<Longrightarrow> tables_ok (tabs w) \<Longrightarrow> runs A (tabs w) (tabs w')"
  by (auto simp: keeps_tables_def split: prod.splits)

lemmas operation_runs = Receive_runs Enqueue_runs EnqueueBatch_runs claimBatch_runs process_one_runs handler_runs
  handle_result_runs DeadLetter_runs
  RetryFailed_runs RetryOne_runs RecoverStuck_runs ArchiveExhausted_runs RemoveDedup_runs loops_run

lemma sys_step_runs:
  assumes "sys_step x A s s'" and "tables_ok (stabs s)"
  shows "runs (sys_acts A) (stabs s) (stabs s')"
  using assms
  by (induction rule: sys_step.induct) (auto simp: sys_acts_def elim!: runs_mono dest: operation_runs)


section \<open>What holds in every run\<close>

abbreviation sys_run :: "ext \<Rightarrow> act set \<Rightarrow> system \<Rightarrow> system \<Rightarrow> bool" where
  "sys_run x A \<equiv> (sys_step x A)\<^sup>*\<^sup>*"

lemma sys_run_runs:
  assumes "sys_run x A s s'" and "tables_ok (stabs s)"
  shows "runs (sys_acts A) (stabs s) (stabs s')"
  using assms(1)
proof (induction rule: rtranclp_induct)
  case (step s1 s2)
  then show ?case using sys_step_runs [OF step(2)] tables_ok_runs [OF step(3) assms(2)] runs_trans by blast
qed simp

text \<open>
  (C1) Refinement: whatever the instances do and in whatever order, with any faults, crashes and
  interleaving of handlers, what happens to the three tables is a sequence of the atomic changes
  of the abstract specification (a message is added, moves along its life cycle, leaves for the
  archive together with the row that records it, ...), and the tables stay well-formed: ids are
  unique, the columns of every row agree with its status, archive numbers are never reused.
\<close>

theorem system_refines_spec:
  assumes "sys_run x A s s'" and "tables_ok (stabs s)"
  shows "runs (A \<union> {Add_hot, Add_dedup, Move, Finish, Burn_ids}) (stabs s) (stabs s') \<and> tables_ok (stabs s')"
  using sys_run_runs [OF assms] tables_ok_runs assms(2) unfolding sys_acts_def by blast

definition start :: system where
  "start = \<lparr>sys_world = two_waiting, in_flight = [], returned = []\<rparr>"

lemma sample_run:
  assumes "claimBatch pg store0 1 two_waiting = (Inr ms, w)"
  shows "sys_run pg {} start \<lparr>sys_world = w, in_flight = [], returned = []\<rparr>"
proof -
  have "sys_step pg {} start (start\<lparr>sys_world := w, in_flight := in_flight start @ map (Pair m0) ms\<rparr>)"
    using assms by (intro sys_step.claim) (simp add: start_def m0_def)
  moreover have "sys_step pg {} (start\<lparr>sys_world := w, in_flight := in_flight start @ map (Pair m0) ms\<rparr>)
      \<lparr>sys_world = w, in_flight = [], returned = []\<rparr>"
    using sys_step.crash [of pg "{}" "start\<lparr>sys_world := w, in_flight := in_flight start @ map (Pair m0) ms\<rparr>" "\<lambda>_. False" "\<lambda>_. False"]
    by (simp add: start_def)
  ultimately show ?thesis by (blast intro: rtranclp.rtrancl_into_rtrancl)
qed

theorem system_refines_spec_witness:
  "\<exists>s. sys_run pg {} start s \<and> runs {Add_hot, Add_dedup, Move, Finish, Burn_ids} (stabs start) (stabs s)"
proof -
  obtain ms w where c: "claimBatch pg store0 1 two_waiting = (Inr ms, w)" using two_waiting_claim by blast
  have "tables_ok (stabs start)" using two_waiting_ok by (simp add: start_def)
  from system_refines_spec [OF sample_run [OF c] this] sample_run [OF c] show ?thesis by auto
qed

text \<open>
  (C2) No message is lost: as long as the archive is not purged, a message that is in the hot table at
  some point is, after any run of the system with crashes and faults, still in the hot table with
  its id, topic, payload and headers, or in the archive in a row made from it since.
\<close>

theorem no_message_lost:
  assumes "sys_run x A s s'" and "tables_ok (stabs s)" and "Del_archive \<notin> A" and "r \<in> set (hot (stabs s))"
  shows "safe (arch_seq (stabs s)) r (stabs s')"
  by (rule safe_runs [OF sys_run_runs [OF assms(1,2)] _ assms(2,4)]) (use assms(3) in \<open>simp add: sys_acts_def\<close>)

theorem no_message_lost_witness:
  "\<exists>s. sys_run pg {} start s \<and> safe (arch_seq (stabs start)) (msg_row ''a'' 10) (stabs s)"
proof -
  obtain ms w where c: "claimBatch pg store0 1 two_waiting = (Inr ms, w)" using two_waiting_claim by blast
  have ok: "tables_ok (stabs start)" using two_waiting_ok by (simp add: start_def)
  have "msg_row ''a'' 10 \<in> set (hot (stabs start))" by (simp add: start_def two_waiting_def world0_def tabs0_def)
  with no_message_lost [OF sample_run [OF c] ok] sample_run [OF c] show ?thesis by auto
qed

section \<open>Results that come too late\<close>

text \<open>
  (C12) A result that is recorded by a worker that does not own the row any more (it was recovered,
  claimed by another worker, finished, dead-lettered or re-queued while the handler ran) is
  harmless: whether the handler succeeded or failed and whatever call fails, no row of any
  table changes and no metric is emitted.
\<close>

theorem late_result_harmless:
  fixes x :: ext and m :: messaging and msg :: message and w :: world and e :: "err option"
  assumes "tables_ok (tabs w)" and "\<not> owned_by (hot (tabs w)) (MessageID msg) (WorkerID (s_cfg (m_store m)))"
  defines "w' \<equiv> handle_result x m msg e w"
  shows "(\<exists>k. tabs w' = (tabs w)\<lparr>arch_seq := k\<rparr>)
     \<and> obs w' \<in> {obs w, obs w @ [Log ERROR ''process.archive_error'' msg]}"
proof (cases e)
  case (Some err)
  let ?k = "wrap64 (RetryCount msg + 1)"
  obtain r1 w1 where r: "markRetry x (m_store m) (MessageID msg) ?k
      (app_now w + Next (f64_conv x) (the (m_backoff m)) ?k) (error_text err) w = (r1, w1)" by fastforce
  obtain r2 w2 where f: "markFailed x (m_store m) (MessageID msg) (error_text err) w = (r2, w2)" by fastforce
  have "tabs w1 = tabs w \<and> tabs w2 = tabs w \<and> r1 \<noteq> Inr True \<and> r2 \<noteq> Inr True"
    by (rule not_owner_unchanged [OF r f assms(1,2)])
  then have "w' \<in> {w1, w2} \<and> tabs w' = tabs w"
    using Some r f by (auto simp: w'_def handle_result_def handleRetry_def Let_def split: sum.splits bool.splits)
  moreover have "obs w1 = obs w \<and> obs w2 = obs w" using store_obs(2) [OF r] store_obs(3) [OF f] by simp
  ultimately show ?thesis by (auto intro: exI [of _ "arch_seq (tabs w)"])
next
  case None
  obtain res w1 where d: "markDoneAndArchive x (m_store m) (MessageID msg) (app_now w) w = (res, w1)" by fastforce
  have w': "tabs w' = tabs w1" "res \<noteq> Inr True \<Longrightarrow> obs w' \<in> {obs w1, obs w1 @ [Log ERROR ''process.archive_error'' msg]}"
    using None d by (auto simp: w'_def handle_result_def split: sum.splits bool.splits)
  have ok: "hot_ok (hot (tabs w))" using assms(1) by (simp add: tables_ok_def)
  from d ok have "(\<exists>k. tabs w1 = (tabs w)\<lparr>arch_seq := k\<rparr>) \<and> res \<noteq> Inr True"
  proof (cases rule: markDoneAndArchive_cases)
    case not_owner
    then show ?thesis by (auto intro: exI [of _ "arch_seq (tabs w)"])
  next
    case (moved r now)
    then show ?thesis using assms(2) by (simp add: owned_by_sel)
  qed auto
  then show ?thesis using w' markDoneAndArchive_obs [OF d] by simp
qed

theorem late_result_harmless_witness:
  "\<exists>k. tabs (handle_result pg m0 (new_message ''b'' ''orders'' ''{}'') None one_taken) = (tabs one_taken)\<lparr>arch_seq := k\<rparr>"
proof -
  have "\<not> owned_by (hot (tabs one_taken)) (MessageID (new_message ''b'' ''orders'' ''{}'')) (WorkerID (s_cfg (m_store m0)))"
    by (simp add: owned_by_sel one_taken_def eval_simps new_message_def)
  from late_result_harmless [OF one_taken_ok this] show ?thesis by blast
qed

end
