(* ===== verification/Crash_Loop.thy ===== *)
theory Crash_Loop
  imports Cleanup_Facts Store_Properties
begin

text \<open>
  Why recovery ends: a message whose handler always kills its worker goes round between
  \<open>claimBatch\<close> (\<^verbatim>\<open>store.go\<close>) and \<open>RecoverStuck\<close> (\<^verbatim>\<open>cleanup.go\<close>). Here any number of workers claim and recover, in any
  order, at any time and with any faults, and the hand-outs of one message are counted.
\<close>

section \<open>Claims and recoveries\<close>

datatype crash_op = Claim store int | Recover messaging

fun crash_run :: "ext \<Rightarrow> string \<Rightarrow> crash_op list \<Rightarrow> world \<Rightarrow> nat \<times> world" where
  "crash_run x mid [] w = (0, w)"
| "crash_run x mid (Claim s sz # ops) w =
     (case claimBatch x s sz w of
        (Inl e, w1) \<Rightarrow> crash_run x mid ops w1
      | (Inr ms, w1) \<Rightarrow>
          (case crash_run x mid ops w1 of
             (k, w2) \<Rightarrow> (if mid \<in> MessageID ` set ms then k + 1 else k, w2)))"
| "crash_run x mid (Recover m # ops) w = crash_run x mid ops (snd (RecoverStuck x m w))"

section \<open>What one step does to the row\<close>

lemma claim_spec_row:
  assumes spec: "claim_spec wk n locked now rs rows rs'" and dist: "distinct (ids rs)" and row: "row_of rs mid = Some r"
  shows "if mid \<in> set (ids rows)
     then row_of rs' mid = Some (claim_set wk now r) \<and> h_status r \<in> {StatusPending, StatusRetry}
     else row_of rs' mid = Some r"
proof (cases "mid \<in> set (ids rows)")
  case True
  then obtain r' where r': "row_of rows mid = Some r'" using row_of_None_iff [of rows mid] by auto
  from spec have cand: "\<forall>r' \<in> set rows. \<exists>q \<in> set (candidates locked now rs). r' = claim_set wk now q"
    and look: "row_of rs' mid = row_of rows mid" using True by (simp_all add: claim_spec_def)
  obtain q where q: "q \<in> set (candidates locked now rs)" "r' = claim_set wk now q"
    using cand row_of_Some [OF r'] by blast
  then have "h_message_id q = mid" using row_of_Some [OF r'] by simp
  then have "q = r" using row_of_mem [OF dist, of q] row q(1) by (simp add: candidates_def)
  with q r' look True show ?thesis by (simp add: candidates_def due_def)
qed (use spec row in \<open>auto simp: claim_spec_def\<close>)

lemma claim_row:
  assumes "claimBatch x s sz w = (res, w')" and "tables_ok (tabs w)" and row: "row_of (hot (tabs w)) mid = Some r"
  obtains (kept) "row_of (hot (tabs w')) mid = Some r" "\<And>ms. res = Inr ms \<Longrightarrow> mid \<notin> MessageID ` set ms"
  | (taken) wk now where "row_of (hot (tabs w')) mid = Some (claim_set wk now r)" "h_status r \<in> {StatusPending, StatusRetry}"
proof -
  let ?st = "sql_claim x (WorkerID (s_cfg s)) sz"
  have ok: "hot_ok (hot (tabs w))" and dist: "distinct (ids (hot (tabs w)))"
    using assms(2) by (simp_all add: tables_ok_def hot_ok_def)
  show thesis
  proof (cases res)
    case (Inr ms)
    obtain wk locked rows where
      spec: "claim_spec wk (nat sz) locked (db_now w') (hot (tabs w)) rows (hot (tabs w'))"
      and ids: "map MessageID ms = ids rows"
      using claimBatch_Inr [OF assms(1) [unfolded Inr] ok] by metis
    have "MessageID ` set ms = set (ids rows)" by (simp flip: ids)
    then show ?thesis using claim_spec_row [OF spec dist row] kept taken Inr by (auto split: if_splits)
  next
    case (Inl e)
    obtain q where "query x DB ?st w = (q, w')"
      using assms(1) by (auto simp: claimBatch_def query_hot split: prod.splits sum.splits)
    then consider "tabs w' = tabs w" | locked rows where "?st locked (db_now w') (tabs w) = Inr (rows, tabs w')"
      using query_DB_tabs by blast
    then show ?thesis
    proof cases
      case 1
      then show ?thesis using kept row Inl by simp
    next
      case 2
      then obtain wk where "claim_spec wk (nat sz) locked (db_now w') (hot (tabs w)) rows (hot (tabs w'))"
        using sql_claim_spec [OF _ ok] by metis
      from claim_spec_row [OF this dist row] show ?thesis using kept taken Inl by (auto split: if_splits)
    qed
  qed
qed

lemma recover_row:
  assumes "RecoverStuck x m w = (res, w')" and row: "row_of (hot (tabs w)) mid = Some r"
  obtains (kept) "row_of (hot (tabs w')) mid = Some r"
  | (recovered) now where "row_of (hot (tabs w')) mid = Some (recover_set now r)" "h_status r = StatusProcessing"
proof -
  let ?sel = "stuck (milliseconds (ClaimTimeout (m_cfg m))) (db_now w')"
  have id: "h_message_id (recover_set now q) = h_message_id q" for now q by (simp add: recover_set_def Let_def)
  have "row_of (upd_where ?sel (recover_set now) rs) mid = map_option (\<lambda>q. if ?sel q then recover_set now q else q) (row_of rs mid)"
    for now rs by (induction rs) (auto simp: row_of_def upd_where_def id)
  then show thesis
    using RecoverStuck_effect(2) [of x m w "fst res" "snd res" w'] assms kept recovered
    by (cases "?sel r") (auto simp: stuck_def)
qed

section \<open>The bound\<close>

text \<open>The attempts a row has behind it, counting one that is under way.\<close>

definition attempts :: "hot_row \<Rightarrow> int" where
  "attempts r = h_retry_count r + (if h_status r = StatusProcessing then 1 else 0)"

text \<open>A row that can still be claimed has budget left; no row is ever more than one over it.\<close>

definition in_budget :: "hot_row \<Rightarrow> bool" where
  "in_budget r \<longleftrightarrow>
     (if h_status r \<in> {StatusPending, StatusRetry} then h_retry_count r \<le> h_max_retry r
      else attempts r \<le> h_max_retry r + 1)"

lemma claim_budget:
  assumes "in_budget r" and "h_status r \<in> {StatusPending, StatusRetry}"
  shows "in_budget (claim_set wk now r) \<and> attempts (claim_set wk now r) = attempts r + 1
     \<and> h_max_retry (claim_set wk now r) = h_max_retry r"
  using assms by (auto simp: in_budget_def attempts_def claim_set_def)

lemma recover_budget:
  assumes "in_budget r" and "h_status r = StatusProcessing"
  shows "in_budget (recover_set now r) \<and> attempts (recover_set now r) = attempts r
     \<and> h_max_retry (recover_set now r) = h_max_retry r"
  using assms by (auto simp: in_budget_def attempts_def recover_set_def Let_def)

lemma crash_run_attempts:
  assumes "crash_run x mid ops w = (k, w')" and "tables_ok (tabs w)" and "row_of (hot (tabs w)) mid = Some r" and "in_budget r"
  shows "\<exists>r'. row_of (hot (tabs w')) mid = Some r' \<and> in_budget r' \<and> int k \<le> attempts r' - attempts r
     \<and> h_max_retry r' = h_max_retry r"
  using assms
proof (induction x mid ops w arbitrary: k r rule: crash_run.induct)
  case (2 x mid s sz ops w)
  obtain res w1 where c: "claimBatch x s sz w = (res, w1)" by fastforce
  have ok1: "tables_ok (tabs w1)" using claimBatch_runs [OF c 2(4)] tables_ok_runs 2(4) by blast
  obtain j where j: "crash_run x mid ops w1 = (j, w')"
    and k: "k = (case res of Inl e \<Rightarrow> j | Inr ms \<Rightarrow> if mid \<in> MessageID ` set ms then j + 1 else j)"
    using 2(3) c by (auto split: sum.splits prod.splits)
  have IH: "\<exists>r'. row_of (hot (tabs w')) mid = Some r' \<and> in_budget r' \<and> int j \<le> attempts r' - attempts q
      \<and> h_max_retry r' = h_max_retry q" if "row_of (hot (tabs w1)) mid = Some q" "in_budget q" for q
    using 2(1) [OF c [symmetric] _ j ok1 that] 2(2) [OF c [symmetric] _ j ok1 that] by (cases res) auto
  from c 2(4,5) show ?case
  proof (cases rule: claim_row)
    case kept
    then have "k = j" using k by (auto split: sum.splits)
    then show ?thesis using IH [OF kept(1) 2(6)] by simp
  next
    case (taken wk now)
    have "k \<le> j + 1" using k by (auto split: sum.splits)
    with IH [OF taken(1)] claim_budget [OF 2(6) taken(2), of wk now] show ?thesis by fastforce
  qed
next
  case (3 x mid m ops w)
  obtain res w1 where c: "RecoverStuck x m w = (res, w1)" by fastforce
  have ok1: "tables_ok (tabs w1)" using RecoverStuck_runs [OF c 3(3)] tables_ok_runs 3(3) by blast
  have j: "crash_run x mid ops (snd (RecoverStuck x m w)) = (k, w')" using 3(2) by simp
  note IH = 3(1) [OF j, unfolded c snd_conv, OF ok1]
  from c 3(4) show ?case
  proof (cases rule: recover_row)
    case kept
    then show ?thesis using IH 3(5) by blast
  next
    case (recovered now)
    with IH recover_budget [OF 3(5) recovered(2), of now] show ?thesis by fastforce
  qed
qed auto

text \<open>
  (C18) A message whose handler always kills its worker is not tried for ever: while workers only claim
  and recover, in any order and with any faults, a new message with budget \<open>k\<close> is handed out at most
  \<open>k + 1\<close> times, and after the last time it is in no state from which it could be claimed.
\<close>

theorem crash_loop_bounded:
  assumes "crash_run x mid ops w = (n, w')" and "tables_ok (tabs w)"
    and "row_of (hot (tabs w)) mid = Some r" and "h_status r = StatusPending" and "0 \<le> h_max_retry r"
  shows "int n \<le> h_max_retry r + 1
     \<and> (int n = h_max_retry r + 1 \<longrightarrow>
          (\<exists>r'. row_of (hot (tabs w')) mid = Some r' \<and> h_status r' \<in> {StatusProcessing, StatusFailed} \<and> (\<forall>now. \<not> claimable now r')))"
proof -
  have "row_ok r" using assms(2,3) hot_ok_row_of by (auto simp: tables_ok_def)
  then have zero: "attempts r = 0" and "in_budget r"
    using assms(4,5) by (simp_all add: row_ok_def attempts_def in_budget_def)
  then obtain r' where r': "row_of (hot (tabs w')) mid = Some r'" "in_budget r'" "int n \<le> attempts r'" "h_max_retry r' = h_max_retry r"
    using crash_run_attempts [OF assms(1-3)] by auto
  have "attempts r' \<le> h_max_retry r + 1"
    using r'(2,4) by (auto simp: in_budget_def attempts_def split: if_splits)
  moreover have "h_status r' \<in> {StatusProcessing, StatusFailed}" if "attempts r' = h_max_retry r + 1"
    using r'(2,4) that by (cases "h_status r'") (auto simp: in_budget_def attempts_def)
  ultimately show ?thesis using r' by (auto simp: claimable_def)
qed

theorem crash_loop_bounded_witness:
  "fst (crash_run pg ''a'' [Claim store0 1] two_waiting) = 1
     \<and> int (fst (crash_run pg ''a'' [Claim store0 1, Recover m0, Claim store0 5] two_waiting)) \<le> 6"
proof -
  obtain n w' where run: "crash_run pg ''a'' [Claim store0 1, Recover m0, Claim store0 5] two_waiting = (n, w')" by fastforce
  have row: "row_of (hot (tabs two_waiting)) ''a'' = Some (msg_row ''a'' 10)"
    by (simp add: two_waiting_def eval_simps)
  have "h_status (msg_row ''a'' 10) = StatusPending" "h_max_retry (msg_row ''a'' 10) = 5" by (simp_all add: eval_simps)
  with crash_loop_bounded [OF run two_waiting_ok row] have "int n \<le> 6" by simp
  moreover have "fst (crash_run pg ''a'' [Claim store0 1] two_waiting) = 1" by (simp add: two_waiting_def eval_simps)
  ultimately show ?thesis by (simp only: run fst_conv)
qed

end
