(* ===== verification/Deployment.thy ===== *)
theory Deployment
  imports Schema_Properties Messaging
begin

text \<open>
  The store against the schema: the tables that \<open>Migrate\<close> (\<^verbatim>\<open>migrate.go\<close>, \<^verbatim>\<open>schema.go\<close>) creates are those that an
  instance made by \<open>New\<close> uses, and they have the columns that the statements of \<^verbatim>\<open>store.go\<close> name.
\<close>

section \<open>The columns of a table definition\<close>

fun comma_parts :: "string \<Rightarrow> string \<Rightarrow> string list" where
  "comma_parts acc [] = [rev acc]"
| "comma_parts acc (c # cs) = (if c = CHR '','' then rev acc # comma_parts [] cs else comma_parts (c # acc) cs)"

definition column_name :: "string \<Rightarrow> string" where
  "column_name d = takeWhile (\<lambda>c. c \<noteq> CHR '' '') (dropWhile (\<lambda>c. c = CHR '' '' \<or> c = CHR 0x0A) d)"

fun contains :: "string \<Rightarrow> string \<Rightarrow> bool" where
  "contains p [] = (p = [])"
| "contains p (c # cs) = (take (length p) (c # cs) = p \<or> contains p cs)"

text \<open>A column that an \<open>INSERT\<close> has to name.\<close>

definition needs_value :: "string \<Rightarrow> bool" where
  "needs_value d \<longleftrightarrow> contains ''NOT NULL'' d \<and> \<not> contains ''DEFAULT'' d"

definition table_body :: "catalog \<Rightarrow> string \<Rightarrow> string option" where
  "table_body cat t = (case map_of cat (pg_ident t) of Some (Table b) \<Rightarrow> Some b | _ \<Rightarrow> None)"

definition columns_in :: "catalog \<Rightarrow> string \<Rightarrow> string list option" where
  "columns_in cat t = map_option (\<lambda>b. map column_name (comma_parts [] b)) (table_body cat t)"

definition required_in :: "catalog \<Rightarrow> string \<Rightarrow> string list option" where
  "required_in cat t = map_option (\<lambda>b. map column_name (filter needs_value (comma_parts [] b))) (table_body cat t)"

lemma hot_columns: "map column_name (comma_parts [] hot_body) = split_cols [] hotCols"
  unfolding split_hotCols by code_simp

lemma archive_columns: "map column_name (comma_parts [] archive_body) = split_cols [] archiveCols"
  unfolding split_archiveCols by code_simp

lemma dedup_columns:
  "map column_name (comma_parts [] dedup_body) =
     [''message_id'', ''partition_key'', ''topic'', ''source'', ''first_seen_at'', ''expire_at'']"
  by code_simp

lemma archive_required:
  "map column_name (filter needs_value (comma_parts [] archive_body)) = [''message_id'', ''topic'', ''payload'', ''final_status'', ''created_at'']"
  by code_simp

section \<open>Which tables exist after a migration\<close>

lemma taken_map_of: "taken cat s \<longleftrightarrow> map_of cat (pg_ident s) \<noteq> None"
  by (simp add: taken_def map_of_eq_None_iff)

lemma fold_lookup: "list_all creates sts \<Longrightarrow> map_of cat n = Some r \<Longrightarrow> map_of (fold exec_ddl sts cat) n = Some r"
proof (induction sts arbitrary: cat)
  case (Cons st sts)
  then have "map_of (exec_ddl st cat) n = Some r" by (cases st) (auto simp: creates_def map_add_Some_iff)
  with Cons show ?case by simp
qed simp

lemma fold_absent:
  "list_all creates sts \<Longrightarrow> map_of cat n = None \<Longrightarrow> \<forall>st \<in> set sts. pg_ident (ddl_name st) \<noteq> n
     \<Longrightarrow> map_of (fold exec_ddl sts cat) n = None"
proof (induction sts arbitrary: cat)
  case (Cons st sts)
  then have "map_of (exec_ddl st cat) n = None" by (cases st) (auto simp: creates_def ddl_name_def map_of_eq_None_iff)
  with Cons show ?case by simp
qed simp

lemma table_created:
  assumes "list_all creates (pre @ Create_table t b # post)" and "\<not> taken cat t"
    and "\<forall>st \<in> set pre. pg_ident (ddl_name st) \<noteq> pg_ident t"
  shows "table_body (fold exec_ddl (pre @ Create_table t b # post) cat) t = Some b"
proof -
  have "map_of (fold exec_ddl pre cat) (pg_ident t) = None"
    using assms by (intro fold_absent) (auto simp: taken_map_of)
  then have "map_of (exec_ddl (Create_table t b) (fold exec_ddl pre cat)) (pg_ident t) = Some (Table b)"
    by (auto simp: taken_map_of map_add_def)
  then have "map_of (fold exec_ddl post (exec_ddl (Create_table t b) (fold exec_ddl pre cat))) (pg_ident t) = Some (Table b)"
    using assms(1) by (intro fold_lookup) auto
  then show ?thesis by (simp add: table_body_def)
qed

text \<open>Whatever the length of the name, no identifier of a table is one of the other tables or of an index.\<close>

lemma table_names_apart:
  assumes "assertValidName q name = None" and "length s1 \<le> 7"
  shows "length s2 \<le> 7 \<Longrightarrow> pg_ident (tableName name s1) = pg_ident (tableName name s2) \<longleftrightarrow> map lower s1 = map lower s2"
    and "pg_ident (index_name t i) \<noteq> pg_ident (tableName name s1)"
proof -
  show "pg_ident (tableName name s1) = pg_ident (tableName name s2) \<longleftrightarrow> map lower s1 = map lower s2" if "length s2 \<le> 7"
    using table_identifier [OF assms] table_identifier [OF assms(1) that] by (simp add: tableName_prefix)
  have "hd (pg_ident (tableName name s1)) = CHR ''m''" by (simp add: tableName_def pg_ident_def)
  moreover have "hd (pg_ident (index_name t i)) = CHR ''i''" by (simp add: index_name_def pg_ident_def)
  ultimately show "pg_ident (index_name t i) \<noteq> pg_ident (tableName name s1)" by force
qed

lemma migrated_tables:
  assumes valid: "assertValidName q name = None"
    and fresh: "\<not> taken cat (tableName name ''dedup'')" "\<not> taken cat (tableName name ''hot'')" "\<not> taken cat (tableName name ''archive'')"
  defines "cat' \<equiv> fold exec_ddl (schema_ddl name) cat"
  shows "table_body cat' (tableName name ''dedup'') = Some dedup_body"
    and "table_body cat' (tableName name ''hot'') = Some hot_body"
    and "table_body cat' (tableName name ''archive'') = Some archive_body"
proof -
  note apart = table_names_apart [OF valid]
  have split: "schema_ddl name = [] @ Create_table (tableName name ''dedup'') dedup_body # drop 1 (schema_ddl name)"
    "schema_ddl name = take 2 (schema_ddl name) @ Create_table (tableName name ''hot'') hot_body # drop 3 (schema_ddl name)"
    "schema_ddl name = take 5 (schema_ddl name) @ Create_table (tableName name ''archive'') archive_body # drop 6 (schema_ddl name)"
    by (simp_all add: schema_ddl_def Let_def)
  show "table_body cat' (tableName name ''dedup'') = Some dedup_body"
    unfolding cat'_def by (subst split(1), rule table_created) (use schema_creates [of name] split(1) fresh in auto)
  show "table_body cat' (tableName name ''hot'') = Some hot_body"
    unfolding cat'_def
    by (subst split(2), rule table_created)
       (use schema_creates [of name] split(2) fresh in \<open>auto simp: schema_ddl_def ddl_name_def Let_def apart\<close>)
  show "table_body cat' (tableName name ''archive'') = Some archive_body"
    unfolding cat'_def
    by (subst split(3), rule table_created)
       (use schema_creates [of name] split(3) fresh in \<open>auto simp: schema_ddl_def ddl_name_def Let_def apart\<close>)
qed

section \<open>An instance and its tables\<close>

lemma New_tables:
  assumes "New q cfg opts = Inr m"
  shows "assertValidName q (Name cfg) = None" and "dedupTbl (m_store m) = tableName (Name cfg) ''dedup''"
    and "hotTbl (m_store m) = tableName (Name cfg) ''hot''" and "archTbl (m_store m) = tableName (Name cfg) ''archive''"
proof -
  show v: "assertValidName q (Name cfg) = None" using assms by (simp add: New_def split: option.splits)
  obtain c where c: "New_cipher q (applyOptions opts) = Inr c"
    using assms v by (cases "New_cipher q (applyOptions opts)") (simp_all add: New_def Let_def)
  then have "m_store m = newStore (Config_withDefaults cfg) c" using assms v by (auto simp: New_def Let_def)
  moreover have "Name (Config_withDefaults c') = Name c'" for c' by (simp add: Config_withDefaults_def)
  ultimately show "dedupTbl (m_store m) = tableName (Name cfg) ''dedup''"
    "hotTbl (m_store m) = tableName (Name cfg) ''hot''" "archTbl (m_store m) = tableName (Name cfg) ''archive''"
    by (simp_all add: newStore_def Let_def)
qed

text \<open>
  (C31) What \<open>Migrate\<close> creates is what the store reads and writes. For every instance that \<open>New\<close> accepts, on
  a database where its table names are free, \<open>Migrate\<close> succeeds; its hot table and its archive then
  have exactly the columns of \<open>hotCols\<close> and \<open>archiveCols\<close>, in that order; and the statement that
  fills the archive names only columns of it, and every column that has no default.
\<close>

theorem schema_fits_store:
  fixes q :: "string \<Rightarrow> string" and cat :: catalog
  assumes "New q cfg opts = Inr m"
    and "\<not> taken cat (dedupTbl (m_store m))" and "\<not> taken cat (hotTbl (m_store m))" and "\<not> taken cat (archTbl (m_store m))"
  shows "\<exists>cat' req. Migrate q no_fault (Name cfg) cat = (None, cat')
     \<and> columns_in cat' (hotTbl (m_store m)) = Some (split_cols [] hotCols)
     \<and> columns_in cat' (archTbl (m_store m)) = Some (split_cols [] archiveCols)
     \<and> columns_in cat' (dedupTbl (m_store m)) = Some (split_cols [] ''message_id, partition_key, topic, source, first_seen_at, expire_at'')
     \<and> set (split_cols [] archive_into) \<subseteq> set (split_cols [] archiveCols)
     \<and> required_in cat' (archTbl (m_store m)) = Some req \<and> set req \<subseteq> set (split_cols [] archive_into)"
proof -
  note t = New_tables [OF assms(1)]
  note b = migrated_tables [OF t(1) assms(2-4) [unfolded t(2-4)]]
  have "split_cols [] ''message_id, partition_key, topic, source, first_seen_at, expire_at'' =
      [''message_id'', ''partition_key'', ''topic'', ''source'', ''first_seen_at'', ''expire_at'']" by code_simp
  then show ?thesis
    by (simp add: Migrate_run [OF t(1)] columns_in_def required_in_def t(2-4) b hot_columns archive_columns dedup_columns
        archive_required)
       (simp add: split_archive_into split_archiveCols)
qed

definition cfg_named :: "string \<Rightarrow> config" where
  "cfg_named n = \<lparr>Name = n, DefaultMaxRetries = 0, DefaultBackoff = None, WorkerID = '''', ClaimTimeout = 0,
     DedupTTL = 0, FailedRetention = 0, Concurrency = 0, HandlerTimeout = 0\<rparr>"

theorem schema_fits_store_witness:
  "\<exists>m cat'. New (\<lambda>s. s) (cfg_named ''asset'') [] = Inr m \<and> Migrate (\<lambda>s. s) no_fault ''asset'' [] = (None, cat')
     \<and> columns_in cat' (hotTbl (m_store m)) = Some (split_cols [] hotCols)"
proof -
  have "\<exists>m. New (\<lambda>s. s) (cfg_named ''asset'') [] = Inr m"
    using valid_asset by (simp add: New_def cfg_named_def applyOptions_def New_cipher_def Let_def)
  then obtain m where m: "New (\<lambda>s. s) (cfg_named ''asset'') [] = Inr m" by blast
  have "Name (cfg_named ''asset'') = ''asset''" by (simp add: cfg_named_def)
  with m schema_fits_store [OF m, of "[]"] show ?thesis by (auto simp: taken_def)
qed

end
