(* ===== verification/Spec2Isabelle.thy ===== *)
theory Spec2Isabelle
  imports Store_Properties Messaging_Properties Admin_Properties Cleanup_Properties Runner_Properties
    Schema_Properties Lifecycle Crash_Loop Deployment
begin

text \<open>
  A verification development for the Go library under \<^verbatim>\<open>src/\<close>: a durable message queue on three PostgreSQL
  tables. Producers call \<open>Receive\<close> (deduplicated) or \<open>Enqueue\<close>; workers call \<open>ProcessBatch\<close>, which claims
  due rows of the hot table, runs handlers concurrently, and moves each row to the archive, back
  to \<open>RETRY\<close>, or to \<open>FAILED\<close>; operators re-queue and list; a periodic cleanup recovers messages of crashed
  workers, archives old failures and purges.

  \<^bold>\<open>How the program is modelled.\<close> Go values are HOL values: strings and byte slices are lists of bytes
  (\<open>string\<close>), \<open>int\<close> and \<open>time.Duration\<close> are integers with the 64-bit wrap-around written out where it
  can occur (\<open>wrap64\<close>), structs are records, interfaces supplied by the caller (handlers, ciphers,
  custom backoff) are functions. Errors are values of the datatype \<open>err\<close>, so that every early return
  is a branch. A method is a function from the world before the call to its result and the world
  after. The world (\<open>Database\<close>) holds the three tables, the server's and the application's clocks,
  the random source, the metrics and log calls made so far, and a script of what happens at each
  call to the database: how far the clocks move, which rows other sessions hold locked, whether
  the call fails before the server acts or after it (only the answer is lost), and whether the rows of
  an answer break off. Theorems quantify
  over all scripts, so they hold for every pattern of faults. Each SQL statement is a function on
  the tables that is refused or yields a result; what the server does with types and encodings
  (rounding of timestamps, lengths of \<open>VARCHAR\<close>, canonical form of \<open>JSONB\<close>, the limit on parameters) is
  the parameter \<open>ext\<close>. A transaction restores the rows on rollback, but not the identity sequence.

  \<^bold>\<open>Theories and the code they model.\<close>
  \<^item> \<open>Prelude\<close>, \<open>Support\<close>: 64-bit arithmetic, durations; \<^verbatim>\<open>errors.go\<close>, \<^verbatim>\<open>utils.go\<close>, \<^verbatim>\<open>db.go\<close>.
  \<^item> \<open>Backoff\<close>: \<^verbatim>\<open>backoff.go\<close>, with the part of \<open>float64\<close> it uses. The interface \<open>growing_backoff\<close> is
    interpreted by the default strategy and by the exponential one in its range.
  \<^item> \<open>Codec\<close>, \<open>Json\<close>, \<open>Crypto\<close>: UTF-8, base64 and the JSON of \<open>encoding/json\<close> that the code uses, and
    \<^verbatim>\<open>crypto.go\<close> (registry, rotation, envelope, AES-GCM framing). Encodings are instances of the locale
    \<open>codec\<close> and are stacked by \<open>codec_stack\<close>. The JSON parser takes fuel; \<open>json_parse_fuel\<close> shows
    that the length of the input is enough.
  \<^item> \<open>Config\<close>: \<^verbatim>\<open>config.go\<close>, \<^verbatim>\<open>message.go\<close>, \<^verbatim>\<open>logger.go\<close>, \<^verbatim>\<open>metrics.go\<close>, the page options.
  \<^item> \<open>Database\<close>: \<open>database/sql\<close> and \<^verbatim>\<open>tx.go\<close>: statements, queries whose rows may break off, transactions, faults.
  \<^item> \<open>Columns\<close>: column lists as text, the values of a row by name, \<open>Rows.Scan\<close> into typed destinations, and
    \<open>INSERT INTO ... SELECT\<close>; only the order of the names connects a statement with what reads its answer.
  \<^item> \<open>Hot_Table\<close>, \<open>Table_Spec\<close>: the abstract specification. The invariant \<open>tables_ok\<close>, the life cycle of a
    message (\<open>moves\<close>), the atomic changes (\<open>table_step\<close>) and their runs; the locales \<open>row_update\<close>, \<open>sound_stmt\<close>
    and \<open>counted_update\<close> are the contract between a statement and the code that executes it.
  \<^item> \<open>Store\<close>, \<open>Store_Facts\<close>, \<open>Store_Properties\<close>: \<^verbatim>\<open>store.go\<close>. Every statement interprets its contract; claiming is exact and
    exclusive, terminal transitions are atomic and guarded by ownership, encryption round-trips.
  \<^item> \<open>Messaging\<close>, \<open>Messaging_Facts\<close>, \<open>Messaging_Properties\<close>: \<^verbatim>\<open>messaging.go\<close>. Deduplication, all-or-nothing enqueueing,
    what becomes of a claimed message on every branch. \<open>Progress\<close>: when nothing fails, a batch is archived.
  \<^item> \<open>Pool\<close>, \<open>Runner\<close>, \<open>Runner_Properties\<close>: the goroutines of \<open>ProcessBatch\<close> and \<^verbatim>\<open>runner.go\<close> as transition systems: bounded
    concurrency, progress, the end of \<open>Stop\<close>, and the race in which the runner panics.
  \<^item> \<open>Drain\<close>: the batch loop shared by \<open>RetryAllFailed\<close> and \<open>purgeBatched\<close>, a partial function; the locale \<open>draining\<close>
    says why it returns and is interpreted by all three users.
  \<^item> \<open>Admin\<close>, \<open>Admin_Facts\<close>, \<open>Admin_Properties\<close>: \<^verbatim>\<open>messaging_admin.go\<close>, with the builder of \<open>WHERE\<close> clauses under SQL's
    three-valued logic.
  \<^item> \<open>Cleanup\<close>, \<open>Cleanup_Facts\<close>, \<open>Cleanup_Properties\<close>: \<^verbatim>\<open>cleanup.go\<close>.
  \<^item> \<open>Schema\<close>, \<open>Schema_Properties\<close>: \<^verbatim>\<open>schema.go\<close> and \<^verbatim>\<open>migrate.go\<close>: the text of the DDL and its effect on the names of a
    database.
  \<^item> \<open>Deployment\<close>: what \<open>Migrate\<close> creates has the columns that the store's statements name.
  \<^item> \<open>Crash_Loop\<close>: claims and recoveries in any order; how often one message can be handed out.
  \<^item> \<open>Lifecycle\<close>: all operations together as one transition system, with crashes, handlers in flight and
    results that are recorded later, refined to the abstract specification.
  \<^item> \<open>Samples\<close>: concrete worlds in which the theorems are applied.

  \<^bold>\<open>Loops and bounds.\<close> The loops over lists are structural recursion. The two endless \<open>for\<close> loops on the
  database are \<open>partial_function\<close>s with theorems that they return. The polling loop of the runner is
  meant to run until it is cancelled; \<open>runner_loop\<close> takes the number of polls to follow, and its
  theorem holds for every number.

  \<^bold>\<open>Assumptions.\<close> A single statement is atomic, and so is a transaction of the library: the rows it works on are
  locked by it, or it is given the rows that others have locked (\<open>SKIP LOCKED\<close>). Within \<open>ProcessBatch\<close> the goroutines
  work on different rows, so a schedule orders their effects; \<open>Lifecycle\<close> interleaves the handlers and the
  recording of their results freely with everything else. Handlers return (no panic) and what they do to
  the tables, if anything, is a hypothesis (\<open>routes_keep\<close>) of the theorems that need it. Ciphers decrypt what they
  encrypted where a theorem says so.

  \<^bold>\<open>Not modelled.\<close> The PostgreSQL driver and server beyond the statements used; \<open>context\<close> values other than
  as causes of faults, of missed slots and of the end of the loop; the text of SQL other than the DDL and
  the lists of columns (a statement is its effect); AES, SHA-256 and the random source (parameters); memory sharing of
  a message between the library and the caller; \<open>LoggerFunc\<close> and the no-op implementations, which have
  no effect; \<^verbatim>\<open>doc.go\<close>, which has no code; the tests.
\<close>

end
